(* ===== verification/Go_Prelude.thy ===== *)
theory Go_Prelude
  imports Main "HOL-Library.Word" "HOL-Library.Char_ord" "HOL-Library.List_Lexorder"
begin

section \<open>Shared vocabulary: Go strings, errors, sorted string lists\<close>

text \<open>
  The generic part of the development: the type names of the model, the standard-library string
  operations the sources call (packages strings, sort, fmt, path/filepath, strconv), the
  combinators that render a Go function that returns at its first error, and the lemmas on them
  that the component theories share.

  A Go string and a Go byte slice are both byte sequences, so both are \<open>char list\<close> here
  (a HOL \<open>char\<close> is one byte). \<open>sort.Strings\<close> compares bytes lexicographically, which is the
  order of \<open>HOL-Library.List_Lexorder\<close> over \<open>HOL-Library.Char_ord\<close>.
\<close>

named_theorems go_simps \<open>unfolding rules of the modelled standard-library operations\<close>
named_theorems ext_intros \<open>an operation only appends events of a given kind to the trace\<close>
named_theorems inv_intros \<open>an operation keeps the invariant of its component\<close>

type_synonym bytes = string
type_synonym u8 = "8 word"
type_synonym u16 = "16 word"
type_synonym u32 = "32 word"
type_synonym u64 = "64 word"
type_synonym duration = int
type_synonym 'v gomap = "(string \<times> 'v) list"

subsection \<open>First-error control flow\<close>

text \<open>
  A Go function of the form \<open>if c1 { return e1 }; if err := f(); err != nil { return err }; ...;
  return nil\<close> is a list of checks evaluated in order: the first error is the result.
\<close>

primrec checks :: "'e option list \<Rightarrow> 'e option" where
  "checks [] = None"
| "checks (c # cs) = (case c of None \<Rightarrow> checks cs | Some e \<Rightarrow> Some e)"

definition fail_if :: "bool \<Rightarrow> 'e \<Rightarrow> 'e option" where
  "fail_if b e = (if b then Some e else None)"

definition first_error :: "('a \<Rightarrow> 'e option) \<Rightarrow> 'a list \<Rightarrow> 'e option" where
  "first_error f xs = checks (map f xs)"

subsection \<open>Package strings\<close>

definition HasPrefix :: "string \<Rightarrow> string \<Rightarrow> bool" where
  "HasPrefix s p \<longleftrightarrow> take (length p) s = p"

definition HasSuffix :: "string \<Rightarrow> string \<Rightarrow> bool" where
  "HasSuffix s p \<longleftrightarrow> length p \<le> length s \<and> drop (length s - length p) s = p"

definition ContainsAny :: "string \<Rightarrow> string \<Rightarrow> bool" where
  "ContainsAny s cs \<longleftrightarrow> list_ex (\<lambda>c. List.member cs c) s"

primrec IndexByte :: "string \<Rightarrow> char \<Rightarrow> nat option" where
  "IndexByte [] c = None"
| "IndexByte (x # xs) c = (if x = c then Some 0 else map_option Suc (IndexByte xs c))"

fun Split :: "string \<Rightarrow> char \<Rightarrow> string list" where
  "Split [] c = [[]]"
| "Split (x # xs) c =
     (if x = c then [] # Split xs c
      else (case Split xs c of [] \<Rightarrow> [[x]] | p # ps \<Rightarrow> (x # p) # ps))"

fun Join :: "string list \<Rightarrow> string \<Rightarrow> string" where
  "Join [] sep = []"
| "Join [p] sep = p"
| "Join (p # q # ps) sep = p @ sep @ Join (q # ps) sep"

definition Trim :: "string \<Rightarrow> string \<Rightarrow> string" where
  "Trim s cutset = rev (dropWhile (\<lambda>c. List.member cutset c) (rev (dropWhile (\<lambda>c. List.member cutset c) s)))"

text \<open>
  The white space of \<open>unicode.IsSpace\<close> as UTF-8 byte sequences: the six ASCII ones, U+0085 and
  U+00A0, U+1680, U+2000 to U+200A, U+2028, U+2029, U+202F, U+205F and U+3000.
\<close>

definition spaces :: "string list" where
  "spaces = [[CHR 0x09], [CHR 0x0A], [CHR 0x0B], [CHR 0x0C], [CHR 0x0D], [CHR 0x20]]
     @ [[CHR 0xC2, CHR 0x85], [CHR 0xC2, CHR 0xA0], [CHR 0xE1, CHR 0x9A, CHR 0x80]]
     @ map (\<lambda>c. [CHR 0xE2, CHR 0x80, c])
         [CHR 0x80, CHR 0x81, CHR 0x82, CHR 0x83, CHR 0x84, CHR 0x85, CHR 0x86,
          CHR 0x87, CHR 0x88, CHR 0x89, CHR 0x8A, CHR 0xA8, CHR 0xA9, CHR 0xAF]
     @ [[CHR 0xE2, CHR 0x81, CHR 0x9F], [CHR 0xE3, CHR 0x80, CHR 0x80]]"

text \<open>\<open>TrimLeftFunc(unicode.IsSpace)\<close>: drop a leading white-space rune while there is one.\<close>

lemma find_prefix_shrinks:
  assumes "find (\<lambda>p. p \<noteq> [] \<and> HasPrefix s p) sps = Some p"
  shows "length (drop (length p) s) < length s"
proof -
  from assms have "p \<noteq> []" and "take (length p) s = p"
    by (auto simp: find_Some_iff HasPrefix_def)
  then show ?thesis by (cases s; cases p) auto
qed

function trim_left :: "string list \<Rightarrow> string \<Rightarrow> string" where
  "trim_left sps s =
     (case find (\<lambda>p. p \<noteq> [] \<and> HasPrefix s p) sps of
        None \<Rightarrow> s
      | Some p \<Rightarrow> trim_left sps (drop (length p) s))"
  by pat_completeness auto
termination
  by (relation "measure (\<lambda>(sps, s). length s)") (simp, simp only: in_measure case_prod_conv find_prefix_shrinks)

declare trim_left.simps [simp del]

definition TrimSpace :: "string \<Rightarrow> string" where
  "TrimSpace s = rev (trim_left (map rev spaces) (rev (trim_left spaces s)))"

text \<open>
  \<open>strings.ToUpper\<close> as far as a comparison with an ASCII literal can see it: an ASCII letter is
  mapped, and so are the two runes outside ASCII whose upper case is an ASCII letter, U+0131
  (dotless i) and U+017F (long s). Every other rune outside ASCII has an upper case outside
  ASCII; its bytes are kept here.
\<close>

definition upper_byte :: "char \<Rightarrow> char" where
  "upper_byte c = (if CHR ''a'' \<le> c \<and> c \<le> CHR ''z'' then char_of (of_char c - 32 :: int) else c)"

fun ToUpper :: "string \<Rightarrow> string" where
  "ToUpper (a # b # s) =
     (if a = CHR 0xC4 \<and> b = CHR 0xB1 then CHR ''I'' # ToUpper s
      else if a = CHR 0xC5 \<and> b = CHR 0xBF then CHR ''S'' # ToUpper s
      else upper_byte a # ToUpper (b # s))"
| "ToUpper [a] = [upper_byte a]"
| "ToUpper [] = []"

definition lower_byte :: "char \<Rightarrow> char" where
  "lower_byte c = (if CHR ''A'' \<le> c \<and> c \<le> CHR ''Z'' then char_of (of_char c + 32 :: int) else c)"

text \<open>\<open>strings.ToLower\<close> on a URL scheme, which consists of ASCII bytes.\<close>

definition ToLowerASCII :: "string \<Rightarrow> string" where
  "ToLowerASCII s = map lower_byte s"

subsection \<open>Decimal numbers (fmt's %d, strconv.Atoi)\<close>

definition digit :: "nat \<Rightarrow> char" where
  "digit n = char_of (48 + n)"

fun decimal :: "nat \<Rightarrow> string" where
  "decimal n = (if n < 10 then [digit n] else decimal (n div 10) @ [digit (n mod 10)])"

declare decimal.simps [simp del]

definition decimal_int :: "int \<Rightarrow> string" where
  "decimal_int i = (if i < 0 then ''-'' @ decimal (nat (- i)) else decimal (nat i))"

definition is_digit :: "char \<Rightarrow> bool" where
  "is_digit c \<longleftrightarrow> CHR ''0'' \<le> c \<and> c \<le> CHR ''9''"

definition undecimal :: "string \<Rightarrow> nat" where
  "undecimal s = foldl (\<lambda>n c. 10 * n + (of_char c - 48)) 0 s"

text \<open>\<open>strconv.Atoi\<close>: an optional sign, one or more digits, in the range of a 64-bit int.\<close>

definition Atoi :: "string \<Rightarrow> int option" where
  "Atoi s =
     (let (neg, ds) = (case s of c # cs \<Rightarrow>
            if c = CHR ''-'' then (True, cs) else if c = CHR ''+'' then (False, cs) else (False, s)
          | [] \<Rightarrow> (False, s));
          n = int (undecimal ds);
          v = (if neg then - n else n)
      in if ds \<noteq> [] \<and> list_all is_digit ds \<and> - (2 ^ 63) \<le> v \<and> v < 2 ^ 63 then Some v else None)"

subsection \<open>Package path/filepath on Unix\<close>

definition IsAbs :: "string \<Rightarrow> bool" where
  "IsAbs p \<longleftrightarrow> HasPrefix p ''/''"

text \<open>\<open>filepath.Clean\<close>: the stack of kept components is built in reverse.\<close>

fun clean_parts :: "bool \<Rightarrow> string list \<Rightarrow> string list \<Rightarrow> string list" where
  "clean_parts rooted stack [] = rev stack"
| "clean_parts rooted stack (p # ps) =
     (if p = [] \<or> p = ''.'' then clean_parts rooted stack ps
      else if p = ''..'' then
        (case stack of
           [] \<Rightarrow> clean_parts rooted (if rooted then [] else [''..'']) ps
         | q # qs \<Rightarrow> if q = ''..'' then clean_parts rooted (''..'' # stack) ps
                     else clean_parts rooted qs ps)
      else clean_parts rooted (p # stack) ps)"

definition Clean :: "string \<Rightarrow> string" where
  "Clean p =
     (let rooted = IsAbs p;
          out = (if rooted then ''/'' else []) @ Join (clean_parts rooted [] (Split p (CHR ''/''))) ''/''
      in if out = [] then ''.'' else out)"

definition NUL :: char where
  "NUL = CHR 0x00"

definition has_nul :: "string \<Rightarrow> bool" where
  "has_nul s \<longleftrightarrow> IndexByte s NUL \<noteq> None"

subsection \<open>Go maps\<close>

text \<open>
  A Go map with string keys is an association list with distinct keys; the order of the list is
  the order in which one \<open>range\<close> statement visits it, which Go leaves open. \<open>sortedKeys\<close>
  (and the identical helpers of the packages) removes that freedom.
\<close>

definition wf_map :: "'v gomap \<Rightarrow> bool" where
  "wf_map m \<longleftrightarrow> distinct (map fst m)"

definition put :: "string \<Rightarrow> 'v \<Rightarrow> 'v gomap \<Rightarrow> 'v gomap" where
  "put k v m = (if map_of m k = None then m @ [(k, v)]
                else map (\<lambda>(k', v'). if k' = k then (k, v) else (k', v')) m)"

definition del :: "string \<Rightarrow> 'v gomap \<Rightarrow> 'v gomap" where
  "del k m = filter (\<lambda>(k', _). k' \<noteq> k) m"

section \<open>Lemmas\<close>

subsection \<open>Checks\<close>

lemma checks_None_iff [simp]: "checks cs = None \<longleftrightarrow> (\<forall>c \<in> set cs. c = None)"
  by (induction cs) (auto split: option.splits)

lemma checks_Some_mem: "checks cs = Some e \<Longrightarrow> Some e \<in> set cs"
  by (induction cs) (auto split: option.splits)

lemma checks_Cons_None [simp]: "checks (None # cs) = checks cs"
  by simp

lemma checks_Cons_Some [simp]: "checks (Some e # cs) = Some e"
  by simp

lemma checks_append: "checks (xs @ ys) = (case checks xs of None \<Rightarrow> checks ys | Some e \<Rightarrow> Some e)"
  by (induction xs) (simp_all split: option.split del: checks_None_iff)

declare checks.simps [simp del]

lemma fail_if_None_iff [simp]: "fail_if b e = None \<longleftrightarrow> \<not> b"
  by (simp add: fail_if_def)

lemma first_error_None_iff [simp]: "first_error f xs = None \<longleftrightarrow> (\<forall>x \<in> set xs. f x = None)"
  by (auto simp: first_error_def)

lemma first_error_SomeE:
  assumes "first_error f xs = Some e"
  obtains x where "x \<in> set xs" "f x = Some e"
  using checks_Some_mem [of "map f xs" e] assms unfolding first_error_def by fastforce

subsection \<open>Splitting and joining\<close>

lemma Split_not_Nil [simp]: "Split s c \<noteq> []"
  by (induction s c rule: Split.induct) (auto split: list.splits)

lemma Split_no_sep [simp]: "c \<notin> set s \<Longrightarrow> Split s c = [s]"
  by (induction s c rule: Split.induct) auto

lemma Split_append_sep: "Split (a @ c # b) c = Split a c @ Split b c"
  by (induction a c rule: Split.induct) (auto split: list.splits)

lemma Split_parts: "p \<in> set (Split s c) \<Longrightarrow> c \<notin> set p"
  by (induction s c arbitrary: p rule: Split.induct) (fastforce split: list.splits if_splits)+

lemma Join_Cons: "ps \<noteq> [] \<Longrightarrow> Join (p # ps) sep = p @ sep @ Join ps sep"
  by (cases ps) auto

lemma Join_Split: "Join (Split s c) [c] = s"
proof (induction s c rule: Split.induct)
  case (2 x xs c)
  then show ?case
    by (cases "Split xs c"; cases "tl (Split xs c)") (auto simp: Join_Cons)
qed simp

lemma Split_sep_slash [simp]:
  "c \<notin> set a \<Longrightarrow> Split (a @ c # b) c = a # Split b c"
  by (simp add: Split_append_sep)

text \<open>A key built with a separator determines its parts when the last part lacks the separator.\<close>

lemma sep_append_inject:
  "d @ c # a = d' @ c # a' \<Longrightarrow> c \<notin> set d \<Longrightarrow> c \<notin> set d' \<Longrightarrow> d = d' \<and> a = a'"
proof (induction d arbitrary: d')
  case Nil
  then show ?case by (cases d') auto
next
  case (Cons x d)
  then show ?case by (cases d') auto
qed

lemma append_sep_inject:
  assumes "a @ c # d = a' @ c # d'" and "c \<notin> set d" and "c \<notin> set d'"
  shows "a = a' \<and> d = d'"
proof -
  from arg_cong [OF assms(1), of rev] have "rev d @ c # rev a = rev d' @ c # rev a'"
    by simp
  then show ?thesis using sep_append_inject [of "rev d" c "rev a" "rev d'" "rev a'"] assms(2,3)
    by simp
qed

subsection \<open>Decimal numbers\<close>

lemma of_char_digit [simp]: "n < 10 \<Longrightarrow> of_char (digit n) = 48 + n"
  by (simp add: digit_def)

lemma undecimal_append: "undecimal (s @ [c]) = 10 * undecimal s + (of_char c - 48)"
  by (simp add: undecimal_def)

lemma undecimal_decimal [simp]: "undecimal (decimal n) = n"
proof (induction n rule: decimal.induct)
  case (1 n)
  show ?case
  proof (cases "n < 10")
    case True
    then show ?thesis by (simp add: decimal.simps undecimal_def)
  next
    case False
    then show ?thesis using 1 by (simp add: decimal.simps [of n] undecimal_append)
  qed
qed

lemma decimal_inject [simp]: "decimal m = decimal n \<longleftrightarrow> m = n"
  by (metis undecimal_decimal)

lemma is_digit_digit: "n < 10 \<Longrightarrow> is_digit (digit n)"
  by (auto simp: is_digit_def less_eq_char_def)

lemma decimal_digits: "list_all is_digit (decimal n)"
proof (induction n rule: decimal.induct)
  case (1 n)
  then show ?case
    by (cases "n < 10") (simp_all add: decimal.simps [of n] is_digit_digit)
qed

lemma decimal_not_in: "\<not> is_digit c \<Longrightarrow> c \<notin> set (decimal n)"
  using decimal_digits [of n] by (auto simp: list_all_iff)

lemma colon_not_decimal [simp]: "CHR '':'' \<notin> set (decimal n)"
  by (rule decimal_not_in) (simp add: is_digit_def less_eq_char_def)

lemma slash_not_decimal [simp]: "CHR ''/'' \<notin> set (decimal n)"
  by (rule decimal_not_in) (simp add: is_digit_def less_eq_char_def)

lemma decimal_int_nonneg: "0 \<le> i \<Longrightarrow> decimal_int i = decimal (nat i)"
  by (simp add: decimal_int_def)

subsection \<open>Go maps\<close>

lemma map_of_put [simp]: "map_of (put k v m) = (map_of m)(k \<mapsto> v)"
proof (cases "map_of m k")
  case None
  then show ?thesis
    by (auto simp: put_def map_add_def fun_eq_iff split: option.splits)
next
  case (Some x)
  have "map_of (map (\<lambda>(k', v'). if k' = k then (k, v) else (k', v')) m) j =
      (if j = k then map_option (\<lambda>_. v) (map_of m k) else map_of m j)" for j
    by (induction m) auto
  then show ?thesis
    using Some by (auto simp: put_def fun_eq_iff)
qed

lemma keys_put: "map fst (put k v m) = (if map_of m k = None then map fst m @ [k] else map fst m)"
  by (auto simp: put_def)

lemma wf_put [inv_intros]: "wf_map m \<Longrightarrow> wf_map (put k v m)"
  by (auto simp: wf_map_def keys_put map_of_eq_None_iff)

lemma map_of_del [simp]: "map_of (del k m) = (map_of m)(k := None)"
  by (induction m) (auto simp: del_def)

lemma wf_del [inv_intros]: "wf_map m \<Longrightarrow> wf_map (del k m)"
  by (induction m) (auto simp: wf_map_def del_def)

lemma wf_map_Nil [simp]: "wf_map []"
  by (simp add: wf_map_def)

lemma wf_map_of: "wf_map m \<Longrightarrow> (k, v) \<in> set m \<Longrightarrow> map_of m k = Some v"
  by (simp add: wf_map_def)

end
