(* ===== verification/Environment.thy ===== *)
theory Environment
  imports Go_Prelude
begin

section \<open>The world outside the sources\<close>

text \<open>
  The daemon talks to code that is not in the repository: the Paho MQTT transport, the gpiocdev
  character-device library, the kernel (processes, files, clock) and the cancellation of its
  context. Every such call is an event; the world is the trace of the events so far, and an
  environment answers each call as a function of that trace. Since a theorem quantifies over the
  environment, the answers are arbitrary: the broker may refuse, time out, or take a message and
  lose the acknowledgement; a line may fail to open; a write may fail at any point.

  The second half defines what the trace says about the broker and the disk (which retained
  messages the broker holds, what the state file contains), and the relation "this operation
  only appended events of this kind", the frame property the component proofs share.
\<close>

subsection \<open>Calls and answers\<close>

datatype ctx_error = Canceled | DeadlineExceeded

text \<open>Which context a \<open>ctx.Err()\<close> reads: the controller's, or the one of one command.\<close>

datatype ctx_scope = ServiceCtx | CommandCtx duration

text \<open>How a Paho token ends: completed, still pending after the timeout, or with an error.\<close>

datatype report = Completed | TimedOut | Failed string

datatype line_option =
    WithConsumer string | AsActiveLow | AsActiveHigh | AsOutput int | AsInput | WithBothEdges
  | WithEventHandler string | WithPullUp | WithPullDown | WithBiasDisabled | WithDebounce duration

datatype signal = SIGTERM | SIGKILL

text \<open>A Go error as \<open>errors.As\<close> sees it: a path error (path, cause), an exec error (name, cause), another.\<close>

datatype go_error = PathError string string | ExecError string string | OtherError string

datatype select_result = CommandDone | ContextDone

datatype file_kind = Regular | Directory | OtherKind

record file_info =
  fi_kind :: file_kind
  fi_mode :: u32
  fi_uid :: u32
  fi_size :: int

datatype disk_op =
    MkdirAll string | OpenLock string | FlockEx string | FlockUn string | CreateTemp string
  | ChmodTemp | WriteTemp bytes | SyncTemp | CloseTemp | RenameTemp string bytes | RemoveTemp
  | OpenDir string | SyncDir string

datatype event =
    EvClock int
  | EvCtx ctx_scope "ctx_error option"
  | EvConnected bool
  | EvConnect "string option"
  | EvPublish string bytes u8 bool report bool
  | EvSubscribe string u8 report
  | EvDisconnect nat
  | EvCallbacks bool
  | EvLineRequest string int "line_option list" "string + nat"
  | EvLineSet nat int "string option"
  | EvLineValue nat "string + int"
  | EvLineClose nat "string option"
  | EvOpenExecutable string "go_error + file_info"
  | EvStat string "go_error + file_info"
  | EvStart string "string list" string "string list" "go_error + nat"
  | EvSelect select_result
  | EvWait "string option" "string option"
  | EvFindProcess nat "string option"
  | EvOutput "bytes list"
  | EvSignal nat signal "string option"
  | EvSleep duration
  | EvDelay duration bool
  | EvDisk disk_op "string option"
  | EvSession
  | EvConnectHandler

type_synonym trace = "event list"

text \<open>
  The Boolean of a publication (second component of the answer, last argument of the event) says
  whether the broker took the message; the program never sees it.
\<close>

record env =
  e_now :: "trace \<Rightarrow> int"
  e_ctx :: "trace \<Rightarrow> ctx_scope \<Rightarrow> ctx_error option"
  e_connected :: "trace \<Rightarrow> bool"
  e_connect :: "trace \<Rightarrow> string option"
  e_publish :: "trace \<Rightarrow> string \<Rightarrow> bytes \<Rightarrow> u8 \<Rightarrow> bool \<Rightarrow> duration \<Rightarrow> report \<times> bool"
  e_subscribe :: "trace \<Rightarrow> string \<Rightarrow> u8 \<Rightarrow> report"
  e_callbacks :: "trace \<Rightarrow> bool"
  e_line_request :: "trace \<Rightarrow> string \<Rightarrow> int \<Rightarrow> line_option list \<Rightarrow> string + nat"
  e_line_set :: "trace \<Rightarrow> nat \<Rightarrow> int \<Rightarrow> string option"
  e_line_value :: "trace \<Rightarrow> nat \<Rightarrow> string + int"
  e_line_close :: "trace \<Rightarrow> nat \<Rightarrow> string option"
  e_open_executable :: "trace \<Rightarrow> string \<Rightarrow> go_error + file_info"
  e_stat :: "trace \<Rightarrow> string \<Rightarrow> go_error + file_info"
  e_start :: "trace \<Rightarrow> string \<Rightarrow> string list \<Rightarrow> string \<Rightarrow> string list \<Rightarrow> go_error + nat"
  e_select :: "trace \<Rightarrow> select_result"
  e_wait :: "trace \<Rightarrow> string option \<times> string option" \<comment> \<open>of waitid and of Wait\<close>
  e_find_process :: "trace \<Rightarrow> nat \<Rightarrow> string option"
  e_output :: "trace \<Rightarrow> bytes list"
  e_signal :: "trace \<Rightarrow> nat \<Rightarrow> signal \<Rightarrow> string option"
  e_delay :: "trace \<Rightarrow> duration \<Rightarrow> bool"
  e_disk :: "trace \<Rightarrow> disk_op \<Rightarrow> string option"
  e_symlinks :: "trace \<Rightarrow> string \<Rightarrow> string + string"
  e_lstat :: "trace \<Rightarrow> string \<Rightarrow> string + file_info"
  e_fstat :: "trace \<Rightarrow> string \<Rightarrow> string + file_info"
  e_open_state :: "trace \<Rightarrow> string \<Rightarrow> string option + bytes"
  e_euid :: u32

definition ask_now :: "env \<Rightarrow> trace \<Rightarrow> int \<times> trace" where
  "ask_now E w = (e_now E w, w @ [EvClock (e_now E w)])"

definition ask_ctx :: "env \<Rightarrow> ctx_scope \<Rightarrow> trace \<Rightarrow> ctx_error option \<times> trace" where
  "ask_ctx E c w = (e_ctx E w c, w @ [EvCtx c (e_ctx E w c)])"

definition ask_connected :: "env \<Rightarrow> trace \<Rightarrow> bool \<times> trace" where
  "ask_connected E w = (e_connected E w, w @ [EvConnected (e_connected E w)])"

definition do_disk :: "env \<Rightarrow> disk_op \<Rightarrow> trace \<Rightarrow> string option \<times> trace" where
  "do_disk E d w = (e_disk E w d, w @ [EvDisk d (e_disk E w d)])"

text \<open>
  \<open>if err := f(); err != nil { return err }; ...\<close> on operations that change the world: go on only
  after success.
\<close>

definition and_then :: "'e option \<times> trace \<Rightarrow> (trace \<Rightarrow> 'e option \<times> trace) \<Rightarrow> 'e option \<times> trace" where
  "and_then r k = (case r of (Some e, w) \<Rightarrow> (Some e, w) | (None, w) \<Rightarrow> k w)"

text \<open>A disk operation whose error is wrapped.\<close>

definition disk_step :: "env \<Rightarrow> (string \<Rightarrow> 'e) \<Rightarrow> disk_op \<Rightarrow> trace \<Rightarrow> 'e option \<times> trace" where
  "disk_step E wrap d w = map_prod (map_option wrap) id (do_disk E d w)"

subsection \<open>What the trace says about the broker and the disk\<close>

text \<open>The retained message of every topic: a retained empty payload removes it.\<close>

fun retain_event :: "(string \<rightharpoonup> bytes) \<Rightarrow> event \<Rightarrow> (string \<rightharpoonup> bytes)" where
  "retain_event r (EvPublish t p q True rep True) = (if p = [] then r(t := None) else r(t \<mapsto> p))"
| "retain_event r e = r"

definition retained :: "trace \<Rightarrow> (string \<rightharpoonup> bytes)" where
  "retained w = foldl retain_event Map.empty w"

text \<open>The content of the file at a path: that of the last rename that succeeded.\<close>

fun file_event :: "string \<Rightarrow> bytes option \<Rightarrow> event \<Rightarrow> bytes option" where
  "file_event path f (EvDisk (RenameTemp path' b) None) = (if path' = path then Some b else f)"
| "file_event path f e = f"

definition stored :: "string \<Rightarrow> trace \<Rightarrow> bytes option" where
  "stored path w = foldl (file_event path) None w"

subsection \<open>Appending events\<close>

definition extends :: "(event \<Rightarrow> bool) \<Rightarrow> trace \<Rightarrow> trace \<Rightarrow> bool" where
  "extends P w w' \<longleftrightarrow> (\<exists>es. w' = w @ es \<and> list_all P es)"

fun is_publish :: "event \<Rightarrow> bool" where
  "is_publish (EvPublish t p q r rep tk) = True"
| "is_publish e = False"

fun is_disk :: "event \<Rightarrow> bool" where
  "is_disk (EvDisk d r) = True"
| "is_disk e = False"

lemma extends_refl [simp, intro]: "extends P w w"
  by (simp add: extends_def)

lemma extends_trans [trans]: "extends P u v \<Longrightarrow> extends P v w \<Longrightarrow> extends P u w"
  by (auto simp: extends_def)

lemma extends_mono: "extends P v w \<Longrightarrow> (\<And>e. P e \<Longrightarrow> Q e) \<Longrightarrow> extends Q v w"
  by (auto simp: extends_def list_all_iff)

lemma extends_snoc [intro]: "extends P v w \<Longrightarrow> P e \<Longrightarrow> extends P v (w @ [e])"
  by (auto simp: extends_def)

lemma extends_one [intro]: "P e \<Longrightarrow> extends P w (w @ [e])"
  by (auto simp: extends_def)

lemma extendsE:
  assumes "extends P w w'"
  obtains es where "w' = w @ es" "list_all P es"
  using assms by (auto simp: extends_def)

lemma extends_take: "extends P w w' \<Longrightarrow> take (length w) w' = w"
  by (auto simp: extends_def)

text \<open>A quantity folded over the trace is unchanged by events that do not touch it.\<close>

lemma foldl_frame:
  assumes "\<And>e x. P e \<Longrightarrow> f x e = x" and "list_all P es"
  shows "foldl f x es = x"
  using assms(2) by (induction es arbitrary: x) (auto simp: assms(1))

lemma retained_snoc [simp]: "retained (w @ [e]) = retain_event (retained w) e"
  by (simp add: retained_def)

lemma stored_snoc [simp]: "stored path (w @ [e]) = file_event path (stored path w) e"
  by (simp add: stored_def)

lemma retain_event_frame: "\<not> is_publish e \<Longrightarrow> retain_event r e = r"
  by (cases e) auto

lemma file_event_frame: "\<not> is_disk e \<Longrightarrow> file_event path f e = f"
  by (cases e) auto

lemma retained_frame: "extends (\<lambda>e. \<not> is_publish e) w w' \<Longrightarrow> retained w' = retained w"
  unfolding extends_def retained_def
  using foldl_frame [where f = retain_event and P = "\<lambda>e. \<not> is_publish e"] retain_event_frame
  by fastforce

lemma stored_frame: "extends (\<lambda>e. \<not> is_disk e) w w' \<Longrightarrow> stored path w' = stored path w"
  unfolding extends_def stored_def
  using foldl_frame [where f = "file_event path" and P = "\<lambda>e. \<not> is_disk e"] file_event_frame
  by fastforce

lemma ask_now_ext [ext_intros]: "(\<And>t. P (EvClock t)) \<Longrightarrow> extends P w (snd (ask_now E w))"
  by (auto simp: ask_now_def)

lemma ask_ctx_ext [ext_intros]: "(\<And>r. P (EvCtx c r)) \<Longrightarrow> extends P w (snd (ask_ctx E c w))"
  by (auto simp: ask_ctx_def)

lemma ask_connected_ext [ext_intros]:
  "(\<And>b. P (EvConnected b)) \<Longrightarrow> extends P w (snd (ask_connected E w))"
  by (auto simp: ask_connected_def)

lemma do_disk_ext [ext_intros]: "(\<And>r. P (EvDisk d r)) \<Longrightarrow> extends P w (snd (do_disk E d w))"
  by (auto simp: do_disk_def)

lemma disk_step_ext [ext_intros]: "(\<And>r. P (EvDisk d r)) \<Longrightarrow> extends P w (snd (disk_step E wrap d w))"
  by (auto simp: disk_step_def do_disk_def)

lemma and_then_ext [ext_intros]:
  assumes "extends P w (snd r)" and "\<And>u. fst r = None \<Longrightarrow> extends P u (snd (k u))"
  shows "extends P w (snd (and_then r k))"
  using assms by (cases r; cases "fst r") (auto simp: and_then_def intro: extends_trans)

lemma and_then_None_iff: "and_then r k = (None, w') \<longleftrightarrow> (\<exists>u. r = (None, u) \<and> k u = (None, w'))"
  by (cases r) (auto simp: and_then_def split: option.splits)

lemma disk_step_None_iff:
  "disk_step E wrap d w = (None, w') \<longleftrightarrow> e_disk E w d = None \<and> w' = w @ [EvDisk d None]"
  by (auto simp: disk_step_def do_disk_def)

lemma pure_check_ext [ext_intros]: "extends P w (snd (c, w))"
  by simp

end
