(* ===== verification/Config_Model.thy ===== *)
theory Config_Model
  imports Environment
begin

section \<open>The configuration (config/config.go)\<close>

text \<open>
  The configuration structures with the fields of the Go structs, the defaults, and the accessors
  that fall back to a default. A Go pointer that may be nil is an option; a Go map is an
  association list (\<^typ>\<open>'v gomap\<close>). The YAML decoder is third-party code: \<open>load\<close> takes
  its answer as an argument.

  \<open>stdlib\<close> collects the pure library functions that the sources call and whose
  algorithm is not restated here: duration, URL and IP parsing, the certificate parsers and the
  JSON codec, as parameters of the definitions that call them.
\<close>

record URL =
  Scheme :: string
  has_User :: bool
  Host :: string
  URL_Path :: string
  RawPath :: string
  RawQuery :: string
  ForceQuery :: bool
  Fragment :: string

record stdlib =
  ParseDuration :: "string \<Rightarrow> duration option"
  url_Parse :: "string \<Rightarrow> URL option"
  ParseIP :: "string \<Rightarrow> bool option" \<comment> \<open>the answer tells whether the address is loopback\<close>
  AppendCertsFromPEM :: "bytes \<Rightarrow> bool"
  X509KeyPair :: "bytes \<Rightarrow> bytes \<Rightarrow> bool"

record MQTTTLSConfig =
  CAFile :: string
  CertFile :: string
  KeyFile :: string
  ServerName :: string
  MinVersion :: string

record DiscoveryConfig =
  Disc_Enabled :: "bool option"
  Disc_Prefix :: string
  StateFile :: string

record MQTTConfig =
  Broker :: string
  Username :: string
  Password :: string
  PasswordFile :: string
  AllowUnauthenticated :: bool
  AllowInsecureTransport :: bool
  TLS :: MQTTTLSConfig
  ClientID :: string
  BaseTopic :: string
  QoS :: "u8 option"
  KeepAlive :: string
  ConnectTimeout :: string
  Discovery :: DiscoveryConfig

record DeviceConfig =
  Dev_ID :: string
  Dev_Name :: string
  Manufacturer :: string
  Model :: string

record GPIOOutputConfig =
  Out_Chip :: string
  Out_Line :: int
  Out_ActiveLow :: bool
  Initial :: bool

record GPIOInputConfig =
  In_Chip :: string
  In_Line :: int
  In_ActiveLow :: bool
  Bias :: string
  Debounce :: string

record GPIOConfig =
  Outputs :: "GPIOOutputConfig gomap"
  Inputs :: "GPIOInputConfig gomap"

record Action =
  Act_Type :: string
  Act_GPIO :: string
  Value :: "bool option"
  Command :: string
  Args :: "string list"
  WorkingDir :: string
  Env :: "string gomap"
  Timeout :: string
  Duration :: string
  Topic :: string
  Payload :: string
  Act_QoS :: "u8 option"
  Retain :: bool
  IgnoreError :: bool

record StateConfig =
  State_Type :: string
  State_GPIO :: string

record SourceConfig =
  Source_Type :: string
  Source_GPIO :: string

record EntityConfig =
  Ent_ID :: string
  Ent_Type :: string
  Ent_Name :: string
  Icon :: string
  DeviceClass :: string
  InitialState :: "bool option"
  State :: StateConfig
  Source :: SourceConfig
  On :: "Action list"
  Off :: "Action list"
  Press :: "Action list"

record Config =
  MQTT :: MQTTConfig
  Device :: DeviceConfig
  GPIO :: GPIOConfig
  Entities :: "EntityConfig list"

subsection \<open>Constants\<close>

definition second :: duration where
  "second = 1000000000"

definition millisecond :: duration where
  "millisecond = 1000000"

definition DefaultMQTTQoS :: u8 where
  "DefaultMQTTQoS = 1"

definition DefaultMQTTKeepAlive :: duration where
  "DefaultMQTTKeepAlive = 30 * second"

definition DefaultMQTTConnectTimeout :: duration where
  "DefaultMQTTConnectTimeout = 10 * second"

definition DefaultCommandTimeout :: duration where
  "DefaultCommandTimeout = 10 * second"

definition DefaultDiscoveryPrefix :: string where
  "DefaultDiscoveryPrefix = ''homeassistant''"

definition DefaultDiscoveryStateFile :: string where
  "DefaultDiscoveryStateFile = ''/var/lib/mqtt-raspberry-controller/discovery-state.json''"

definition project_name :: string where
  "project_name = ''mqtt-raspberry-controller''"

subsection \<open>Defaults and accessors\<close>

definition default_to :: "string \<Rightarrow> string \<Rightarrow> string" where
  "default_to d s = (if s = [] then d else s)"

definition default_output :: "GPIOOutputConfig \<Rightarrow> GPIOOutputConfig" where
  "default_output output = output\<lparr>Out_Chip := default_to ''gpiochip0'' (Out_Chip output)\<rparr>"

definition default_input :: "GPIOInputConfig \<Rightarrow> GPIOInputConfig" where
  "default_input input = input\<lparr>In_Chip := default_to ''gpiochip0'' (In_Chip input),
     Bias := default_to ''disabled'' (Bias input)\<rparr>"

definition applyDefaults :: "Config \<Rightarrow> Config" where
  "applyDefaults c =
     (let device = Device c; mqtt = MQTT c; disc = Discovery mqtt in
      c\<lparr>MQTT := mqtt\<lparr>
            ClientID := default_to (Dev_ID device) (ClientID mqtt),
            BaseTopic := Trim (default_to (Dev_ID device) (BaseTopic mqtt)) ''/'',
            Discovery := disc\<lparr>
              Disc_Prefix := Trim (default_to DefaultDiscoveryPrefix (Disc_Prefix disc)) ''/'',
              StateFile := default_to DefaultDiscoveryStateFile (StateFile disc)\<rparr>\<rparr>,
        Device := device\<lparr>
            Manufacturer := default_to project_name (Manufacturer device),
            Model := default_to project_name (Model device)\<rparr>,
        GPIO := (GPIO c)\<lparr>
            Outputs := map (\<lambda>(name, output). (name, default_output output)) (Outputs (GPIO c)),
            Inputs := map (\<lambda>(name, input). (name, default_input input)) (Inputs (GPIO c))\<rparr>\<rparr>)"

definition MQTTQoS :: "Config \<Rightarrow> u8" where
  "MQTTQoS c = (case QoS (MQTT c) of None \<Rightarrow> DefaultMQTTQoS | Some q \<Rightarrow> q)"

definition DiscoveryEnabled :: "Config \<Rightarrow> bool" where
  "DiscoveryEnabled c = (case Disc_Enabled (Discovery (MQTT c)) of None \<Rightarrow> True | Some b \<Rightarrow> b)"

definition duration_or :: "stdlib \<Rightarrow> duration \<Rightarrow> string \<Rightarrow> duration" where
  "duration_or L d raw =
     (if raw = [] then d else (case ParseDuration L raw of None \<Rightarrow> d | Some x \<Rightarrow> x))"

definition MQTTKeepAlive :: "stdlib \<Rightarrow> Config \<Rightarrow> duration" where
  "MQTTKeepAlive L c = duration_or L DefaultMQTTKeepAlive (KeepAlive (MQTT c))"

definition MQTTConnectTimeout :: "stdlib \<Rightarrow> Config \<Rightarrow> duration" where
  "MQTTConnectTimeout L c = duration_or L DefaultMQTTConnectTimeout (ConnectTimeout (MQTT c))"

definition CommandTimeout :: "stdlib \<Rightarrow> Action \<Rightarrow> duration" where
  "CommandTimeout L a = duration_or L DefaultCommandTimeout (Timeout a)"

section \<open>Lemmas\<close>

lemma default_to_idem [simp]: "default_to d (default_to d s) = default_to d s"
  by (simp add: default_to_def)

lemma default_to_eq_Nil [simp]: "default_to d s = [] \<longleftrightarrow> s = [] \<and> d = []"
  by (simp add: default_to_def)

lemma default_io_idem [simp]:
  "default_output (default_output out) = default_output out"
  "default_input (default_input inp) = default_input inp"
  by (simp_all add: default_output_def default_input_def)

lemma set_Trim: "set (Trim s cs) \<subseteq> set s"
  unfolding Trim_def by (auto dest!: set_dropWhileD)

lemma dropWhile_id: "(xs = [] \<or> \<not> P (hd xs)) \<Longrightarrow> dropWhile P xs = xs"
  by (cases xs) auto

lemma Trim_ends:
  assumes "Trim s cs \<noteq> []"
  shows "hd (Trim s cs) \<notin> set cs" and "last (Trim s cs) \<notin> set cs"
proof -
  let ?P = "\<lambda>c. c \<in> set cs"
  define t where "t = dropWhile ?P s"
  have trim: "Trim s cs = rev (dropWhile ?P (rev t))"
    by (simp add: Trim_def t_def List.member_iff)
  with assms have ne: "dropWhile ?P (rev t) \<noteq> []" by simp
  have "last (Trim s cs) = hd (dropWhile ?P (rev t))"
    using ne by (simp add: trim last_rev)
  then show "last (Trim s cs) \<notin> set cs"
    using hd_dropWhile [OF ne] by simp
  have "t \<noteq> []" using ne by auto
  then have "hd t \<notin> set cs"
    using hd_dropWhile [of ?P s] by (simp add: t_def)
  moreover have "t = Trim s cs @ rev (takeWhile ?P (rev t))"
    unfolding trim rev_append [symmetric] takeWhile_dropWhile_id by (rule rev_rev_ident [symmetric])
  then have "hd t = hd (Trim s cs)"
    using assms by (metis hd_append2)
  ultimately show "hd (Trim s cs) \<notin> set cs" by simp
qed

lemma Trim_idem: "Trim (Trim s cs) cs = Trim s cs"
proof (cases "Trim s cs = []")
  case True
  have "Trim [] cs = []" by (simp add: Trim_def)
  then show ?thesis unfolding True .
next
  case False
  then have "dropWhile (\<lambda>c. c \<in> set cs) (Trim s cs) = Trim s cs"
    using Trim_ends(1) by (intro dropWhile_id) auto
  moreover have "dropWhile (\<lambda>c. c \<in> set cs) (rev (Trim s cs)) = rev (Trim s cs)"
    using False Trim_ends(2) by (intro dropWhile_id) (auto simp: hd_rev)
  ultimately show ?thesis
    by (simp add: Trim_def [of "Trim s cs" cs] List.member_iff)
qed

end
