(* ===== verification/Rate_Limit.thy ===== *)
theory Rate_Limit
  imports Environment Config_Model
begin

section \<open>Rate-limited rejection logs\<close>

text \<open>
  Three routines write at most one log line per second and count what they suppress:
  \<open>overflowLog.record\<close> and \<open>overflowLog.recordRejection\<close> (controller/controller.go) and
  \<open>rateLimitedLog.printf\<close> (mqtt/client.go). They count differently (the first two add the
  current event before they look at the clock, the third only when it stays silent), and their
  lines show different numbers. The locale states what they have in common; its lemmas say that no
  event is lost between lines and that two lines are a second apart.
\<close>

record overflowLog =
  dropped :: u64
  olast :: "int option" \<comment> \<open>None is the zero time\<close>

record rateLimitedLog =
  suppressed :: u64
  rlast :: "int option"

definition new_overflowLog :: overflowLog where
  "new_overflowLog = \<lparr>dropped = 0, olast = None\<rparr>"

definition new_rateLimitedLog :: rateLimitedLog where
  "new_rateLimitedLog = \<lparr>suppressed = 0, rlast = None\<rparr>"

definition within_second :: "int option \<Rightarrow> int \<Rightarrow> bool" where
  "within_second previous now = (case previous of None \<Rightarrow> False | Some t \<Rightarrow> now - t < second)"

text \<open>
  The result is the line written, if any. \<open>record\<close> always shows the count; the others append a
  suffix with the number of suppressed events when there are any.
\<close>

datatype log_line = Rejected string string u64 | Rejection string "u64 option"

definition record_overflow :: "string \<Rightarrow> string \<Rightarrow> overflowLog \<Rightarrow> int \<Rightarrow> log_line option \<times> overflowLog" where
  "record_overflow kind entityID o1 now =
     (let o2 = o1\<lparr>dropped := dropped o1 + 1\<rparr>
      in if within_second (olast o2) now then (None, o2)
         else (Some (Rejected kind entityID (dropped o2)), o2\<lparr>dropped := 0, olast := Some now\<rparr>))"

definition recordRejection :: "string \<Rightarrow> overflowLog \<Rightarrow> int \<Rightarrow> log_line option \<times> overflowLog" where
  "recordRejection msg o1 now =
     (let o2 = o1\<lparr>dropped := dropped o1 + 1\<rparr>
      in if within_second (olast o2) now then (None, o2)
         else (Some (Rejection msg (if dropped o2 > 1 then Some (dropped o2 - 1) else None)),
               o2\<lparr>dropped := 0, olast := Some now\<rparr>))"

definition rate_printf :: "string \<Rightarrow> rateLimitedLog \<Rightarrow> int \<Rightarrow> log_line option \<times> rateLimitedLog" where
  "rate_printf msg l now =
     (if within_second (rlast l) now then (None, l\<lparr>suppressed := suppressed l + 1\<rparr>)
      else (Some (Rejection msg (if suppressed l > 0 then Some (suppressed l) else None)),
            l\<lparr>suppressed := 0, rlast := Some now\<rparr>))"

text \<open>The number of events a line tells about, itself included.\<close>

fun line_events :: "log_line option \<Rightarrow> nat" where
  "line_events None = 0"
| "line_events (Some (Rejected kind i n)) = unat n"
| "line_events (Some (Rejection msg None)) = 1"
| "line_events (Some (Rejection msg (Some n))) = unat n + 1"

text \<open>A limiter used at a sequence of instants: the lines with their instants, and the final state.\<close>

fun limiter_run :: "('s \<Rightarrow> int \<Rightarrow> log_line option \<times> 's) \<Rightarrow> 's \<Rightarrow> int list \<Rightarrow> (int \<times> log_line option) list \<times> 's" where
  "limiter_run step s [] = ([], s)"
| "limiter_run step s (t # ts) =
     (let (line, s1) = step s t; (out, s2) = limiter_run step s1 ts in ((t, line) # out, s2))"

definition printed :: "(int \<times> log_line option) list \<Rightarrow> int list" where
  "printed out = map fst (filter (\<lambda>(t, line). line \<noteq> None) out)"

section \<open>The shared contract\<close>

locale rate_limiter =
  fixes step :: "'s \<Rightarrow> int \<Rightarrow> log_line option \<times> 's"
    and pending :: "'s \<Rightarrow> u64"
    and last_line :: "'s \<Rightarrow> int option"
  assumes silent: "within_second (last_line s) t \<Longrightarrow> fst (step s t) = None
      \<and> pending (snd (step s t)) = pending s + 1 \<and> last_line (snd (step s t)) = last_line s"
    and speaks: "\<not> within_second (last_line s) t \<Longrightarrow> fst (step s t) \<noteq> None
      \<and> pending (snd (step s t)) = 0 \<and> last_line (snd (step s t)) = Some t"
    and counts: "\<not> within_second (last_line s) t \<Longrightarrow> unat (pending s) + 1 < 2 ^ 64
      \<Longrightarrow> line_events (fst (step s t)) = unat (pending s) + 1"
begin

lemma step_conserves:
  assumes "unat (pending s) + 1 < 2 ^ 64"
  shows "line_events (fst (step s t)) + unat (pending (snd (step s t))) = unat (pending s) + 1"
proof (cases "within_second (last_line s) t")
  case True
  have "unat (pending s + 1) = unat (pending s) + 1"
    using assms by (subst unat_add_lem [THEN iffD1]) auto
  then show ?thesis using silent [OF True] by simp
next
  case False
  then show ?thesis using speaks [OF False] counts [OF False assms] by simp
qed

lemma conservation:
  "unat (pending s) + length ts < 2 ^ 64 \<Longrightarrow> limiter_run step s ts = (out, s') \<Longrightarrow>
     sum_list (map (line_events \<circ> snd) out) + unat (pending s') = unat (pending s) + length ts"
proof (induction ts arbitrary: s out)
  case (Cons t ts)
  obtain line s1 where st: "step s t = (line, s1)" by (cases "step s t")
  obtain out1 where run: "limiter_run step s1 ts = (out1, s')" and out: "out = (t, line) # out1"
    using Cons.prems(2) st by (auto split: prod.splits)
  have one: "line_events line + unat (pending s1) = unat (pending s) + 1"
    using step_conserves [of s t] Cons.prems(1) st by simp
  then have "unat (pending s1) + length ts < 2 ^ 64"
    using Cons.prems(1) by simp
  from Cons.IH [OF this run] one out show ?case by simp
qed simp

lemma spacing:
  "limiter_run step s ts = (out, s') \<Longrightarrow>
     successively (\<lambda>a b. second \<le> b - a) (case last_line s of None \<Rightarrow> printed out | Some t0 \<Rightarrow> t0 # printed out)"
proof (induction ts arbitrary: s out)
  case Nil
  then show ?case by (cases "last_line s") (auto simp: printed_def)
next
  case (Cons t ts)
  obtain line s1 where st: "step s t = (line, s1)" by (cases "step s t")
  obtain out1 where run: "limiter_run step s1 ts = (out1, s')" and out: "out = (t, line) # out1"
    using Cons.prems st by (auto split: prod.splits)
  note IH = Cons.IH [OF run]
  show ?case
  proof (cases "within_second (last_line s) t")
    case True
    then have "printed out = printed out1" "last_line s1 = last_line s"
      using silent [OF True] st by (auto simp: out printed_def)
    with IH show ?thesis by (cases "last_line s") simp_all
  next
    case False
    then have "printed out = t # printed out1" "last_line s1 = Some t"
      using speaks [OF False] st by (auto simp: out printed_def)
    with IH False show ?thesis
      by (auto simp: within_second_def split: option.splits)
  qed
qed

end

section \<open>The three limiters\<close>

lemma unat_plus_one: "unat (x :: u64) + 1 < 2 ^ 64 \<Longrightarrow> unat (x + 1) = unat x + 1"
  by (subst unat_add_lem [THEN iffD1]) auto

interpretation overflow: rate_limiter "record_overflow kind entityID" dropped olast for kind entityID
  by unfold_locales (simp_all add: record_overflow_def Let_def unat_plus_one)

interpretation rejection: rate_limiter "recordRejection msg" dropped olast for msg
proof unfold_locales
  fix s :: overflowLog and t
  assume t: "\<not> within_second (olast s) t" and bound: "unat (dropped s) + 1 < 2 ^ 64"
  show "line_events (fst (recordRejection msg s t)) = unat (dropped s) + 1"
    using t unat_plus_one [OF bound]
    by (auto simp: recordRejection_def word_less_nat_alt unat_eq_0)
qed (simp_all add: recordRejection_def Let_def)

interpretation printf: rate_limiter "rate_printf msg" suppressed rlast for msg
proof unfold_locales
  fix s :: rateLimitedLog and t
  assume t: "\<not> within_second (rlast s) t"
  show "line_events (fst (rate_printf msg s t)) = unat (suppressed s) + 1"
    using t by (auto simp: rate_printf_def word_less_nat_alt unat_eq_0)
qed (simp_all add: rate_printf_def)

section \<open>Properties\<close>

text \<open>
  C36. No rejection goes uncounted: over any run of fewer than \<open>2 ^ 64\<close> rejections, the lines
  written by \<open>recordRejection\<close>, by \<open>record\<close> and by \<open>printf\<close> account, together with the
  counter left at the end, for every call, although the three count differently.
\<close>

theorem rate_limit_conservation:
  assumes "length ts < 2 ^ 64"
  shows "(let (out, s) = limiter_run (recordRejection msg) new_overflowLog ts
          in sum_list (map (line_events \<circ> snd) out) + unat (dropped s) = length ts)
       \<and> (let (out, s) = limiter_run (record_overflow kind entityID) new_overflowLog ts
          in sum_list (map (line_events \<circ> snd) out) + unat (dropped s) = length ts)
       \<and> (let (out, s) = limiter_run (rate_printf msg) new_rateLimitedLog ts
          in sum_list (map (line_events \<circ> snd) out) + unat (suppressed s) = length ts)"
  using assms rejection.conservation [of new_overflowLog ts msg]
    overflow.conservation [of new_overflowLog ts kind entityID]
    printf.conservation [of new_rateLimitedLog ts msg]
  by (simp add: new_overflowLog_def new_rateLimitedLog_def split: prod.splits)

theorem rate_limit_conservation_witness:
  "let (out, s) = limiter_run (recordRejection ''retained'') new_overflowLog [0, 1, 2, 2000000000]
   in sum_list (map (line_events \<circ> snd) out) + unat (dropped s) = length [0 :: int, 1, 2, 2000000000]"
  by (rule conjunct1 [OF rate_limit_conservation]) simp

text \<open>
  C37. Two lines of one limiter are at least a second apart, whatever the clock readings are, so a
  flood of rejected messages cannot flood the log.
\<close>

theorem rate_limit_spacing:
  "successively (\<lambda>a b. second \<le> b - a) (printed (fst (limiter_run (recordRejection msg) new_overflowLog ts)))
   \<and> successively (\<lambda>a b. second \<le> b - a) (printed (fst (limiter_run (record_overflow kind entityID) new_overflowLog ts)))
   \<and> successively (\<lambda>a b. second \<le> b - a) (printed (fst (limiter_run (rate_printf msg) new_rateLimitedLog ts)))"
  using rejection.spacing [OF prod.collapse [symmetric], of msg new_overflowLog ts]
    overflow.spacing [OF prod.collapse [symmetric], of kind entityID new_overflowLog ts]
    printf.spacing [OF prod.collapse [symmetric], of msg new_rateLimitedLog ts]
  by (simp add: new_overflowLog_def new_rateLimitedLog_def)

end
