(* ===== verification/Expansion.thy ===== *)
theory Expansion
  imports Config_Model
begin

section \<open>Environment substitution (config/expansion.go)\<close>

text \<open>
  \<open>expandValue\<close> is the index loop of the source; \<open>expandEnvironment\<close> walks the table
  of string fields, in the source's order, and stops at the first missing variable.

  The reference side is a scanner that cuts a value into literal bytes and variable references
  (\<open>scan\<close>), and a function that rewrites all expandable strings of a configuration at once
  (\<open>map_config\<close>). The lemmas show that the loop terminates and computes the scanner's
  result, and that the walk over the configuration is \<open>map_config\<close>.
\<close>

type_synonym lookupEnvFunc = "string \<Rightarrow> string option"

subsection \<open>One value\<close>

definition isASCIILetter :: "char \<Rightarrow> bool" where
  "isASCIILetter c \<longleftrightarrow> CHR ''A'' \<le> c \<and> c \<le> CHR ''Z'' \<or> CHR ''a'' \<le> c \<and> c \<le> CHR ''z''"

definition validEnvironmentName :: "string \<Rightarrow> bool" where
  "validEnvironmentName name =
     (case name of
        [] \<Rightarrow> False
      | c # cs \<Rightarrow>
          if \<not> isASCIILetter c \<and> c \<noteq> CHR ''_'' then False
          else list_all (\<lambda>c. isASCIILetter c \<or> is_digit c \<or> c = CHR ''_'') cs)"

text \<open>The pair is Go's: the expanded value, and the name of the missing variable or the empty string.\<close>

function expand_loop :: "lookupEnvFunc \<Rightarrow> string \<Rightarrow> nat \<Rightarrow> string \<Rightarrow> string \<times> string" where
  "expand_loop lookup value i expanded =
     (if i < length value then
        if value ! i \<noteq> CHR ''$'' then expand_loop lookup value (i + 1) (expanded @ [value ! i])
        else if i + 1 < length value \<and> value ! (i + 1) = CHR ''$''
          then expand_loop lookup value (i + 2) (expanded @ ''$'')
        else if i + 1 \<ge> length value \<or> value ! (i + 1) \<noteq> CHR ''{''
          then expand_loop lookup value (i + 1) (expanded @ ''$'')
        else (case IndexByte (drop (i + 2) value) (CHR ''}'') of
            None \<Rightarrow> (expanded @ drop i value, [])
          | Some endOffset \<Rightarrow>
              (let stop = i + 2 + endOffset; name = take endOffset (drop (i + 2) value) in
               if \<not> validEnvironmentName name
               then expand_loop lookup value (stop + 1) (expanded @ take (stop + 1 - i) (drop i value))
               else (case lookup name of
                   None \<Rightarrow> ([], name)
                 | Some replacement \<Rightarrow> expand_loop lookup value (stop + 1) (expanded @ replacement))))
      else (expanded, []))"
  by pat_completeness auto
termination
  by (relation "measure (\<lambda>(lookup, value, i, expanded). length value - i)") auto

declare expand_loop.simps [simp del]

definition expandValue :: "string \<Rightarrow> lookupEnvFunc \<Rightarrow> string \<times> string" where
  "expandValue value lookup = expand_loop lookup value 0 []"

subsection \<open>The fields of a configuration\<close>

text \<open>The path of a field in an error message: plain text, a quoted map key, or an index.\<close>

datatype seg = Txt string | Quoted string | Idx nat

datatype expand_error = MissingVariable "seg list" string

type_synonym 'r field = "string \<times> ('r \<Rightarrow> string) \<times> ((string \<Rightarrow> string) \<Rightarrow> 'r \<Rightarrow> 'r)"

definition expandField :: "seg list \<Rightarrow> string \<Rightarrow> lookupEnvFunc \<Rightarrow> expand_error + string" where
  "expandField path value lookup =
     (let (expanded, missing) = expandValue value lookup in
      if missing \<noteq> [] then Inl (MissingVariable path missing) else Inr expanded)"

primrec expand_fields :: "lookupEnvFunc \<Rightarrow> seg list \<Rightarrow> 'r field list \<Rightarrow> 'r \<Rightarrow> expand_error + 'r" where
  "expand_fields lookup prefix [] r = Inr r"
| "expand_fields lookup prefix (fld # flds) r =
     (let (name, get, upd) = fld in
      case expandField (prefix @ [Txt name]) (get r) lookup of
        Inl e \<Rightarrow> Inl e
      | Inr s \<Rightarrow> expand_fields lookup prefix flds (upd (\<lambda>_. s) r))"

text \<open>A loop over an indexed slice, and one over the sorted keys of a map.\<close>

fun expand_list :: "(nat \<Rightarrow> 'a \<Rightarrow> 'e + 'a) \<Rightarrow> nat \<Rightarrow> 'a list \<Rightarrow> 'e + 'a list" where
  "expand_list f i [] = Inr []"
| "expand_list f i (x # xs) =
     (case f i x of
        Inl e \<Rightarrow> Inl e
      | Inr y \<Rightarrow> (case expand_list f (Suc i) xs of Inl e \<Rightarrow> Inl e | Inr ys \<Rightarrow> Inr (y # ys)))"

fun expand_keys :: "(string \<Rightarrow> 'v \<Rightarrow> 'e + 'v) \<Rightarrow> string list \<Rightarrow> 'v gomap \<Rightarrow> 'e + 'v gomap" where
  "expand_keys f [] m = Inr m"
| "expand_keys f (k # ks) m =
     (case map_of m k of
        None \<Rightarrow> expand_keys f ks m
      | Some v \<Rightarrow> (case f k v of Inl e \<Rightarrow> Inl e | Inr v' \<Rightarrow> expand_keys f ks (put k v' m)))"

definition sortedKeys :: "'v gomap \<Rightarrow> string list" where
  "sortedKeys m = sort (map fst m)"

definition config_fields :: "Config field list" where
  "config_fields =
    [(''mqtt.broker'', \<lambda>c. Broker (MQTT c), \<lambda>f. MQTT_update (Broker_update f)),
     (''mqtt.username'', \<lambda>c. Username (MQTT c), \<lambda>f. MQTT_update (Username_update f)),
     (''mqtt.password'', \<lambda>c. Password (MQTT c), \<lambda>f. MQTT_update (Password_update f)),
     (''mqtt.password_file'', \<lambda>c. PasswordFile (MQTT c), \<lambda>f. MQTT_update (PasswordFile_update f)),
     (''mqtt.tls.ca_file'', \<lambda>c. CAFile (TLS (MQTT c)), \<lambda>f. MQTT_update (TLS_update (CAFile_update f))),
     (''mqtt.tls.cert_file'', \<lambda>c. CertFile (TLS (MQTT c)), \<lambda>f. MQTT_update (TLS_update (CertFile_update f))),
     (''mqtt.tls.key_file'', \<lambda>c. KeyFile (TLS (MQTT c)), \<lambda>f. MQTT_update (TLS_update (KeyFile_update f))),
     (''mqtt.tls.server_name'', \<lambda>c. ServerName (TLS (MQTT c)),
        \<lambda>f. MQTT_update (TLS_update (ServerName_update f))),
     (''mqtt.tls.min_version'', \<lambda>c. MinVersion (TLS (MQTT c)),
        \<lambda>f. MQTT_update (TLS_update (MinVersion_update f))),
     (''mqtt.client_id'', \<lambda>c. ClientID (MQTT c), \<lambda>f. MQTT_update (ClientID_update f)),
     (''mqtt.base_topic'', \<lambda>c. BaseTopic (MQTT c), \<lambda>f. MQTT_update (BaseTopic_update f)),
     (''mqtt.keep_alive'', \<lambda>c. KeepAlive (MQTT c), \<lambda>f. MQTT_update (KeepAlive_update f)),
     (''mqtt.connect_timeout'', \<lambda>c. ConnectTimeout (MQTT c), \<lambda>f. MQTT_update (ConnectTimeout_update f)),
     (''mqtt.discovery.prefix'', \<lambda>c. Disc_Prefix (Discovery (MQTT c)),
        \<lambda>f. MQTT_update (Discovery_update (Disc_Prefix_update f))),
     (''mqtt.discovery.state_file'', \<lambda>c. StateFile (Discovery (MQTT c)),
        \<lambda>f. MQTT_update (Discovery_update (StateFile_update f))),
     (''device.id'', \<lambda>c. Dev_ID (Device c), \<lambda>f. Device_update (Dev_ID_update f)),
     (''device.name'', \<lambda>c. Dev_Name (Device c), \<lambda>f. Device_update (Dev_Name_update f)),
     (''device.manufacturer'', \<lambda>c. Manufacturer (Device c), \<lambda>f. Device_update (Manufacturer_update f)),
     (''device.model'', \<lambda>c. Model (Device c), \<lambda>f. Device_update (Model_update f))]"

definition output_fields :: "GPIOOutputConfig field list" where
  "output_fields = [(''chip'', Out_Chip, Out_Chip_update)]"

definition input_fields :: "GPIOInputConfig field list" where
  "input_fields =
    [(''chip'', In_Chip, In_Chip_update), (''bias'', Bias, Bias_update), (''debounce'', Debounce, Debounce_update)]"

definition entity_fields :: "EntityConfig field list" where
  "entity_fields =
    [(''id'', Ent_ID, Ent_ID_update), (''type'', Ent_Type, Ent_Type_update),
     (''name'', Ent_Name, Ent_Name_update), (''icon'', Icon, Icon_update),
     (''device_class'', DeviceClass, DeviceClass_update),
     (''state.type'', \<lambda>e. State_Type (State e), \<lambda>f. State_update (State_Type_update f)),
     (''state.gpio'', \<lambda>e. State_GPIO (State e), \<lambda>f. State_update (State_GPIO_update f)),
     (''source.type'', \<lambda>e. Source_Type (Source e), \<lambda>f. Source_update (Source_Type_update f)),
     (''source.gpio'', \<lambda>e. Source_GPIO (Source e), \<lambda>f. Source_update (Source_GPIO_update f))]"

definition action_head_fields :: "Action field list" where
  "action_head_fields =
    [(''type'', Act_Type, Act_Type_update), (''gpio'', Act_GPIO, Act_GPIO_update),
     (''command'', Command, Command_update)]"

definition action_dir_fields :: "Action field list" where
  "action_dir_fields = [(''working_dir'', WorkingDir, WorkingDir_update)]"

definition action_tail_fields :: "Action field list" where
  "action_tail_fields =
    [(''timeout'', Timeout, Timeout_update), (''duration'', Duration, Duration_update),
     (''topic'', Topic, Topic_update), (''payload'', Payload, Payload_update)]"

definition bind_result :: "'e + 'a \<Rightarrow> ('a \<Rightarrow> 'e + 'b) \<Rightarrow> 'e + 'b" where
  "bind_result r k = (case r of Inl e \<Rightarrow> Inl e | Inr x \<Rightarrow> k x)"

definition expandAction :: "lookupEnvFunc \<Rightarrow> seg list \<Rightarrow> Action \<Rightarrow> expand_error + Action" where
  "expandAction lookup path action =
     bind_result (expand_fields lookup path action_head_fields action) (\<lambda>a.
     bind_result (expand_list (\<lambda>i s. expandField (path @ [Txt ''args'', Idx i]) s lookup) 0 (Args a)) (\<lambda>xs.
     bind_result (expand_fields lookup path action_dir_fields (a\<lparr>Args := xs\<rparr>)) (\<lambda>a.
     bind_result (expand_keys (\<lambda>name v. expandField (path @ [Txt ''env'', Quoted name]) v lookup)
         (sortedKeys (Env a)) (Env a)) (\<lambda>m.
     expand_fields lookup path action_tail_fields (a\<lparr>Env := m\<rparr>)))))"

definition expand_actions :: "lookupEnvFunc \<Rightarrow> seg list \<Rightarrow> string \<Rightarrow> Action list \<Rightarrow> expand_error + Action list" where
  "expand_actions lookup prefix name actions =
     expand_list (\<lambda>j. expandAction lookup (prefix @ [Txt name, Idx j])) 0 actions"

definition expandEntity :: "lookupEnvFunc \<Rightarrow> nat \<Rightarrow> EntityConfig \<Rightarrow> expand_error + EntityConfig" where
  "expandEntity lookup i entity =
     (let prefix = [Txt ''entities'', Idx i] in
      bind_result (expand_fields lookup prefix entity_fields entity) (\<lambda>e.
      bind_result (expand_actions lookup prefix ''on'' (On e)) (\<lambda>xs.
      bind_result (expand_actions lookup prefix ''off'' (Off e)) (\<lambda>ys.
      bind_result (expand_actions lookup prefix ''press'' (Press e)) (\<lambda>zs.
      Inr (e\<lparr>On := xs, Off := ys, Press := zs\<rparr>))))))"

definition expandEnvironment :: "lookupEnvFunc \<Rightarrow> Config \<Rightarrow> expand_error + Config" where
  "expandEnvironment lookup c =
     bind_result (expand_fields lookup [] config_fields c) (\<lambda>c.
     bind_result (expand_keys (\<lambda>name. expand_fields lookup [Txt ''gpio.outputs'', Quoted name] output_fields)
         (sortedKeys (Outputs (GPIO c))) (Outputs (GPIO c))) (\<lambda>outs.
     bind_result (expand_keys (\<lambda>name. expand_fields lookup [Txt ''gpio.inputs'', Quoted name] input_fields)
         (sortedKeys (Inputs (GPIO c))) (Inputs (GPIO c))) (\<lambda>ins.
     bind_result (expand_list (expandEntity lookup) 0 (Entities c)) (\<lambda>es.
     Inr (c\<lparr>GPIO := (GPIO c)\<lparr>Outputs := outs, Inputs := ins\<rparr>, Entities := es\<rparr>)))))"

subsection \<open>Reference: scanning and rewriting\<close>

datatype token = Lit string | Ref string

text \<open>Cut a value into literals and references; an unterminated or misnamed reference is literal.\<close>

function scan :: "string \<Rightarrow> token list" where
  "scan s =
     (case s of
        [] \<Rightarrow> []
      | c # s1 \<Rightarrow>
          if c \<noteq> CHR ''$'' then Lit [c] # scan s1
          else (case s1 of
              [] \<Rightarrow> [Lit ''$'']
            | d # s2 \<Rightarrow>
                if d = CHR ''$'' then Lit ''$'' # scan s2
                else if d \<noteq> CHR ''{'' then Lit ''$'' # scan s1
                else (case IndexByte s2 (CHR ''}'') of
                    None \<Rightarrow> [Lit s]
                  | Some k \<Rightarrow>
                      (if validEnvironmentName (take k s2) then Ref (take k s2)
                       else Lit (''${'' @ take (Suc k) s2)) # scan (drop (Suc k) s2))))"
  by pat_completeness auto
termination
  by (relation "measure length") auto

declare scan.simps [simp del]

text \<open>Rendering stops at the first reference without a value.\<close>

fun render :: "lookupEnvFunc \<Rightarrow> token list \<Rightarrow> string + string" where
  "render lookup [] = Inr []"
| "render lookup (Lit s # ts) = map_sum id (\<lambda>r. s @ r) (render lookup ts)"
| "render lookup (Ref n # ts) =
     (case lookup n of None \<Rightarrow> Inl n | Some v \<Rightarrow> map_sum id (\<lambda>r. v @ r) (render lookup ts))"

definition go_pair :: "string + string \<Rightarrow> string \<times> string" where
  "go_pair r = (case r of Inl n \<Rightarrow> ([], n) | Inr s \<Rightarrow> (s, []))"

text \<open>Doubling every dollar sign, the documented way to write a literal one.\<close>

definition escape :: "string \<Rightarrow> string" where
  "escape s = concat (map (\<lambda>c. if c = CHR ''$'' then ''$$'' else [c]) s)"

subsection \<open>Reference: rewriting a whole configuration\<close>

definition map_action :: "(string \<Rightarrow> string) \<Rightarrow> Action \<Rightarrow> Action" where
  "map_action f a = a\<lparr>Act_Type := f (Act_Type a), Act_GPIO := f (Act_GPIO a), Command := f (Command a),
     Args := map f (Args a), WorkingDir := f (WorkingDir a), Env := map (\<lambda>(k, v). (k, f v)) (Env a),
     Timeout := f (Timeout a), Duration := f (Duration a), Topic := f (Topic a), Payload := f (Payload a)\<rparr>"

definition map_entity :: "(string \<Rightarrow> string) \<Rightarrow> EntityConfig \<Rightarrow> EntityConfig" where
  "map_entity f e = e\<lparr>Ent_ID := f (Ent_ID e), Ent_Type := f (Ent_Type e), Ent_Name := f (Ent_Name e),
     Icon := f (Icon e), DeviceClass := f (DeviceClass e),
     State := (State e)\<lparr>State_Type := f (State_Type (State e)), State_GPIO := f (State_GPIO (State e))\<rparr>,
     Source := (Source e)\<lparr>Source_Type := f (Source_Type (Source e)), Source_GPIO := f (Source_GPIO (Source e))\<rparr>,
     On := map (map_action f) (On e), Off := map (map_action f) (Off e), Press := map (map_action f) (Press e)\<rparr>"

definition map_output :: "(string \<Rightarrow> string) \<Rightarrow> GPIOOutputConfig \<Rightarrow> GPIOOutputConfig" where
  "map_output f x = x\<lparr>Out_Chip := f (Out_Chip x)\<rparr>"

definition map_input :: "(string \<Rightarrow> string) \<Rightarrow> GPIOInputConfig \<Rightarrow> GPIOInputConfig" where
  "map_input f x = x\<lparr>In_Chip := f (In_Chip x), Bias := f (Bias x), Debounce := f (Debounce x)\<rparr>"

definition map_top :: "(string \<Rightarrow> string) \<Rightarrow> Config \<Rightarrow> Config" where
  "map_top f c =
     (let m = MQTT c; t = TLS m; d = Discovery m; dev = Device c in
      c\<lparr>MQTT := m\<lparr>Broker := f (Broker m), Username := f (Username m), Password := f (Password m),
          PasswordFile := f (PasswordFile m),
          TLS := t\<lparr>CAFile := f (CAFile t), CertFile := f (CertFile t), KeyFile := f (KeyFile t),
            ServerName := f (ServerName t), MinVersion := f (MinVersion t)\<rparr>,
          ClientID := f (ClientID m), BaseTopic := f (BaseTopic m), KeepAlive := f (KeepAlive m),
          ConnectTimeout := f (ConnectTimeout m),
          Discovery := d\<lparr>Disc_Prefix := f (Disc_Prefix d), StateFile := f (StateFile d)\<rparr>\<rparr>,
        Device := dev\<lparr>Dev_ID := f (Dev_ID dev), Dev_Name := f (Dev_Name dev),
          Manufacturer := f (Manufacturer dev), Model := f (Model dev)\<rparr>\<rparr>)"

definition map_config :: "(string \<Rightarrow> string) \<Rightarrow> Config \<Rightarrow> Config" where
  "map_config f c = (map_top f c)\<lparr>
     GPIO := (GPIO c)\<lparr>Outputs := map (\<lambda>(k, x). (k, map_output f x)) (Outputs (GPIO c)),
                     Inputs := map (\<lambda>(k, x). (k, map_input f x)) (Inputs (GPIO c))\<rparr>,
     Entities := map (map_entity f) (Entities c)\<rparr>"

text \<open>The strings those functions rewrite.\<close>

definition field_strings :: "'r field list \<Rightarrow> 'r \<Rightarrow> string list" where
  "field_strings flds r = map (\<lambda>(name, get, upd). get r) flds"

definition action_strings :: "Action \<Rightarrow> string list" where
  "action_strings a = field_strings action_head_fields a @ Args a @ field_strings action_dir_fields a
     @ map snd (Env a) @ field_strings action_tail_fields a"

definition entity_strings :: "EntityConfig \<Rightarrow> string list" where
  "entity_strings e = field_strings entity_fields e @ concat (map action_strings (On e @ Off e @ Press e))"

definition config_strings :: "Config \<Rightarrow> string list" where
  "config_strings c = field_strings config_fields c
     @ concat (map (field_strings output_fields \<circ> snd) (Outputs (GPIO c)))
     @ concat (map (field_strings input_fields \<circ> snd) (Inputs (GPIO c)))
     @ concat (map entity_strings (Entities c))"

definition wf_action_maps :: "Action \<Rightarrow> bool" where
  "wf_action_maps a \<longleftrightarrow> wf_map (Env a)"

definition wf_entity_maps :: "EntityConfig \<Rightarrow> bool" where
  "wf_entity_maps e \<longleftrightarrow> list_all wf_action_maps (On e @ Off e @ Press e)"

definition wf_config_maps :: "Config \<Rightarrow> bool" where
  "wf_config_maps c \<longleftrightarrow> wf_map (Outputs (GPIO c)) \<and> wf_map (Inputs (GPIO c)) \<and> list_all wf_entity_maps (Entities c)"

text \<open>
  The contract of every expansion step: when all its strings can be resolved it rewrites them as
  \<open>G\<close> does; otherwise it reports a variable that has no value.
\<close>

definition resolves :: "lookupEnvFunc \<Rightarrow> string \<Rightarrow> bool" where
  "resolves lookup s \<longleftrightarrow> snd (expandValue s lookup) = []"

definition resolved :: "lookupEnvFunc \<Rightarrow> string \<Rightarrow> string" where
  "resolved lookup s = fst (expandValue s lookup)"

definition meets :: "lookupEnvFunc \<Rightarrow> expand_error + 'r \<Rightarrow> 'r \<Rightarrow> string list \<Rightarrow> bool" where
  "meets lookup res r' strs \<longleftrightarrow>
     (if list_all (resolves lookup) strs then res = Inr r'
      else \<exists>path n. res = Inl (MissingVariable path n) \<and> lookup n = None \<and> validEnvironmentName n)"

section \<open>Lemmas\<close>

subsection \<open>The loop computes the scanner's result\<close>

lemma IndexByte_Some_less: "IndexByte s c = Some k \<Longrightarrow> k < length s"
  by (induction s arbitrary: k) (auto split: if_splits)

lemma scan_Nil [simp]: "scan [] = []"
  by (simp add: scan.simps)

lemma scan_lit: "c \<noteq> CHR ''$'' \<Longrightarrow> scan (c # s) = Lit [c] # scan s"
  by (subst scan.simps) simp

lemma scan_end [simp]: "scan [CHR ''$''] = [Lit ''$'']"
  by (subst scan.simps) simp

lemma scan_esc [simp]: "scan (CHR ''$'' # CHR ''$'' # s) = Lit ''$'' # scan s"
  by (subst scan.simps) simp

lemma scan_dollar:
  "d \<noteq> CHR ''$'' \<Longrightarrow> d \<noteq> CHR ''{'' \<Longrightarrow> scan (CHR ''$'' # d # s) = Lit ''$'' # scan (d # s)"
  by (subst scan.simps) simp

lemma scan_unterminated:
  "IndexByte s (CHR ''}'') = None \<Longrightarrow> scan (CHR ''$'' # CHR ''{'' # s) = [Lit (CHR ''$'' # CHR ''{'' # s)]"
  by (subst scan.simps) simp

lemma scan_ref:
  "IndexByte s (CHR ''}'') = Some k \<Longrightarrow> scan (CHR ''$'' # CHR ''{'' # s) =
     (if validEnvironmentName (take k s) then Ref (take k s) else Lit (''${'' @ take (Suc k) s))
       # scan (drop (Suc k) s)"
  by (subst scan.simps) simp

lemmas scan_rules = scan_lit scan_dollar scan_unterminated scan_ref

lemma map_sum_append_append:
  "map_sum id (\<lambda>r. a @ r) (map_sum id (\<lambda>r. b @ r) x) = map_sum id (\<lambda>r. (a @ b) @ r) x"
  by (cases x) auto

lemma map_sum_snd_id [simp]: "map_sum id (\<lambda>r. r) (x :: 'a + 'b) = x"
  by (cases x) auto

lemma drop_one: "i < length s \<Longrightarrow> drop i s = s ! i # drop (Suc i) s"
  by (rule Cons_nth_drop_Suc [symmetric])

lemma drop_two: "Suc i < length s \<Longrightarrow> drop i s = s ! i # s ! Suc i # drop (Suc (Suc i)) s"
  by (simp add: drop_one [of i] drop_one [of "Suc i"])

text \<open>The branches of one iteration of the loop.\<close>

lemma loop_stop: "\<not> i < length v \<Longrightarrow> expand_loop lookup v i acc = (acc, [])"
  by (subst expand_loop.simps) simp

lemma loop_lit:
  "i < length v \<Longrightarrow> v ! i \<noteq> CHR ''$'' \<Longrightarrow>
     expand_loop lookup v i acc = expand_loop lookup v (Suc i) (acc @ [v ! i])"
  by (subst expand_loop.simps) simp

lemma loop_esc:
  "Suc i < length v \<Longrightarrow> v ! i = CHR ''$'' \<Longrightarrow> v ! Suc i = CHR ''$'' \<Longrightarrow>
     expand_loop lookup v i acc = expand_loop lookup v (Suc (Suc i)) (acc @ ''$'')"
  by (subst expand_loop.simps) simp

lemma loop_dollar:
  "i < length v \<Longrightarrow> v ! i = CHR ''$'' \<Longrightarrow> Suc i < length v \<longrightarrow> v ! Suc i \<notin> {CHR ''$'', CHR ''{''} \<Longrightarrow>
     expand_loop lookup v i acc = expand_loop lookup v (Suc i) (acc @ ''$'')"
  by (subst expand_loop.simps) auto

lemma loop_open:
  "Suc i < length v \<Longrightarrow> v ! i = CHR ''$'' \<Longrightarrow> v ! Suc i = CHR ''{'' \<Longrightarrow>
     expand_loop lookup v i acc =
       (case IndexByte (drop (Suc (Suc i)) v) (CHR ''}'') of
          None \<Rightarrow> (acc @ drop i v, [])
        | Some k \<Rightarrow>
            (if \<not> validEnvironmentName (take k (drop (Suc (Suc i)) v))
             then expand_loop lookup v (Suc (Suc (Suc (i + k)))) (acc @ ''${'' @ take (Suc k) (drop (Suc (Suc i)) v))
             else (case lookup (take k (drop (Suc (Suc i)) v)) of
                 None \<Rightarrow> ([], take k (drop (Suc (Suc i)) v))
               | Some x \<Rightarrow> expand_loop lookup v (Suc (Suc (Suc (i + k)))) (acc @ x))))"
  by (subst expand_loop.simps) (simp add: Let_def drop_two Suc_diff_le split: option.split)

lemma expand_loop_scan:
  "expand_loop lookup v i acc = go_pair (map_sum id (\<lambda>r. acc @ r) (render lookup (scan (drop i v))))"
proof (induction "length v - i" arbitrary: i acc rule: less_induct)
  case less
  have IH: "expand_loop lookup v j acc' = go_pair (map_sum id (\<lambda>r. acc' @ r) (render lookup (scan (drop j v))))"
    if "i < length v" "i < j" for j acc'
    using less that by simp
  consider (stop) "\<not> i < length v"
    | (lit) "i < length v" "v ! i \<noteq> CHR ''$''"
    | (esc) "Suc i < length v" "v ! i = CHR ''$''" "v ! Suc i = CHR ''$''"
    | (fin) "Suc i = length v" "v ! i = CHR ''$''"
    | (dol) "Suc i < length v" "v ! i = CHR ''$''" "v ! Suc i \<notin> {CHR ''$'', CHR ''{''}"
    | (ref) "Suc i < length v" "v ! i = CHR ''$''" "v ! Suc i = CHR ''{''"
    by fastforce
  then show ?case
  proof cases
    case stop
    then show ?thesis by (simp add: loop_stop go_pair_def)
  next
    case lit
    then show ?thesis by (simp add: loop_lit IH drop_one [of i] scan_lit map_sum_append_append)
  next
    case esc
    then show ?thesis by (simp add: loop_esc IH drop_two map_sum_append_append)
  next
    case fin
    then show ?thesis by (simp add: loop_dollar loop_stop drop_one [of i] go_pair_def)
  next
    case dol
    then show ?thesis
      using drop_one [of "Suc i" v] by (simp add: loop_dollar IH drop_two scan_dollar map_sum_append_append)
  next
    case ref
    then show ?thesis
      by (simp add: loop_open drop_two IH scan_unterminated scan_ref map_sum_append_append go_pair_def
          add.commute split: option.split)
  qed
qed

lemma expandValue_scan: "expandValue v lookup = go_pair (render lookup (scan v))"
  by (simp add: expandValue_def expand_loop_scan)

lemma scan_cases:
  obtains (Nil) "s = []"
    | (lit) c r where "s = c # r" "c \<noteq> CHR ''$''"
    | (fin) "s = ''$''"
    | (esc) r where "s = CHR ''$'' # CHR ''$'' # r"
    | (dollar) d r where "s = CHR ''$'' # d # r" "d \<noteq> CHR ''$''" "d \<noteq> CHR ''{''"
    | (unterminated) r where "s = CHR ''$'' # CHR ''{'' # r" "IndexByte r (CHR ''}'') = None"
    | (ref) r k where "s = CHR ''$'' # CHR ''{'' # r" "IndexByte r (CHR ''}'') = Some k"
  by (metis list.exhaust option.exhaust)

lemma scan_refs: "Ref n \<in> set (scan s) \<Longrightarrow> validEnvironmentName n"
proof (induction s rule: measure_induct_rule [of length])
  case (less s)
  have IH: "Ref n \<in> set (scan r) \<Longrightarrow> length r < length s \<Longrightarrow> validEnvironmentName n" for r
    by (rule less.IH)
  show ?case
    using less.prems
    by (cases s rule: scan_cases) (auto simp: scan_rules split: if_splits dest!: IH)
qed

lemma render_missing_ref: "render lookup ts = Inl n \<Longrightarrow> lookup n = None \<and> Ref n \<in> set ts"
  by (induction lookup ts rule: render.induct) (auto simp: map_sum_def split: option.splits sum.splits)

lemma render_missing: "render lookup (scan v) = Inl n \<Longrightarrow> lookup n = None \<and> validEnvironmentName n"
  using render_missing_ref scan_refs by blast

lemma validEnvironmentName_not_Nil [simp]: "\<not> validEnvironmentName []"
  by (simp add: validEnvironmentName_def)

subsection \<open>The contract of the expansion steps\<close>

lemma expandField_meets: "meets lookup (expandField path s lookup) (resolved lookup s) [s]"
proof (cases "render lookup (scan s)")
  case (Inl n)
  then show ?thesis
    using render_missing [OF Inl]
    by (auto simp: meets_def expandField_def resolves_def expandValue_scan go_pair_def)
next
  case (Inr r)
  then show ?thesis
    by (simp add: meets_def expandField_def resolves_def resolved_def expandValue_scan go_pair_def)
qed

lemma meets_cases:
  assumes "meets lookup res r' strs"
  obtains (ok) "list_all (resolves lookup) strs" "res = Inr r'"
    | (missing) path n where "\<not> list_all (resolves lookup) strs" "res = Inl (MissingVariable path n)"
        "lookup n = None" "validEnvironmentName n"
  using assms by (auto simp: meets_def split: if_splits)

lemma meets_ok: "list_all (resolves lookup) strs \<Longrightarrow> meets lookup res r' strs \<Longrightarrow> res = Inr r'"
  by (simp add: meets_def)

lemma meets_Nil [simp]: "meets lookup (Inr r) r' [] \<longleftrightarrow> r = r'"
  by (simp add: meets_def)

lemma meets_bind:
  assumes "meets lookup res r1 s1" and "meets lookup (k r1) r2 s2" and "strs = s1 @ s2"
  shows "meets lookup (bind_result res k) r2 strs"
  using assms(1)
  by (cases rule: meets_cases) (use assms(2,3) in \<open>auto simp: meets_def bind_result_def\<close>)

lemma meets_Inr: "r = r' \<Longrightarrow> strs = [] \<Longrightarrow> meets lookup (Inr r) r' strs"
  by simp

text \<open>Tables of fields: no update of one field changes a later one.\<close>

primrec wf_fields :: "'r field list \<Rightarrow> bool" where
  "wf_fields [] \<longleftrightarrow> True"
| "wf_fields (fld # flds) \<longleftrightarrow>
     (\<forall>h r. list_all (\<lambda>(_, get, _). get (snd (snd fld) h r) = get r) flds) \<and> wf_fields flds"

primrec map_fields :: "(string \<Rightarrow> string) \<Rightarrow> 'r field list \<Rightarrow> 'r \<Rightarrow> 'r" where
  "map_fields f [] r = r"
| "map_fields f (fld # flds) r = (let (_, get, upd) = fld in map_fields f flds (upd (\<lambda>_. f (get r)) r))"

lemma expand_fields_meets:
  "wf_fields flds \<Longrightarrow> meets lookup (expand_fields lookup path flds r)
     (map_fields (resolved lookup) flds r) (field_strings flds r)"
proof (induction flds arbitrary: r)
  case Nil
  then show ?case by (simp add: field_strings_def)
next
  case (Cons fld flds)
  obtain name get upd where fld: "fld = (name, get, upd)" by (cases fld)
  let ?r = "upd (\<lambda>_. resolved lookup (get r)) r"
  have "field_strings flds ?r = field_strings flds r"
    using Cons.prems by (fastforce simp: field_strings_def fld list_all_iff)
  then have "meets lookup (bind_result (expandField (path @ [Txt name]) (get r) lookup)
      (\<lambda>s. expand_fields lookup path flds (upd (\<lambda>_. s) r))) (map_fields (resolved lookup) flds ?r)
      ([get r] @ field_strings flds r)"
    using Cons.IH [of ?r] Cons.prems by (intro meets_bind [OF expandField_meets]) auto
  then show ?case
    by (simp add: fld field_strings_def bind_result_def)
qed

lemma expand_list_meets:
  "(\<And>i x. x \<in> set xs \<Longrightarrow> meets lookup (f i x) (g x) (strs x)) \<Longrightarrow>
     meets lookup (expand_list f i xs) (map g xs) (concat (map strs xs))"
proof (induction xs arbitrary: i)
  case (Cons x xs)
  have "meets lookup (bind_result (f i x) (\<lambda>y. bind_result (expand_list f (Suc i) xs) (\<lambda>ys. Inr (y # ys))))
      (g x # map g xs) (strs x @ concat (map strs xs) @ [])"
    by (rule meets_bind [OF Cons.prems _ refl], simp)
      (rule meets_bind [OF Cons.IH meets_Inr], use Cons.prems in auto)
  then show ?case by (simp add: bind_result_def)
qed simp

lemma meets_same_strings: "set strs = set strs' \<Longrightarrow> meets lookup res r strs \<Longrightarrow> meets lookup res r strs'"
  by (simp add: meets_def list_all_iff)

lemma map_put_present:
  assumes "wf_map m" and "map_of m k = Some v" and "k \<notin> set ks"
  shows "map (\<lambda>(k', u). (k', if k' \<in> set ks then g u else u)) (put k (g v) m) =
         map (\<lambda>(k', u). (k', if k' \<in> set (k # ks) then g u else u)) m"
proof -
  have "u = v" if "(k, u) \<in> set m" for u
    using wf_map_of [OF assms(1) that] assms(2) by simp
  then show ?thesis using assms(2,3) by (auto simp: put_def)
qed

lemma expand_keys_meets:
  assumes "wf_map m" and "distinct ks" and "set ks \<subseteq> dom (map_of m)"
    and "\<And>k v. meets lookup (f k v) (g v) (strs v)"
  shows "meets lookup (expand_keys f ks m) (map (\<lambda>(k, v). (k, if k \<in> set ks then g v else v)) m)
    (concat (map (\<lambda>k. strs (the (map_of m k))) ks))"
  using assms(1-3)
proof (induction ks arbitrary: m)
  case Nil
  then show ?case by (simp add: case_prod_beta')
next
  case (Cons k ks)
  then obtain v where v: "map_of m k = Some v" by auto
  let ?m = "put k (g v) m"
  have "meets lookup (expand_keys f ks ?m) (map (\<lambda>(k, v). (k, if k \<in> set ks then g v else v)) ?m)
      (concat (map (\<lambda>k. strs (the (map_of ?m k))) ks))"
    using Cons.prems by (intro Cons.IH) (auto intro: inv_intros)
  moreover have "concat (map (\<lambda>k. strs (the (map_of ?m k))) ks) = concat (map (\<lambda>k. strs (the (map_of m k))) ks)"
    using Cons.prems by (intro arg_cong [where f = concat] map_cong) auto
  ultimately have "meets lookup (bind_result (f k v) (\<lambda>v'. expand_keys f ks (put k v' m)))
      (map (\<lambda>(k', u). (k', if k' \<in> set (k # ks) then g u else u)) m)
      (strs v @ concat (map (\<lambda>k. strs (the (map_of m k))) ks))"
    using Cons.prems map_put_present [OF Cons.prems(1) v, of ks g]
    by (intro meets_bind [OF assms(4)]) auto
  then show ?case by (simp add: v bind_result_def)
qed

lemma expand_sorted_meets:
  assumes "wf_map m" and "\<And>k v. meets lookup (f k v) (g v) (strs v)"
  shows "meets lookup (expand_keys f (sortedKeys m) m) (map (\<lambda>(k, v). (k, g v)) m)
    (concat (map (strs \<circ> snd) m))"
proof -
  have ks: "distinct (sortedKeys m)" "set (sortedKeys m) = fst ` set m"
    using assms(1) by (auto simp: sortedKeys_def wf_map_def)
  have vals: "strs (the (map_of m (fst p))) = strs (snd p)" if "p \<in> set m" for p
    using wf_map_of [OF assms(1), of "fst p" "snd p"] that by simp
  have res: "map (\<lambda>(k, v). (k, if k \<in> set (sortedKeys m) then g v else v)) m = map (\<lambda>(k, v). (k, g v)) m"
    using ks(2) by (auto simp: image_iff) force
  have "meets lookup (expand_keys f (sortedKeys m) m)
      (map (\<lambda>(k, v). (k, if k \<in> set (sortedKeys m) then g v else v)) m)
      (concat (map (\<lambda>k. strs (the (map_of m k))) (sortedKeys m)))"
    using ks assms(2) by (intro expand_keys_meets [OF assms(1)]) (auto simp: dom_map_of_conv_image_fst)
  then show ?thesis
    unfolding res by (rule meets_same_strings [rotated]) (auto simp: ks(2) vals)
qed

lemmas field_tables = config_fields_def output_fields_def input_fields_def entity_fields_def
  action_head_fields_def action_dir_fields_def action_tail_fields_def

lemma wf_small_tables [simp]:
  "wf_fields output_fields" "wf_fields input_fields" "wf_fields entity_fields"
  "wf_fields action_head_fields" "wf_fields action_dir_fields" "wf_fields action_tail_fields"
  by (simp_all add: output_fields_def input_fields_def entity_fields_def
      action_head_fields_def action_dir_fields_def action_tail_fields_def)

lemma wf_config_fields [simp]: "wf_fields config_fields"
  unfolding config_fields_def wf_fields.simps list.pred_inject prod.case snd_conv
  by (intro conjI allI TrueI) simp_all

text \<open>With disjoint fields every new value can be read off the original record.\<close>

lemma map_fields_original:
  "wf_fields flds \<Longrightarrow> list_all (\<lambda>(_, get, _). get r = get r0) flds \<Longrightarrow>
     map_fields f flds r = foldl (\<lambda>r (_, get, upd). upd (\<lambda>_. f (get r0)) r) r flds"
proof (induction flds arbitrary: r)
  case (Cons fld flds)
  obtain name get upd where fld: "fld = (name, get, upd)" by (cases fld)
  have "list_all (\<lambda>(_, get', _). get' (upd (\<lambda>_. f (get r0)) r) = get' r) flds"
    using Cons.prems(1) by (simp add: fld)
  moreover have "list_all (\<lambda>(_, get', _). get' r = get' r0) flds"
    using Cons.prems(2) by simp
  ultimately have "list_all (\<lambda>(_, get', _). get' (upd (\<lambda>_. f (get r0)) r) = get' r0) flds"
    unfolding list_all_iff by fastforce
  with Cons show ?case by (simp add: fld)
qed simp

lemma map_config_fields: "map_fields f config_fields c = map_top f c"
proof -
  have "list_all (\<lambda>(_, get, _). get c = get c) config_fields"
    by (simp add: list_all_iff)
  then have "map_fields f config_fields c =
      foldl (\<lambda>r (_, get, upd). upd (\<lambda>_. f (get c)) r) c config_fields"
    by (rule map_fields_original [OF wf_config_fields])
  also have "\<dots> = map_top f c"
    unfolding config_fields_def foldl.simps prod.case map_top_def Let_def by simp
  finally show ?thesis .
qed

lemma map_io_fields:
  "map_fields f output_fields out = map_output f out" "map_fields f input_fields inp = map_input f inp"
  by (simp_all add: output_fields_def input_fields_def map_output_def map_input_def)

lemma expandAction_meets:
  assumes "wf_action_maps a"
  shows "meets lookup (expandAction lookup path a) (map_action (resolved lookup) a) (action_strings a)"
proof -
  let ?f = "resolved lookup"
  define a1 where "a1 = map_fields ?f action_head_fields a"
  define a2 where "a2 = map_fields ?f action_dir_fields (a1\<lparr>Args := map ?f (Args a)\<rparr>)"
  define a3 where "a3 = a2\<lparr>Env := map (\<lambda>(k, v). (k, ?f v)) (Env a)\<rparr>"
  note defs = a1_def a2_def a3_def field_tables field_strings_def
  have eqs: "Args a1 = Args a" "Env a2 = Env a"
    "field_strings action_dir_fields (a1\<lparr>Args := map ?f (Args a)\<rparr>) = field_strings action_dir_fields a"
    "field_strings action_tail_fields a3 = field_strings action_tail_fields a"
    "map_fields ?f action_tail_fields a3 = map_action ?f a"
    by (simp_all add: defs map_action_def)
  have args: "meets lookup (expand_list (\<lambda>i s. expandField (path @ [Txt ''args'', Idx i]) s lookup) 0 (Args a1))
      (map ?f (Args a)) (Args a)"
    using expand_list_meets [where xs = "Args a" and strs = "\<lambda>s. [s]", OF expandField_meets] by (simp add: eqs)
  have envs: "meets lookup (expand_keys (\<lambda>name v. expandField (path @ [Txt ''env'', Quoted name]) v lookup)
      (sortedKeys (Env a2)) (Env a2)) (map (\<lambda>(k, v). (k, ?f v)) (Env a)) (map snd (Env a))"
    using expand_sorted_meets [where strs = "\<lambda>s. [s]", OF _ expandField_meets, of "Env a"] assms
    by (simp add: eqs wf_action_maps_def comp_def)
  have tail: "meets lookup (expand_fields lookup path action_tail_fields a3) (map_action ?f a)
      (field_strings action_tail_fields a)"
    using expand_fields_meets [of action_tail_fields lookup path a3] by (simp add: eqs)
  have dir: "meets lookup (expand_fields lookup path action_dir_fields (a1\<lparr>Args := map ?f (Args a)\<rparr>)) a2
      (field_strings action_dir_fields a)"
    using expand_fields_meets [of action_dir_fields lookup path "a1\<lparr>Args := map ?f (Args a)\<rparr>"]
    by (simp only: eqs a2_def wf_small_tables)
  have head: "meets lookup (expand_fields lookup path action_head_fields a) a1 (field_strings action_head_fields a)"
    unfolding a1_def by (rule expand_fields_meets) simp
  show ?thesis
    unfolding expandAction_def action_strings_def
    by (rule meets_bind [OF head _ refl], rule meets_bind [OF args _ refl],
        rule meets_bind [OF dir _ refl], rule meets_bind [OF envs _ refl], fold a3_def, rule tail)
qed

lemma expand_actions_meets:
  assumes "list_all wf_action_maps as"
  shows "meets lookup (expand_actions lookup prefix name as) (map (map_action (resolved lookup)) as)
    (concat (map action_strings as))"
  unfolding expand_actions_def
  using assms by (intro expand_list_meets expandAction_meets) (auto simp: list_all_iff)

lemma expandEntity_meets:
  assumes "wf_entity_maps e"
  shows "meets lookup (expandEntity lookup i e) (map_entity (resolved lookup) e) (entity_strings e)"
proof -
  let ?f = "resolved lookup" and ?p = "[Txt ''entities'', Idx i]"
  define e1 where "e1 = map_fields ?f entity_fields e"
  have acts: "On e1 = On e" "Off e1 = Off e" "Press e1 = Press e"
    by (simp_all add: e1_def entity_fields_def)
  have res: "e1\<lparr>On := map (map_action ?f) (On e), Off := map (map_action ?f) (Off e),
      Press := map (map_action ?f) (Press e)\<rparr> = map_entity ?f e"
    by (simp add: e1_def entity_fields_def map_entity_def)
  have head: "meets lookup (expand_fields lookup ?p entity_fields e) e1 (field_strings entity_fields e)"
    unfolding e1_def by (rule expand_fields_meets) simp
  have acts_meet: "meets lookup (expand_actions lookup ?p nm as) (map (map_action ?f) as) (concat (map action_strings as))"
    if "as \<in> {On e, Off e, Press e}" for nm as
    using assms that by (intro expand_actions_meets) (auto simp: wf_entity_maps_def)
  have "meets lookup (expandEntity lookup i e) (map_entity ?f e)
    (field_strings entity_fields e @ concat (map action_strings (On e)) @ concat (map action_strings (Off e))
      @ concat (map action_strings (Press e)) @ [])"
    unfolding expandEntity_def Let_def
    by (rule meets_bind [OF head _ refl], unfold acts, rule meets_bind [OF acts_meet _ refl], simp,
        rule meets_bind [OF acts_meet _ refl], simp, rule meets_bind [OF acts_meet _ refl], simp,
        rule meets_Inr [OF res refl])
  then show ?thesis by (simp add: entity_strings_def)
qed

lemma expandEnvironment_meets:
  assumes "wf_config_maps c"
  shows "meets lookup (expandEnvironment lookup c) (map_config (resolved lookup) c) (config_strings c)"
proof -
  let ?f = "resolved lookup"
  define c1 where "c1 = map_top ?f c"
  have rest: "GPIO c1 = GPIO c" "Entities c1 = Entities c"
    by (simp_all add: c1_def map_top_def Let_def)
  have head: "meets lookup (expand_fields lookup [] config_fields c) c1 (field_strings config_fields c)"
    unfolding c1_def map_config_fields [symmetric] by (rule expand_fields_meets) simp
  have outs: "meets lookup (expand_keys (\<lambda>name. expand_fields lookup [Txt ''gpio.outputs'', Quoted name] output_fields)
      (sortedKeys (Outputs (GPIO c))) (Outputs (GPIO c))) (map (\<lambda>(k, x). (k, map_output ?f x)) (Outputs (GPIO c)))
      (concat (map (field_strings output_fields \<circ> snd) (Outputs (GPIO c))))"
    using assms unfolding map_io_fields [symmetric]
    by (intro expand_sorted_meets expand_fields_meets) (auto simp: wf_config_maps_def)
  have ins: "meets lookup (expand_keys (\<lambda>name. expand_fields lookup [Txt ''gpio.inputs'', Quoted name] input_fields)
      (sortedKeys (Inputs (GPIO c))) (Inputs (GPIO c))) (map (\<lambda>(k, x). (k, map_input ?f x)) (Inputs (GPIO c)))
      (concat (map (field_strings input_fields \<circ> snd) (Inputs (GPIO c))))"
    using assms unfolding map_io_fields [symmetric]
    by (intro expand_sorted_meets expand_fields_meets) (auto simp: wf_config_maps_def)
  have ents: "meets lookup (expand_list (expandEntity lookup) 0 (Entities c)) (map (map_entity ?f) (Entities c))
      (concat (map entity_strings (Entities c)))"
    using assms by (intro expand_list_meets expandEntity_meets) (auto simp: wf_config_maps_def list_all_iff)
  have "meets lookup (expandEnvironment lookup c) (map_config ?f c)
    (field_strings config_fields c @ concat (map (field_strings output_fields \<circ> snd) (Outputs (GPIO c)))
     @ concat (map (field_strings input_fields \<circ> snd) (Inputs (GPIO c)))
     @ concat (map entity_strings (Entities c)) @ [])"
    unfolding expandEnvironment_def
    by (rule meets_bind [OF head _ refl], unfold rest, rule meets_bind [OF outs _ refl],
        rule meets_bind [OF ins _ refl], rule meets_bind [OF ents _ refl], rule meets_Inr [OF _ refl])
      (simp add: c1_def map_config_def)
  then show ?thesis by (simp add: config_strings_def)
qed

end
