(* ===== verification/Validation.thy ===== *)
theory Validation
  imports Expansion
begin

unbundle bit_operations_syntax

section \<open>Configuration validation (config/validation.go, config.go's load)\<close>

text \<open>
  Every validation function of the source, with one error value per error message. The two
  regular expressions are translated as regular expressions and matched by derivatives; the
  functions that read files take the file system as an argument (\<open>hostfs\<close>), and those that
  parse URLs, addresses, durations or certificates the \<open>stdlib\<close> parameter.

  The lemmas characterise the functions: the language of the patterns, the declarative meaning of
  a configuration that passes (distinct entity IDs, every line declared once, every action
  executable), and that the verdict on the GPIO section does not depend on the iteration order of
  the Go maps.
\<close>

subsection \<open>Regular expressions\<close>

datatype rx = RNone | REps | RClass "char list" | RCat rx rx | RAlt rx rx | RStar rx

primrec nullable :: "rx \<Rightarrow> bool" where
  "nullable RNone = False"
| "nullable REps = True"
| "nullable (RClass cs) = False"
| "nullable (RCat r s) = (nullable r \<and> nullable s)"
| "nullable (RAlt r s) = (nullable r \<or> nullable s)"
| "nullable (RStar r) = True"

primrec deriv :: "char \<Rightarrow> rx \<Rightarrow> rx" where
  "deriv c RNone = RNone"
| "deriv c REps = RNone"
| "deriv c (RClass cs) = (if List.member cs c then REps else RNone)"
| "deriv c (RCat r s) =
     (if nullable r then RAlt (RCat (deriv c r) s) (deriv c s) else RCat (deriv c r) s)"
| "deriv c (RAlt r s) = RAlt (deriv c r) (deriv c s)"
| "deriv c (RStar r) = RCat (deriv c r) (RStar r)"

text \<open>\<open>MatchString\<close> of a pattern anchored at both ends.\<close>

definition MatchString :: "rx \<Rightarrow> string \<Rightarrow> bool" where
  "MatchString r s = nullable (fold deriv s r)"

definition lower_letters :: string where
  "lower_letters = ''abcdefghijklmnopqrstuvwxyz''"

definition upper_letters :: string where
  "upper_letters = ''ABCDEFGHIJKLMNOPQRSTUVWXYZ''"

definition digits :: string where
  "digits = ''0123456789''"

definition idPattern :: rx where
  "idPattern = RCat (RClass (lower_letters @ digits)) (RStar (RClass (lower_letters @ digits @ ''_-'')))"

definition envNamePattern :: rx where
  "envNamePattern = RCat (RClass (upper_letters @ lower_letters @ ''_''))
     (RStar (RClass (upper_letters @ lower_letters @ digits @ ''_'')))"

subsection \<open>Errors and files\<close>

datatype file_error = FOpen string | FStat string | FNotRegular | FPermissions | FTooBig int | FRead string

datatype broker_error =
    EBrokerRequired | EBrokerURL | EBrokerUser | EBrokerQuery | EUnixPath | EHostPort | EPort
  | EWebsocketPath | EPath | EPlaintext | EScheme

datatype auth_error =
    EPasswordTwice | EUsernamePassword | ECertKey | ECertScheme | ETLSScheme | EUnauthenticated | EAuthRequired
  | EPasswordFile file_error | EPasswordEmpty | EPasswordNUL

datatype tls_error =
    EMinVersion | EServerName | ECAFile file_error | ECACerts | ECertFile file_error | EKeyFile file_error | EKeyPair

datatype gpio_error =
    EOutputKey string | EOutputLine string | EInputKey string | EInputLine string | EInputBias string
  | ELineTwice string string string

datatype entity_error =
    ENoEntities | EEntityID nat string | EDuplicateEntity string | EEntityName string | EEntityType string string
  | EStateRequired string | EStateMemoryGPIO string | EStateOutput string string | EStateType string string
  | ENoOn string | ENoOff string | ENoPress string | ESourceType string | ESourceInput string string

datatype action_error =
    EActionOutput string string | EActionValue string | EActionDuration string | EActionQoS string
  | EActionType string string | ECommandRequired string | ECommandNUL string | ECommandAbs string
  | ECommandStat string string | ECommandFile string | EArgumentNUL string nat | EDirNUL string | EDirAbs string
  | EDirStat string string | EDirFile string | EEnvName string string | EEnvNUL string string

datatype validation_error =
    VBroker broker_error | VAuth auth_error | VTLS tls_error | VGpio gpio_error | VEntity entity_error
  | VAction action_error
  | EDeviceID string | EDeviceName | EClientID | EStateFile | EQoS
  | ETopicEmpty string | ETopicWildcard string | ETopicRequired string
  | EDuration string string | EDurationPositive string

record opened_file =
  of_stat :: "string + file_info"
  of_read :: "string + bytes"

record hostfs =
  os_Open :: "string \<Rightarrow> string + opened_file"
  os_Stat :: "string \<Rightarrow> string + file_info"

definition Perm :: "file_info \<Rightarrow> u32" where
  "Perm info = fi_mode info AND 0x1FF"

definition set_bits :: u32 where
  "set_bits = 0x800000 OR 0x400000 OR 0x100000"

definition IsRegular :: "file_info \<Rightarrow> bool" where
  "IsRegular info \<longleftrightarrow> fi_kind info = Regular"

definition readBoundedRegularFile :: "hostfs \<Rightarrow> string \<Rightarrow> int \<Rightarrow> bool \<Rightarrow> file_error + bytes" where
  "readBoundedRegularFile H path limit restrictive =
     (case os_Open H path of
        Inl e \<Rightarrow> Inl (FOpen e)
      | Inr f \<Rightarrow>
          (case of_stat f of
             Inl e \<Rightarrow> Inl (FStat e)
           | Inr info \<Rightarrow>
               if \<not> IsRegular info then Inl FNotRegular
               else if restrictive \<and> (Perm info \<noteq> 0x100 \<and> Perm info \<noteq> 0x180 \<and> Perm info \<noteq> 0x1A0
                      \<or> fi_mode info AND set_bits \<noteq> 0) then Inl FPermissions
               else if fi_size info > limit then Inl (FTooBig limit)
               else (case of_read f of
                   Inl e \<Rightarrow> Inl (FRead e)
                 | Inr content \<Rightarrow>
                     (let b = take (nat (limit + 1)) content in
                      if int (length b) > limit then Inl (FTooBig limit) else Inr b))))"

definition maxCredentialFileSize :: int where
  "maxCredentialFileSize = 64 * 1024"

subsection \<open>Broker and credentials\<close>

text \<open>\<open>URL.Hostname\<close> and \<open>URL.Port\<close> of package net/url, from the host part of the URL.\<close>

definition validOptionalPort :: "string \<Rightarrow> bool" where
  "validOptionalPort port =
     (case port of [] \<Rightarrow> True | c # cs \<Rightarrow> c = CHR '':'' \<and> list_all is_digit cs)"

definition last_colon :: "string \<Rightarrow> nat option" where
  "last_colon s = map_option (\<lambda>k. length s - 1 - k) (IndexByte (rev s) (CHR '':''))"

definition strip_brackets :: "string \<Rightarrow> string" where
  "strip_brackets h = (if HasPrefix h ''['' \<and> HasSuffix h '']'' then take (length h - 2) (drop 1 h) else h)"

definition splitHostPort :: "string \<Rightarrow> string \<times> string" where
  "splitHostPort hp =
     (let (h, p) = (case last_colon hp of
            Some i \<Rightarrow> if validOptionalPort (drop i hp) then (take i hp, drop (i + 1) hp) else (hp, [])
          | None \<Rightarrow> (hp, []))
      in (strip_brackets h, p))"

definition Hostname :: "URL \<Rightarrow> string" where
  "Hostname u = fst (splitHostPort (Host u))"

definition Port :: "URL \<Rightarrow> string" where
  "Port u = snd (splitHostPort (Host u))"

definition JoinHostPort :: "string \<Rightarrow> string \<Rightarrow> string" where
  "JoinHostPort h p = (if IndexByte h (CHR '':'') \<noteq> None then ''['' @ h @ '']:'' @ p else h @ '':'' @ p)"

definition secureMQTTSchemes :: "string list" where
  "secureMQTTSchemes = [''ssl'', ''tls'', ''mqtts'', ''mqtt+ssl'', ''tcps'', ''wss'']"

definition network_schemes :: "string list" where
  "network_schemes = [''mqtt'', ''tcp'', ''ws'', ''ssl'', ''tls'', ''mqtts'', ''mqtt+ssl'', ''tcps'', ''wss'']"

definition BrokerURL :: "stdlib \<Rightarrow> Config \<Rightarrow> validation_error + URL" where
  "BrokerURL L c = (case url_Parse L (Broker (MQTT c)) of None \<Rightarrow> Inl (VBroker EBrokerURL) | Some u \<Rightarrow> Inr u)"

text \<open>\<open>strings.EqualFold(host, "localhost")\<close>: no letter of the word folds with a rune other than
  its two ASCII cases and, for s, U+017F, which \<^const>\<open>ToUpper\<close> maps to S.\<close>

definition isLiteralLoopback :: "stdlib \<Rightarrow> string \<Rightarrow> bool" where
  "isLiteralLoopback L host =
     (if ToUpper host = ''LOCALHOST'' then True
      else (case ParseIP L host of None \<Rightarrow> False | Some loopback \<Rightarrow> loopback))"

definition BrokerLogAddress :: "stdlib \<Rightarrow> Config \<Rightarrow> validation_error + string" where
  "BrokerLogAddress L c =
     (case BrokerURL L c of
        Inl e \<Rightarrow> Inl e
      | Inr u \<Rightarrow>
          if ToLowerASCII (Scheme u) = ''unix'' then Inr ''unix://local''
          else if Hostname u = [] \<or> Port u = [] then Inl (VBroker EHostPort)
          else Inr (ToLowerASCII (Scheme u) @ ''://'' @ JoinHostPort (Hostname u) (Port u)))"

definition MQTTPassword :: "hostfs \<Rightarrow> Config \<Rightarrow> validation_error + string" where
  "MQTTPassword H c =
     (if PasswordFile (MQTT c) = [] then Inr (Password (MQTT c))
      else (case readBoundedRegularFile H (PasswordFile (MQTT c)) maxCredentialFileSize True of
          Inl e \<Rightarrow> Inl (VAuth (EPasswordFile e))
        | Inr b \<Rightarrow>
            (let b1 = (if b \<noteq> [] \<and> last b = CHR 0x0A
                       then (let b0 = butlast b in if b0 \<noteq> [] \<and> last b0 = CHR 0x0D then butlast b0 else b0)
                       else b)
             in if b1 = [] then Inl (VAuth EPasswordEmpty)
                else if has_nul b1 then Inl (VAuth EPasswordNUL)
                else Inr b1)))"

definition scheme_check :: "stdlib \<Rightarrow> Config \<Rightarrow> URL \<Rightarrow> string \<Rightarrow> bool \<Rightarrow> validation_error option" where
  "scheme_check L c u scheme secure =
     (if scheme = ''unix'' then
        fail_if (Host u \<noteq> [] \<or> \<not> IsAbs (URL_Path u) \<or> Clean (URL_Path u) \<noteq> URL_Path u \<or> RawPath u \<noteq> []) (VBroker EUnixPath)
      else if List.member network_schemes scheme then
        checks
         [fail_if (Hostname u = [] \<or> Port u = []) (VBroker EHostPort),
          fail_if (case Atoi (Port u) of None \<Rightarrow> True | Some port \<Rightarrow> port < 1 \<or> port > 65535) (VBroker EPort),
          if scheme = ''ws'' \<or> scheme = ''wss'' then
            fail_if (URL_Path u \<noteq> [] \<and> (\<not> HasPrefix (URL_Path u) ''/'' \<or> Clean (URL_Path u) \<noteq> URL_Path u
              \<or> RawPath u \<noteq> [])) (VBroker EWebsocketPath)
          else fail_if (URL_Path u \<noteq> []) (VBroker EPath),
          fail_if (\<not> secure \<and> \<not> AllowInsecureTransport (MQTT c) \<and> \<not> isLiteralLoopback L (Hostname u)) (VBroker EPlaintext)]
      else Some (VBroker EScheme))"

definition validateMQTT :: "stdlib \<Rightarrow> hostfs \<Rightarrow> Config \<Rightarrow> validation_error + bool" where
  "validateMQTT L H c =
     (let m = MQTT c; t = TLS m in
      if TrimSpace (Broker m) = [] then Inl (VBroker EBrokerRequired)
      else (case BrokerURL L c of
          Inl e \<Rightarrow> Inl e
        | Inr u \<Rightarrow>
            (let scheme = ToLowerASCII (Scheme u);
                 secure = List.member secureMQTTSchemes scheme;
                 hasPassword = (Password m \<noteq> [] \<or> PasswordFile m \<noteq> []);
                 hasCert = (CertFile t \<noteq> [] \<or> KeyFile t \<noteq> []);
                 hasTLSOption = (CAFile t \<noteq> [] \<or> hasCert \<or> ServerName t \<noteq> [] \<or> MinVersion t \<noteq> [])
             in case checks
                 [fail_if (has_User u) (VBroker EBrokerUser),
                  fail_if (RawQuery u \<noteq> [] \<or> ForceQuery u \<or> Fragment u \<noteq> []) (VBroker EBrokerQuery),
                  scheme_check L c u scheme secure,
                  fail_if (Password m \<noteq> [] \<and> PasswordFile m \<noteq> []) (VAuth EPasswordTwice),
                  fail_if ((Username m = []) \<noteq> (\<not> hasPassword)) (VAuth EUsernamePassword),
                  fail_if ((CertFile t = []) \<noteq> (KeyFile t = [])) (VAuth ECertKey),
                  fail_if (hasCert \<and> \<not> secure) (VAuth ECertScheme),
                  fail_if (hasTLSOption \<and> \<not> secure) (VAuth ETLSScheme),
                  fail_if (AllowUnauthenticated m \<and> (hasPassword \<or> hasCert)) (VAuth EUnauthenticated),
                  fail_if (\<not> hasPassword \<and> \<not> hasCert \<and> \<not> AllowUnauthenticated m) (VAuth EAuthRequired),
                  if PasswordFile m \<noteq> [] then (case MQTTPassword H c of Inl e \<Rightarrow> Some e | Inr _ \<Rightarrow> None) else None]
               of Some e \<Rightarrow> Inl e | None \<Rightarrow> Inr secure)))"

definition valid_label :: "string \<Rightarrow> bool" where
  "valid_label label \<longleftrightarrow>
     label \<noteq> [] \<and> length label \<le> 63 \<and> hd label \<noteq> CHR ''-'' \<and> last label \<noteq> CHR ''-''
     \<and> list_all (\<lambda>r. isASCIILetter r \<or> is_digit r \<or> r = CHR ''-'') label"

definition validTLSServerName :: "stdlib \<Rightarrow> string \<Rightarrow> bool" where
  "validTLSServerName L name =
     (if name = [] \<or> TrimSpace name \<noteq> name \<or> ContainsAny name ''/@?#[]'' then False
      else if ParseIP L name \<noteq> None then True
      else if length name > 253 \<or> HasPrefix name ''.'' \<or> HasSuffix name ''.'' then False
      else list_all valid_label (Split name (CHR ''.'')))"

record tls_config =
  tls_MinVersion :: u16
  tls_ServerName :: string
  tls_RootCAs :: "bytes option"
  tls_Certificate :: "(bytes \<times> bytes) option"

definition tls_ca :: "stdlib \<Rightarrow> hostfs \<Rightarrow> MQTTTLSConfig \<Rightarrow> validation_error + bytes option" where
  "tls_ca L H t =
     (if CAFile t = [] then Inr None
      else (case readBoundedRegularFile H (CAFile t) (4 * 1024 * 1024) False of
          Inl e \<Rightarrow> Inl (VTLS (ECAFile e))
        | Inr pem \<Rightarrow> if \<not> AppendCertsFromPEM L pem then Inl (VTLS ECACerts) else Inr (Some pem)))"

definition tls_cert :: "stdlib \<Rightarrow> hostfs \<Rightarrow> MQTTTLSConfig \<Rightarrow> validation_error + (bytes \<times> bytes) option" where
  "tls_cert L H t =
     (if CertFile t = [] then Inr None
      else (case readBoundedRegularFile H (CertFile t) (4 * 1024 * 1024) False of
          Inl e \<Rightarrow> Inl (VTLS (ECertFile e))
        | Inr certPEM \<Rightarrow>
            (case readBoundedRegularFile H (KeyFile t) (4 * 1024 * 1024) True of
               Inl e \<Rightarrow> Inl (VTLS (EKeyFile e))
             | Inr keyPEM \<Rightarrow> if \<not> X509KeyPair L certPEM keyPEM then Inl (VTLS EKeyPair) else Inr (Some (certPEM, keyPEM)))))"

definition MQTTTLSConfigOf :: "stdlib \<Rightarrow> hostfs \<Rightarrow> Config \<Rightarrow> validation_error + tls_config" where
  "MQTTTLSConfigOf L H c =
     (let t = TLS (MQTT c) in
      if MinVersion t \<noteq> [] \<and> MinVersion t \<noteq> ''1.2'' \<and> MinVersion t \<noteq> ''1.3'' then Inl (VTLS EMinVersion)
      else bind_result (BrokerURL L c) (\<lambda>u.
        if ServerName t \<noteq> [] \<and> \<not> validTLSServerName L (ServerName t) then Inl (VTLS EServerName)
        else bind_result (tls_ca L H t) (\<lambda>ca.
          bind_result (tls_cert L H t) (\<lambda>cert.
          Inr \<lparr>tls_MinVersion = (if MinVersion t = ''1.3'' then 0x0304 else 0x0303),
               tls_ServerName = (if ServerName t = [] then Hostname u else ServerName t),
               tls_RootCAs = ca, tls_Certificate = cert\<rparr>))))"

subsection \<open>GPIO lines\<close>

definition validatePositiveDuration :: "stdlib \<Rightarrow> string \<Rightarrow> string \<Rightarrow> validation_error option" where
  "validatePositiveDuration L name raw =
     (case ParseDuration L raw of
        None \<Rightarrow> Some (EDuration name raw)
      | Some d \<Rightarrow> if d \<le> 0 then Some (EDurationPositive name) else None)"

definition line_key :: "string \<Rightarrow> int \<Rightarrow> string" where
  "line_key chip line = chip @ '':'' @ decimal_int line"

fun validate_outputs :: "GPIOOutputConfig gomap \<Rightarrow> string gomap \<Rightarrow> validation_error + string gomap" where
  "validate_outputs [] usedLines = Inr usedLines"
| "validate_outputs ((name, output) # rest) usedLines =
     (if \<not> MatchString idPattern name then Inl (VGpio (EOutputKey name))
      else if Out_Line output < 0 then Inl (VGpio (EOutputLine name))
      else (let key = line_key (Out_Chip output) (Out_Line output) in
        case map_of usedLines key of
          Some previous \<Rightarrow> Inl (VGpio (ELineTwice key previous (''output '' @ name)))
        | None \<Rightarrow> validate_outputs rest (put key (''output '' @ name) usedLines)))"

fun validate_inputs :: "stdlib \<Rightarrow> GPIOInputConfig gomap \<Rightarrow> string gomap \<Rightarrow> validation_error + string gomap" where
  "validate_inputs L [] usedLines = Inr usedLines"
| "validate_inputs L ((name, input) # rest) usedLines =
     (if \<not> MatchString idPattern name then Inl (VGpio (EInputKey name))
      else if In_Line input < 0 then Inl (VGpio (EInputLine name))
      else if Bias input \<noteq> ''disabled'' \<and> Bias input \<noteq> ''pull_up'' \<and> Bias input \<noteq> ''pull_down''
        then Inl (VGpio (EInputBias name))
      else (case (if Debounce input \<noteq> []
                  then validatePositiveDuration L (''gpio.inputs.'' @ name @ ''.debounce'') (Debounce input)
                  else None) of
          Some e \<Rightarrow> Inl e
        | None \<Rightarrow>
            (let key = line_key (In_Chip input) (In_Line input) in
             case map_of usedLines key of
               Some previous \<Rightarrow> Inl (VGpio (ELineTwice key previous (''input '' @ name)))
             | None \<Rightarrow> validate_inputs L rest (put key (''input '' @ name) usedLines))))"

definition validateGPIO :: "stdlib \<Rightarrow> GPIOConfig \<Rightarrow> validation_error option" where
  "validateGPIO L g =
     (case validate_outputs (Outputs g) [] of
        Inl e \<Rightarrow> Some e
      | Inr usedLines \<Rightarrow>
          (case validate_inputs L (Inputs g) usedLines of Inl e \<Rightarrow> Some e | Inr _ \<Rightarrow> None))"

subsection \<open>Topics, commands, actions\<close>

definition validateTopicPrefix :: "string \<Rightarrow> string \<Rightarrow> validation_error option" where
  "validateTopicPrefix name topic =
     checks [fail_if (topic = []) (ETopicEmpty name),
             fail_if (ContainsAny topic ''+#'') (ETopicWildcard name)]"

definition validatePublishTopic :: "string \<Rightarrow> string \<Rightarrow> validation_error option" where
  "validatePublishTopic name topic =
     checks [fail_if (TrimSpace topic = []) (ETopicRequired name), validateTopicPrefix name topic]"

definition command_file_check :: "hostfs \<Rightarrow> string \<Rightarrow> string \<Rightarrow> validation_error option" where
  "command_file_check H prefix path =
     (case os_Stat H path of
        Inl e \<Rightarrow> Some (VAction (ECommandStat prefix e))
      | Inr info \<Rightarrow> fail_if (\<not> IsRegular info \<or> Perm info AND 0x49 = 0) (VAction (ECommandFile prefix)))"

definition working_dir_check :: "hostfs \<Rightarrow> string \<Rightarrow> string \<Rightarrow> validation_error option" where
  "working_dir_check H prefix dir =
     (if dir = [] then None
      else checks
       [fail_if (has_nul dir) (VAction (EDirNUL prefix)),
        fail_if (\<not> IsAbs dir) (VAction (EDirAbs prefix)),
        (case os_Stat H dir of
           Inl e \<Rightarrow> Some (VAction (EDirStat prefix e))
         | Inr info \<Rightarrow> fail_if (fi_kind info \<noteq> Directory) (VAction (EDirFile prefix)))])"

definition validateCommandAction :: "hostfs \<Rightarrow> string \<Rightarrow> Action \<Rightarrow> validation_error option" where
  "validateCommandAction H prefix action =
     checks
      [fail_if (TrimSpace (Command action) = []) (VAction (ECommandRequired prefix)),
       fail_if (has_nul (Command action)) (VAction (ECommandNUL prefix)),
       fail_if (\<not> IsAbs (Command action)) (VAction (ECommandAbs prefix)),
       command_file_check H prefix (Command action),
       first_error (\<lambda>(i, argument). fail_if (has_nul argument) (VAction (EArgumentNUL prefix i)))
         (enumerate 0 (Args action)),
       working_dir_check H prefix (WorkingDir action),
       first_error (\<lambda>name. checks
         [fail_if (\<not> MatchString envNamePattern name) (VAction (EEnvName prefix name)),
          fail_if (has_nul (the (map_of (Env action) name))) (VAction (EEnvNUL prefix name))])
         (sortedKeys (Env action))]"

definition validate_action :: "stdlib \<Rightarrow> hostfs \<Rightarrow> Config \<Rightarrow> string \<Rightarrow> Action \<Rightarrow> validation_error option" where
  "validate_action L H c prefix action =
     (if Act_Type action = ''gpio'' then
        checks [fail_if (map_of (Outputs (GPIO c)) (Act_GPIO action) = None)
                  (VAction (EActionOutput prefix (Act_GPIO action))),
                fail_if (Value action = None) (VAction (EActionValue prefix))]
      else if Act_Type action = ''command'' then
        checks [validateCommandAction H prefix action,
                if Timeout action \<noteq> [] then validatePositiveDuration L (prefix @ ''.timeout'') (Timeout action) else None]
      else if Act_Type action = ''delay'' then
        checks [fail_if (Duration action = []) (VAction (EActionDuration prefix)),
                validatePositiveDuration L (prefix @ ''.duration'') (Duration action)]
      else if Act_Type action = ''mqtt'' then
        checks [validatePublishTopic (prefix @ ''.topic'') (Topic action),
                fail_if (case Act_QoS action of None \<Rightarrow> False | Some q \<Rightarrow> q > 2) (VAction (EActionQoS prefix))]
      else Some (VAction (EActionType prefix (Act_Type action))))"

definition action_prefix :: "string \<Rightarrow> nat \<Rightarrow> string" where
  "action_prefix ctx i = ''entity '' @ ctx @ '' action['' @ decimal i @ '']''"

definition validateActions :: "stdlib \<Rightarrow> hostfs \<Rightarrow> Config \<Rightarrow> string \<Rightarrow> Action list \<Rightarrow> validation_error option" where
  "validateActions L H c ctx actions =
     first_error (\<lambda>(i, action). validate_action L H c (action_prefix ctx i) action) (enumerate 0 actions)"

subsection \<open>Entities\<close>

definition validateSwitch :: "stdlib \<Rightarrow> hostfs \<Rightarrow> Config \<Rightarrow> EntityConfig \<Rightarrow> validation_error option" where
  "validateSwitch L H c entity =
     (let i = Ent_ID entity; st = State entity in
      checks
       [fail_if (State_Type st = []) (VEntity (EStateRequired i)),
        (if State_Type st = ''memory'' then fail_if (State_GPIO st \<noteq> []) (VEntity (EStateMemoryGPIO i))
         else if State_Type st = ''gpio'' then
           fail_if (map_of (Outputs (GPIO c)) (State_GPIO st) = None) (VEntity (EStateOutput i (State_GPIO st)))
         else Some (VEntity (EStateType i (State_Type st)))),
        fail_if (On entity = []) (VEntity (ENoOn i)),
        fail_if (Off entity = []) (VEntity (ENoOff i)),
        validateActions L H c (i @ ''.on'') (On entity),
        validateActions L H c (i @ ''.off'') (Off entity)])"

definition validateButton :: "stdlib \<Rightarrow> hostfs \<Rightarrow> Config \<Rightarrow> EntityConfig \<Rightarrow> validation_error option" where
  "validateButton L H c entity =
     checks [fail_if (Press entity = []) (VEntity (ENoPress (Ent_ID entity))),
             validateActions L H c (Ent_ID entity @ ''.press'') (Press entity)]"

definition validateBinarySensor :: "Config \<Rightarrow> EntityConfig \<Rightarrow> validation_error option" where
  "validateBinarySensor c entity =
     checks [fail_if (Source_Type (Source entity) \<noteq> ''gpio'') (VEntity (ESourceType (Ent_ID entity))),
             fail_if (map_of (Inputs (GPIO c)) (Source_GPIO (Source entity)) = None)
               (VEntity (ESourceInput (Ent_ID entity) (Source_GPIO (Source entity))))]"

definition validate_kind :: "stdlib \<Rightarrow> hostfs \<Rightarrow> Config \<Rightarrow> EntityConfig \<Rightarrow> validation_error option" where
  "validate_kind L H c entity =
     (if Ent_Type entity = ''switch'' then validateSwitch L H c entity
      else if Ent_Type entity = ''button'' then validateButton L H c entity
      else if Ent_Type entity = ''binary_sensor'' then validateBinarySensor c entity
      else Some (VEntity (EEntityType (Ent_ID entity) (Ent_Type entity))))"

fun validate_entities ::
  "stdlib \<Rightarrow> hostfs \<Rightarrow> Config \<Rightarrow> nat \<Rightarrow> string list \<Rightarrow> EntityConfig list \<Rightarrow> validation_error option" where
  "validate_entities L H c i seen [] = None"
| "validate_entities L H c i seen (entity # rest) =
     checks
      [fail_if (\<not> MatchString idPattern (Ent_ID entity)) (VEntity (EEntityID i (Ent_ID entity))),
       fail_if (List.member seen (Ent_ID entity)) (VEntity (EDuplicateEntity (Ent_ID entity))),
       fail_if (TrimSpace (Ent_Name entity) = []) (VEntity (EEntityName (Ent_ID entity))),
       validate_kind L H c entity,
       validate_entities L H c (Suc i) (Ent_ID entity # seen) rest]"

definition Validate :: "stdlib \<Rightarrow> hostfs \<Rightarrow> Config \<Rightarrow> validation_error option" where
  "Validate L H c =
     (let m = MQTT c; d = Discovery m in
      case validateMQTT L H c of
        Inl e \<Rightarrow> Some e
      | Inr secure \<Rightarrow>
          checks
           [(if secure then (case MQTTTLSConfigOf L H c of Inl e \<Rightarrow> Some e | Inr _ \<Rightarrow> None) else None),
            fail_if (\<not> MatchString idPattern (Dev_ID (Device c))) (EDeviceID (Dev_ID (Device c))),
            fail_if (TrimSpace (Dev_Name (Device c)) = []) EDeviceName,
            fail_if (ClientID m = []) EClientID,
            validateTopicPrefix ''mqtt.base_topic'' (BaseTopic m),
            (if DiscoveryEnabled c then validateTopicPrefix ''mqtt.discovery.prefix'' (Disc_Prefix d) else None),
            (if StateFile d \<noteq> [] then
               fail_if (has_nul (StateFile d) \<or> \<not> IsAbs (StateFile d) \<or> Clean (StateFile d) \<noteq> StateFile d) EStateFile
             else None),
            fail_if (MQTTQoS c > 2) EQoS,
            (if KeepAlive m \<noteq> [] then validatePositiveDuration L ''mqtt.keep_alive'' (KeepAlive m) else None),
            (if ConnectTimeout m \<noteq> [] then validatePositiveDuration L ''mqtt.connect_timeout'' (ConnectTimeout m) else None),
            validateGPIO L (GPIO c),
            fail_if (Entities c = []) (VEntity ENoEntities),
            validate_entities L H c 0 [] (Entities c)])"

subsection \<open>Loading\<close>

datatype load_error = ReadConfig string | DecodeYAML string | Expand expand_error | Invalid validation_error

text \<open>\<open>load\<close>: the answers of \<open>os.ReadFile\<close> and of the YAML decoder are arguments.\<close>

definition load_config ::
  "stdlib \<Rightarrow> hostfs \<Rightarrow> lookupEnvFunc \<Rightarrow> (string \<Rightarrow> string + bytes) \<Rightarrow> (bytes \<Rightarrow> string + Config) \<Rightarrow> string \<Rightarrow> load_error + Config" where
  "load_config L H lookup ReadFile decode path =
     (case ReadFile path of
        Inl e \<Rightarrow> Inl (ReadConfig e)
      | Inr data \<Rightarrow>
          (case decode data of
             Inl e \<Rightarrow> Inl (DecodeYAML e)
           | Inr cfg \<Rightarrow>
               (case expandEnvironment lookup cfg of
                  Inl e \<Rightarrow> Inl (Expand e)
                | Inr cfg1 \<Rightarrow>
                    (let cfg2 = applyDefaults cfg1 in
                     case Validate L H cfg2 of Some e \<Rightarrow> Inl (Invalid e) | None \<Rightarrow> Inr cfg2))))"

subsection \<open>Reference: the language of a pattern, the meaning of a valid configuration\<close>

inductive_set star :: "string set \<Rightarrow> string set" for A :: "string set" where
  star_Nil: "[] \<in> star A"
| star_app: "a \<in> A \<Longrightarrow> w \<in> star A \<Longrightarrow> a @ w \<in> star A"

primrec lang :: "rx \<Rightarrow> string set" where
  "lang RNone = {}"
| "lang REps = {[]}"
| "lang (RClass cs) = {[c] | c. c \<in> set cs}"
| "lang (RCat r s) = {u @ v | u v. u \<in> lang r \<and> v \<in> lang s}"
| "lang (RAlt r s) = lang r \<union> lang s"
| "lang (RStar r) = star (lang r)"

definition id_start :: "char \<Rightarrow> bool" where
  "id_start c \<longleftrightarrow> CHR ''a'' \<le> c \<and> c \<le> CHR ''z'' \<or> is_digit c"

definition valid_id :: "string \<Rightarrow> bool" where
  "valid_id s \<longleftrightarrow> s \<noteq> [] \<and> id_start (hd s) \<and> (\<forall>c \<in> set (tl s). id_start c \<or> c = CHR ''_'' \<or> c = CHR ''-'')"

definition positive_duration :: "stdlib \<Rightarrow> string \<Rightarrow> bool" where
  "positive_duration L raw \<longleftrightarrow> (\<exists>d > 0. ParseDuration L raw = Some d)"

definition lines_of :: "GPIOConfig \<Rightarrow> (string \<times> int) list" where
  "lines_of g = map (\<lambda>(_, out). (Out_Chip out, Out_Line out)) (Outputs g)
              @ map (\<lambda>(_, inp). (In_Chip inp, In_Line inp)) (Inputs g)"

definition gpio_ok :: "stdlib \<Rightarrow> GPIOConfig \<Rightarrow> bool" where
  "gpio_ok L g \<longleftrightarrow>
     (\<forall>(name, out) \<in> set (Outputs g). valid_id name) \<and> (\<forall>(name, inp) \<in> set (Inputs g). valid_id name)
     \<and> (\<forall>(chip, line) \<in> set (lines_of g). 0 \<le> line)
     \<and> (\<forall>(name, inp) \<in> set (Inputs g). Bias inp \<in> {''disabled'', ''pull_up'', ''pull_down''}
          \<and> (Debounce inp \<noteq> [] \<longrightarrow> positive_duration L (Debounce inp)))
     \<and> distinct (lines_of g)"

definition topic_ok :: "string \<Rightarrow> bool" where
  "topic_ok topic \<longleftrightarrow> topic \<noteq> [] \<and> CHR ''+'' \<notin> set topic \<and> CHR ''#'' \<notin> set topic"

definition action_ok :: "stdlib \<Rightarrow> Config \<Rightarrow> Action \<Rightarrow> bool" where
  "action_ok L c a \<longleftrightarrow>
     Act_Type a = ''gpio'' \<and> map_of (Outputs (GPIO c)) (Act_GPIO a) \<noteq> None \<and> Value a \<noteq> None
   \<or> Act_Type a = ''command'' \<and> IsAbs (Command a) \<and> (\<forall>n \<in> fst ` set (Env a). validEnvironmentName n)
       \<and> (Timeout a \<noteq> [] \<longrightarrow> positive_duration L (Timeout a))
   \<or> Act_Type a = ''delay'' \<and> positive_duration L (Duration a)
   \<or> Act_Type a = ''mqtt'' \<and> topic_ok (Topic a) \<and> (\<forall>q. Act_QoS a = Some q \<longrightarrow> q \<le> 2)"

definition entity_ok :: "stdlib \<Rightarrow> Config \<Rightarrow> EntityConfig \<Rightarrow> bool" where
  "entity_ok L c e \<longleftrightarrow>
     valid_id (Ent_ID e) \<and>
     (Ent_Type e = ''switch'' \<and> (\<forall>a \<in> set (On e @ Off e). action_ok L c a) \<and> On e \<noteq> [] \<and> Off e \<noteq> []
        \<and> (State_Type (State e) = ''memory''
          \<or> State_Type (State e) = ''gpio'' \<and> map_of (Outputs (GPIO c)) (State_GPIO (State e)) \<noteq> None)
      \<or> Ent_Type e = ''button'' \<and> (\<forall>a \<in> set (Press e). action_ok L c a) \<and> Press e \<noteq> []
      \<or> Ent_Type e = ''binary_sensor'' \<and> map_of (Inputs (GPIO c)) (Source_GPIO (Source e)) \<noteq> None)"

definition valid_config :: "stdlib \<Rightarrow> Config \<Rightarrow> bool" where
  "valid_config L c \<longleftrightarrow>
     valid_id (Dev_ID (Device c)) \<and> ClientID (MQTT c) \<noteq> [] \<and> topic_ok (BaseTopic (MQTT c))
     \<and> (DiscoveryEnabled c \<longrightarrow> topic_ok (Disc_Prefix (Discovery (MQTT c))))
     \<and> MQTTQoS c \<le> 2 \<and> gpio_ok L (GPIO c)
     \<and> Entities c \<noteq> [] \<and> distinct (map Ent_ID (Entities c)) \<and> (\<forall>e \<in> set (Entities c). entity_ok L c e)"

section \<open>Lemmas\<close>

subsection \<open>Patterns\<close>

lemma star_Cons_iff: "c # w \<in> star A \<longleftrightarrow> (\<exists>u v. w = u @ v \<and> c # u \<in> A \<and> v \<in> star A)"
proof
  assume "c # w \<in> star A"
  then show "\<exists>u v. w = u @ v \<and> c # u \<in> A \<and> v \<in> star A"
    by (induction "c # w" arbitrary: c w rule: star.induct) (auto simp: Cons_eq_append_conv append_eq_Cons_conv)
next
  assume "\<exists>u v. w = u @ v \<and> c # u \<in> A \<and> v \<in> star A"
  then obtain u v where "w = u @ v" "c # u \<in> A" "v \<in> star A" by blast
  then show "c # w \<in> star A" using star_app [of "c # u" A v] by simp
qed

lemma nullable_lang: "nullable r \<longleftrightarrow> [] \<in> lang r"
  by (induction r) (auto intro: star_Nil)

lemma lang_deriv: "w \<in> lang (deriv c r) \<longleftrightarrow> c # w \<in> lang r"
proof (induction r arbitrary: w)
  case (RCat r s)
  then show ?case
    by (auto simp: nullable_lang Cons_eq_append_conv)
next
  case (RStar r)
  then show ?case by (auto simp: star_Cons_iff)
qed auto

lemma MatchString_lang: "MatchString r s \<longleftrightarrow> s \<in> lang r"
  unfolding MatchString_def by (induction s arbitrary: r) (simp_all add: nullable_lang lang_deriv)

lemma star_class: "star {[c] | c. c \<in> set cs} = {w. set w \<subseteq> set cs}"
proof (intro set_eqI iffI)
  fix w assume "w \<in> star {[c] | c. c \<in> set cs}"
  then show "w \<in> {w. set w \<subseteq> set cs}" by (induction rule: star.induct) auto
next
  fix w assume "w \<in> {w. set w \<subseteq> set cs}"
  then show "w \<in> star {[c] | c. c \<in> set cs}"
    by (induction w) (auto simp: star_Cons_iff intro: star_Nil)
qed

lemma class_star_lang:
  "w \<in> lang (RCat (RClass as) (RStar (RClass bs))) \<longleftrightarrow> w \<noteq> [] \<and> hd w \<in> set as \<and> set (tl w) \<subseteq> set bs"
proof -
  have "w \<in> lang (RCat (RClass as) (RStar (RClass bs))) \<longleftrightarrow> (\<exists>c v. w = [c] @ v \<and> c \<in> set as \<and> set v \<subseteq> set bs)"
    unfolding lang.simps star_class by blast
  then show ?thesis by (cases w) auto
qed

lemma char_range:
  assumes "m < 256" "n < 256"
  shows "{c. char_of m \<le> c \<and> c \<le> char_of n} = char_of ` {m..n :: nat}"
proof -
  have "c \<in> char_of ` {m..n}" if "m \<le> of_char c" "of_char c \<le> n" for c
    using that by (intro image_eqI [of _ _ "of_char c"]) auto
  with assms show ?thesis by (auto simp: less_eq_char_def)
qed

lemma letter_ranges:
  "lower_letters = map char_of [97..<123 :: nat]" "upper_letters = map char_of [65..<91 :: nat]"
  "digits = map char_of [48..<58 :: nat]"
  by code_simp+

lemma range_ends:
  "CHR ''a'' = char_of (97 :: nat)" "CHR ''z'' = char_of (122 :: nat)" "CHR ''A'' = char_of (65 :: nat)"
  "CHR ''Z'' = char_of (90 :: nat)" "CHR ''0'' = char_of (48 :: nat)" "CHR ''9'' = char_of (57 :: nat)"
  by code_simp+

lemma letter_classes:
  "c \<in> set lower_letters \<longleftrightarrow> CHR ''a'' \<le> c \<and> c \<le> CHR ''z''"
  "c \<in> set upper_letters \<longleftrightarrow> CHR ''A'' \<le> c \<and> c \<le> CHR ''Z''"
  "c \<in> set digits \<longleftrightarrow> is_digit c"
  using char_range [of 97 122] char_range [of 65 90] char_range [of 48 57]
  unfolding letter_ranges range_ends is_digit_def set_map set_upt
  by (auto simp: atLeastLessThanSuc_atLeastAtMost [symmetric] set_eq_iff)

lemma MatchString_idPattern: "MatchString idPattern s \<longleftrightarrow> valid_id s"
  unfolding MatchString_lang idPattern_def class_star_lang valid_id_def
  by (auto simp: letter_classes id_start_def)

lemma MatchString_envNamePattern: "MatchString envNamePattern s \<longleftrightarrow> validEnvironmentName s"
  unfolding MatchString_lang envNamePattern_def class_star_lang validEnvironmentName_def
  by (cases s) (auto simp: letter_classes isASCIILetter_def list_all_iff)

lemma valid_id_no: "valid_id s \<Longrightarrow> c \<in> set s \<Longrightarrow> id_start c \<or> c = CHR ''_'' \<or> c = CHR ''-''"
  by (cases s) (auto simp: valid_id_def)

lemma valid_id_no_slash [simp]: "valid_id s \<Longrightarrow> CHR ''/'' \<notin> set s"
  by (auto dest!: valid_id_no simp: id_start_def is_digit_def less_eq_char_def)

lemma valid_id_not_Nil [simp]: "\<not> valid_id []"
  by (simp add: valid_id_def)

subsection \<open>Bounded files\<close>

text \<open>The bounded read, written so that evaluation never counts up to the limit.\<close>

lemma readBoundedRegularFile_code [code]:
  "readBoundedRegularFile H path limit restrictive =
     (case os_Open H path of
        Inl e \<Rightarrow> Inl (FOpen e)
      | Inr f \<Rightarrow>
          (case of_stat f of
             Inl e \<Rightarrow> Inl (FStat e)
           | Inr info \<Rightarrow>
               if \<not> IsRegular info then Inl FNotRegular
               else if restrictive \<and> (Perm info \<noteq> 0x100 \<and> Perm info \<noteq> 0x180 \<and> Perm info \<noteq> 0x1A0
                      \<or> fi_mode info AND set_bits \<noteq> 0) then Inl FPermissions
               else if fi_size info > limit then Inl (FTooBig limit)
               else (case of_read f of
                   Inl e \<Rightarrow> Inl (FRead e)
                 | Inr content \<Rightarrow> if 0 \<le> limit then if int (length content) > limit then Inl (FTooBig limit) else Inr content
                     else Inl (FTooBig limit))))"
  by (auto simp: readBoundedRegularFile_def Let_def split: sum.splits)

subsection \<open>GPIO lines\<close>

lemma line_key_inject:
  assumes "0 \<le> l" "0 \<le> l'"
  shows "line_key c l = line_key c' l' \<longleftrightarrow> c = c' \<and> l = l'"
proof
  assume "line_key c l = line_key c' l'"
  then have "c = c' \<and> decimal (nat l) = decimal (nat l')"
    using assms append_sep_inject [of c "CHR '':''" "decimal (nat l)" c' "decimal (nat l')"]
    by (simp add: line_key_def decimal_int_nonneg)
  with assms show "c = c' \<and> l = l'" by (auto simp: nat_eq_iff)
qed simp

lemma positive_duration_check [simp]:
  "validatePositiveDuration L name raw = None \<longleftrightarrow> positive_duration L raw"
  by (auto simp: validatePositiveDuration_def positive_duration_def split: option.splits)

lemma positive_duration_failed [dest]:
  "validatePositiveDuration L name raw = Some e \<Longrightarrow> \<not> positive_duration L raw"
  using positive_duration_check [of L name raw] by simp

definition out_key :: "string \<times> GPIOOutputConfig \<Rightarrow> string" where
  "out_key p = line_key (Out_Chip (snd p)) (Out_Line (snd p))"

definition in_key :: "string \<times> GPIOInputConfig \<Rightarrow> string" where
  "in_key p = line_key (In_Chip (snd p)) (In_Line (snd p))"

definition out_ok :: "string \<times> GPIOOutputConfig \<Rightarrow> bool" where
  "out_ok p \<longleftrightarrow> valid_id (fst p) \<and> 0 \<le> Out_Line (snd p)"

definition in_ok :: "stdlib \<Rightarrow> string \<times> GPIOInputConfig \<Rightarrow> bool" where
  "in_ok L p \<longleftrightarrow> valid_id (fst p) \<and> 0 \<le> In_Line (snd p) \<and> Bias (snd p) \<in> {''disabled'', ''pull_up'', ''pull_down''}
     \<and> (Debounce (snd p) \<noteq> [] \<longrightarrow> positive_duration L (Debounce (snd p)))"

text \<open>A loop over lines succeeds when every line is well formed and no key repeats.\<close>

definition fresh_keys :: "string list \<Rightarrow> string gomap \<Rightarrow> bool" where
  "fresh_keys ks used \<longleftrightarrow> distinct ks \<and> (\<forall>k \<in> set ks. map_of used k = None)"

lemma fresh_keys_Cons:
  "fresh_keys (k # ks) used \<longleftrightarrow> map_of used k = None \<and> fresh_keys ks (put k v used)"
  by (auto simp: fresh_keys_def)

lemma validate_outputs_ok:
  "(\<exists>u. validate_outputs xs used = Inr u) \<longleftrightarrow> (\<forall>p \<in> set xs. out_ok p) \<and> fresh_keys (map out_key xs) used"
proof (induction xs used rule: validate_outputs.induct)
  case (1 used)
  then show ?case by (simp add: fresh_keys_def)
next
  case (2 name out rest used)
  then show ?case
    by (auto simp: MatchString_idPattern out_ok_def out_key_def Let_def split: option.splits
        simp: fresh_keys_Cons [where v = "''output '' @ name"])
qed

lemma validate_outputs_keys:
  "validate_outputs xs used = Inr u \<Longrightarrow> dom (map_of u) = dom (map_of used) \<union> out_key ` set xs"
  by (induction xs used arbitrary: u rule: validate_outputs.induct)
    (auto simp: Let_def out_key_def split: if_splits option.splits)

lemma validate_inputs_ok:
  "(\<exists>u. validate_inputs L xs used = Inr u) \<longleftrightarrow> (\<forall>p \<in> set xs. in_ok L p) \<and> fresh_keys (map in_key xs) used"
proof (induction L xs used rule: validate_inputs.induct)
  case (1 L used)
  then show ?case by (simp add: fresh_keys_def)
next
  case (2 L name inp rest used)
  then show ?case
    by (auto simp: MatchString_idPattern in_ok_def in_key_def Let_def split: option.splits
        simp: fresh_keys_Cons [where v = "''input '' @ name"])
qed

lemma validateGPIO_iff_keys:
  "validateGPIO L g = None \<longleftrightarrow> (\<forall>p \<in> set (Outputs g). out_ok p) \<and> (\<forall>p \<in> set (Inputs g). in_ok L p)
     \<and> distinct (map out_key (Outputs g) @ map in_key (Inputs g))"
proof (cases "validate_outputs (Outputs g) []")
  case (Inl e)
  then show ?thesis
    using validate_outputs_ok [of "Outputs g" "[]"] by (auto simp: validateGPIO_def fresh_keys_def)
next
  case (Inr used)
  have "validateGPIO L g = None \<longleftrightarrow> (\<exists>u. validate_inputs L (Inputs g) used = Inr u)"
    by (auto simp: validateGPIO_def Inr split: sum.splits)
  moreover have U: "map_of used k = None \<longleftrightarrow> k \<notin> out_key ` set (Outputs g)" for k
    using validate_outputs_keys [OF Inr] domIff [of k "map_of used"] by simp
  have "(\<forall>k \<in> set (map in_key (Inputs g)). map_of used k = None) \<longleftrightarrow>
      set (map out_key (Outputs g)) \<inter> set (map in_key (Inputs g)) = {}"
    unfolding U set_map by blast
  ultimately show ?thesis
    using validate_outputs_ok [of "Outputs g" "[]"] Inr
    unfolding validate_inputs_ok fresh_keys_def distinct_append by auto
qed

lemma distinct_map_key:
  "distinct (map out_key os @ map in_key is) \<longleftrightarrow>
     distinct (map (\<lambda>(_, x). (Out_Chip x, Out_Line x)) os @ map (\<lambda>(_, x). (In_Chip x, In_Line x)) is)"
  if "\<forall>p \<in> set os. 0 \<le> Out_Line (snd p)" "\<forall>p \<in> set is. 0 \<le> In_Line (snd p)"
proof -
  let ?pairs = "map (\<lambda>(_, x). (Out_Chip x, Out_Line x)) os @ map (\<lambda>(_, x). (In_Chip x, In_Line x)) is"
  have keys: "map out_key os @ map in_key is = map (\<lambda>(c, l). line_key c l) ?pairs"
    by (auto simp: out_key_def in_key_def)
  have "0 \<le> l" if "(c, l) \<in> set ?pairs" for c l
    using that \<open>\<forall>p \<in> set os. _ p\<close> \<open>\<forall>p \<in> set is. _ p\<close> by force
  then have "inj_on (\<lambda>(c, l). line_key c l) (set ?pairs)"
    unfolding inj_on_def by (metis (no_types, lifting) case_prod_conv line_key_inject surj_pair)
  then show ?thesis
    unfolding keys distinct_map by simp
qed

lemma validateGPIO_iff: "validateGPIO L g = None \<longleftrightarrow> gpio_ok L g"
proof -
  have "(\<forall>p \<in> set (Outputs g). out_ok p) \<and> (\<forall>p \<in> set (Inputs g). in_ok L p) \<longleftrightarrow>
      (\<forall>(name, out) \<in> set (Outputs g). valid_id name) \<and> (\<forall>(name, inp) \<in> set (Inputs g). valid_id name)
      \<and> (\<forall>(chip, line) \<in> set (lines_of g). 0 \<le> line)
      \<and> (\<forall>(name, inp) \<in> set (Inputs g). Bias inp \<in> {''disabled'', ''pull_up'', ''pull_down''}
          \<and> (Debounce inp \<noteq> [] \<longrightarrow> positive_duration L (Debounce inp)))"
    unfolding out_ok_def in_ok_def lines_of_def by fastforce
  moreover have "distinct (map out_key (Outputs g) @ map in_key (Inputs g)) \<longleftrightarrow> distinct (lines_of g)"
    if "(\<forall>p \<in> set (Outputs g). out_ok p) \<and> (\<forall>p \<in> set (Inputs g). in_ok L p)"
    unfolding lines_of_def by (rule distinct_map_key) (use that in \<open>auto simp: out_ok_def in_ok_def\<close>)
  ultimately show ?thesis
    unfolding validateGPIO_iff_keys gpio_ok_def by blast
qed

subsection \<open>Actions and entities\<close>

lemma ContainsAny_wildcards [simp]:
  "ContainsAny topic ''+#'' \<longleftrightarrow> CHR ''+'' \<in> set topic \<or> CHR ''#'' \<in> set topic"
  by (auto simp: ContainsAny_def list_ex_iff List.member_iff)

lemma validateTopicPrefix_None [simp]: "validateTopicPrefix name topic = None \<longleftrightarrow> topic_ok topic"
  by (auto simp: validateTopicPrefix_def topic_ok_def)

lemma set_sortedKeys [simp]: "set (sortedKeys m) = fst ` set m"
  by (simp add: sortedKeys_def)

lemma validateCommandAction_None:
  "validateCommandAction H prefix a = None \<Longrightarrow> IsAbs (Command a) \<and> (\<forall>n \<in> fst ` set (Env a). validEnvironmentName n)"
  by (auto simp: validateCommandAction_def MatchString_envNamePattern)

lemma validate_action_ok: "validate_action L H c prefix a = None \<Longrightarrow> action_ok L c a"
  unfolding validate_action_def action_ok_def
  by (auto simp: validatePublishTopic_def not_less split: if_splits option.splits
      dest!: validateCommandAction_None)

lemma enumerate_covers: "x \<in> set xs \<Longrightarrow> \<exists>i. (i, x) \<in> set (enumerate n xs)"
  by (induction xs arbitrary: n) auto

lemma validateActions_ok:
  assumes "validateActions L H c ctx as = None"
  shows "\<forall>a \<in> set as. action_ok L c a"
proof
  fix a assume "a \<in> set as"
  then obtain i where "(i, a) \<in> set (enumerate 0 as)"
    using enumerate_covers [of a as 0] by blast
  with assms have "validate_action L H c (action_prefix ctx i) a = None"
    unfolding validateActions_def first_error_None_iff by fastforce
  then show "action_ok L c a" by (rule validate_action_ok)
qed

lemma validate_kind_ok:
  assumes "validate_kind L H c e = None" and "valid_id (Ent_ID e)"
  shows "entity_ok L c e"
  using assms unfolding validate_kind_def entity_ok_def
  by (auto simp: validateSwitch_def validateButton_def validateBinarySensor_def Let_def
      split: if_splits dest!: validateActions_ok)

lemma validate_entities_ok:
  "validate_entities L H c i seen es = None \<Longrightarrow>
     (\<forall>e \<in> set es. entity_ok L c e) \<and> distinct (map Ent_ID es) \<and> set (map Ent_ID es) \<inter> set seen = {}"
proof (induction es arbitrary: i seen)
  case (Cons e es)
  from Cons.prems have here: "valid_id (Ent_ID e)" "Ent_ID e \<notin> set seen" "validate_kind L H c e = None"
    and rest: "validate_entities L H c (Suc i) (Ent_ID e # seen) es = None"
    by (auto simp: MatchString_idPattern List.member_iff)
  from Cons.IH [OF rest] here validate_kind_ok [OF here(3,1)] show ?case by auto
qed simp

lemma Validate_sound: "Validate L H c = None \<Longrightarrow> valid_config L c"
  unfolding Validate_def valid_config_def Let_def
  by (auto simp: MatchString_idPattern validateGPIO_iff not_less split: sum.splits if_splits
      dest!: validate_entities_ok)

subsection \<open>Transport and credentials\<close>

text \<open>The credential rules, and what a successful \<open>validateMQTT\<close> says.\<close>

definition credentials_ok :: "MQTTConfig \<Rightarrow> bool \<Rightarrow> bool" where
  "credentials_ok m secure \<longleftrightarrow>
     (Password m = [] \<or> PasswordFile m = [])
     \<and> (Username m \<noteq> [] \<longleftrightarrow> Password m \<noteq> [] \<or> PasswordFile m \<noteq> [])
     \<and> (CertFile (TLS m) \<noteq> [] \<longleftrightarrow> KeyFile (TLS m) \<noteq> [])
     \<and> (CertFile (TLS m) \<noteq> [] \<longrightarrow> secure)
     \<and> (AllowUnauthenticated m \<longleftrightarrow> Username m = [] \<and> CertFile (TLS m) = [])"

lemma validateMQTT_Inr:
  assumes "validateMQTT L H c = Inr secure"
  obtains u where "BrokerURL L c = Inr u" "secure = List.member secureMQTTSchemes (ToLowerASCII (Scheme u))"
    "\<not> has_User u" "scheme_check L c u (ToLowerASCII (Scheme u)) secure = None"
    "credentials_ok (MQTT c) secure" "PasswordFile (MQTT c) \<noteq> [] \<longrightarrow> (\<exists>pw. MQTTPassword H c = Inr pw)"
proof (cases "BrokerURL L c")
  case (Inl e)
  with assms show ?thesis by (simp add: validateMQTT_def Let_def split: if_splits)
next
  case (Inr u)
  let ?s = "List.member secureMQTTSchemes (ToLowerASCII (Scheme u))"
  from assms Inr have sec: "secure = ?s"
    by (simp add: validateMQTT_def Let_def split: if_splits option.splits)
  from assms Inr have "\<not> has_User u" "scheme_check L c u (ToLowerASCII (Scheme u)) ?s = None"
    and pw: "PasswordFile (MQTT c) \<noteq> [] \<longrightarrow> (\<exists>pw. MQTTPassword H c = Inr pw)"
    by (simp_all add: validateMQTT_def Let_def split: if_splits option.splits sum.splits)
  moreover from assms Inr have "credentials_ok (MQTT c) ?s"
    unfolding credentials_ok_def by (simp add: validateMQTT_def Let_def split: if_splits option.splits) argo+
  ultimately show ?thesis using that [OF Inr sec] sec by simp
qed

lemma schemes_network: "List.member secureMQTTSchemes s \<Longrightarrow> List.member network_schemes s"
  by (auto simp: secureMQTTSchemes_def network_schemes_def)

end
