(* ===== verification/Example_Config.thy ===== *)
theory Example_Config
  imports Validation
begin

section \<open>A concrete configuration\<close>

text \<open>
  The configuration of configs/config.example.yaml (with the loopback broker of the tests instead
  of a TLS one, so that no certificate file is needed), with the few answers of the library and of
  the file system its validation asks for. The concrete instances of the theorems are stated over it.
\<close>

definition ex_stdlib :: stdlib where
  "ex_stdlib = \<lparr>
     ParseDuration = (\<lambda>s. if s = ''30s'' then Some (30 * second) else if s = ''10s'' then Some (10 * second)
        else if s = ''5s'' then Some (5 * second) else if s = ''100ms'' then Some (100 * millisecond)
        else if s = ''50ms'' then Some (50 * millisecond) else None),
     url_Parse = (\<lambda>s. if s = ''tcp://127.0.0.1:1883'' then
        Some \<lparr>Scheme = ''tcp'', has_User = False, Host = ''127.0.0.1:1883'', URL_Path = [], RawPath = [],
              RawQuery = [], ForceQuery = False, Fragment = []\<rparr> else None),
     ParseIP = (\<lambda>s. if s = ''127.0.0.1'' then Some True else None),
     AppendCertsFromPEM = (\<lambda>_. False),
     X509KeyPair = (\<lambda>_ _. False)\<rparr>"

definition ex_info :: "file_kind \<Rightarrow> u32 \<Rightarrow> int \<Rightarrow> file_info" where
  "ex_info k m n = \<lparr>fi_kind = k, fi_mode = m, fi_uid = 0, fi_size = n\<rparr>"

definition ex_fs :: hostfs where
  "ex_fs = \<lparr>
     os_Open = (\<lambda>p. if p = ''/run/pw'' then
        Inr \<lparr>of_stat = Inr (ex_info Regular 0x180 7), of_read = Inr (''secret'' @ [CHR 0x0A])\<rparr>
        else Inl ''no such file''),
     os_Stat = (\<lambda>p. if p = ''/usr/bin/logger'' then Inr (ex_info Regular 0x1ED 1000) else Inl ''no such file'')\<rparr>"

definition ex_action :: Action where
  "ex_action = \<lparr>Act_Type = [], Act_GPIO = [], Value = None, Command = [], Args = [], WorkingDir = [], Env = [],
     Timeout = [], Duration = [], Topic = [], Payload = [], Act_QoS = None, Retain = False, IgnoreError = False\<rparr>"

definition ex_gpio_action :: "bool \<Rightarrow> Action" where
  "ex_gpio_action b = ex_action\<lparr>Act_Type := ''gpio'', Act_GPIO := ''relay'', Value := Some b\<rparr>"

definition ex_command :: Action where
  "ex_command = ex_action\<lparr>Act_Type := ''command'', Command := ''/usr/bin/logger'',
     Args := [''button pressed''], Timeout := ''5s''\<rparr>"

definition ex_delay :: Action where
  "ex_delay = ex_action\<lparr>Act_Type := ''delay'', Duration := ''100ms''\<rparr>"

definition ex_mqtt_action :: Action where
  "ex_mqtt_action = ex_action\<lparr>Act_Type := ''mqtt'', Topic := ''ctl/events'', Payload := ''button-pressed'',
     Act_QoS := Some 1\<rparr>"

definition ex_entity :: EntityConfig where
  "ex_entity = \<lparr>Ent_ID = [], Ent_Type = [], Ent_Name = [], Icon = [], DeviceClass = [], InitialState = None,
     State = \<lparr>State_Type = [], State_GPIO = []\<rparr>, Source = \<lparr>Source_Type = [], Source_GPIO = []\<rparr>,
     On = [], Off = [], Press = []\<rparr>"

definition ex_switch :: EntityConfig where
  "ex_switch = ex_entity\<lparr>Ent_ID := ''relay'', Ent_Type := ''switch'', Ent_Name := ''Example Relay'',
     Icon := ''mdi:electric-switch'', State := \<lparr>State_Type = ''gpio'', State_GPIO = ''relay''\<rparr>,
     On := [ex_gpio_action True], Off := [ex_gpio_action False]\<rparr>"

definition ex_button :: EntityConfig where
  "ex_button = ex_entity\<lparr>Ent_ID := ''announce'', Ent_Type := ''button'', Ent_Name := ''Example Announcement'',
     Press := [ex_command, ex_delay, ex_mqtt_action]\<rparr>"

definition ex_sensor :: EntityConfig where
  "ex_sensor = ex_entity\<lparr>Ent_ID := ''contact'', Ent_Type := ''binary_sensor'', Ent_Name := ''Example Contact'',
     DeviceClass := ''opening'', Source := \<lparr>Source_Type = ''gpio'', Source_GPIO = ''contact''\<rparr>\<rparr>"

definition ex_gpio :: GPIOConfig where
  "ex_gpio = \<lparr>
     Outputs = [(''relay'', \<lparr>Out_Chip = ''gpiochip0'', Out_Line = 17, Out_ActiveLow = False, Initial = False\<rparr>)],
     Inputs = [(''contact'', \<lparr>In_Chip = ''gpiochip0'', In_Line = 27, In_ActiveLow = False, Bias = ''pull_up'',
                              Debounce = ''50ms''\<rparr>)]\<rparr>"

definition ex_mqtt :: MQTTConfig where
  "ex_mqtt = \<lparr>Broker = ''tcp://127.0.0.1:1883'', Username = ''ctl'', Password = [], PasswordFile = ''/run/pw'',
     AllowUnauthenticated = False, AllowInsecureTransport = False,
     TLS = \<lparr>CAFile = [], CertFile = [], KeyFile = [], ServerName = [], MinVersion = []\<rparr>,
     ClientID = ''ctl'', BaseTopic = ''ctl'', QoS = Some 1, KeepAlive = ''30s'', ConnectTimeout = ''10s'',
     Discovery = \<lparr>Disc_Enabled = Some True, Disc_Prefix = ''homeassistant'', StateFile = ''/var/lib/ctl/state.json''\<rparr>\<rparr>"

definition ex_config :: Config where
  "ex_config = \<lparr>MQTT = ex_mqtt,
     Device = \<lparr>Dev_ID = ''ctl'', Dev_Name = ''Controller'', Manufacturer = ''m'', Model = ''m''\<rparr>,
     GPIO = ex_gpio, Entities = [ex_switch, ex_button, ex_sensor]\<rparr>"

lemmas ex_defs = ex_config_def ex_mqtt_def ex_gpio_def ex_switch_def ex_button_def ex_sensor_def ex_entity_def
  ex_action_def ex_gpio_action_def ex_command_def ex_delay_def ex_mqtt_action_def

lemma ex_validates: "Validate ex_stdlib ex_fs ex_config = None"
  by code_simp

lemma ex_valid: "valid_config ex_stdlib ex_config"
  by (rule Validate_sound [OF ex_validates])

end
