(* ===== verification/Config_Properties.thy ===== *)
theory Config_Properties
  imports Example_Config
begin

section \<open>What loading a configuration guarantees\<close>

text \<open>
  The properties of config/expansion.go, config/config.go and config/validation.go, each with a
  concrete instance over the configuration of \<^term>\<open>ex_config\<close>.
\<close>

section \<open>Lemmas\<close>

lemma scan_escape [simp]: "render lookup (scan (escape s @ r)) = map_sum id (\<lambda>t. s @ t) (render lookup (scan r))"
proof (induction s)
  case Nil
  show ?case by (cases "render lookup (scan r)") (simp_all add: escape_def)
next
  case (Cons c s)
  have "render lookup (scan (escape (c # s) @ r)) = map_sum id (\<lambda>t. [c] @ t) (render lookup (scan (escape s @ r)))"
    by (cases "c = CHR ''$''") (simp_all add: escape_def scan_lit append_Cons [abs_def])
  then show ?case unfolding Cons.IH by (cases "render lookup (scan r)") simp_all
qed

lemma IndexByte_append: "c \<notin> set n \<Longrightarrow> IndexByte (n @ c # r) c = Some (length n)"
  by (induction n) auto

lemma name_no_brace: "validEnvironmentName n \<Longrightarrow> CHR ''}'' \<notin> set n"
  by (cases n) (auto simp: validEnvironmentName_def isASCIILetter_def is_digit_def less_eq_char_def list_all_iff
      split: if_splits)

lemma scan_reference:
  "validEnvironmentName n \<Longrightarrow> scan (''${'' @ n @ ''}'' @ r) = Ref n # scan r"
  by (simp add: scan_ref IndexByte_append name_no_brace)

lemma applyDefaults_fields:
  "BaseTopic (MQTT (applyDefaults c)) = Trim (default_to (Dev_ID (Device c)) (BaseTopic (MQTT c))) ''/''"
  "Disc_Prefix (Discovery (MQTT (applyDefaults c)))
     = Trim (default_to DefaultDiscoveryPrefix (Disc_Prefix (Discovery (MQTT c)))) ''/''"
  by (simp_all add: applyDefaults_def Let_def)

lemma Trim_default_stable: "Trim s cs \<noteq> [] \<Longrightarrow> Trim (default_to d (Trim s cs)) cs = Trim s cs"
  by (simp add: default_to_def Trim_idem)

lemma applyDefaults_stable:
  assumes "BaseTopic (MQTT (applyDefaults c)) \<noteq> []" and "Disc_Prefix (Discovery (MQTT (applyDefaults c))) \<noteq> []"
  shows "applyDefaults (applyDefaults c) = applyDefaults c"
  using assms unfolding applyDefaults_fields
  by (simp add: applyDefaults_def Let_def comp_def case_prod_unfold Trim_default_stable)

lemma load_config_Inr:
  assumes "load_config L H lookup ReadFile decode path = Inr c"
  obtains b c0 c1 where "ReadFile path = Inr b" "decode b = Inr c0" "expandEnvironment lookup c0 = Inr c1"
    "c = applyDefaults c1" "Validate L H c = None"
  using assms by (auto simp: load_config_def Let_def split: sum.splits option.splits)

lemma scheme_check_plain:
  assumes "scheme_check L c u s False = None"
  shows "s = ''unix'' \<or> AllowInsecureTransport (MQTT c) \<or> isLiteralLoopback L (Hostname u)"
proof (rule ccontr)
  assume "\<not> ?thesis"
  with assms show False by (auto simp: scheme_check_def split: if_splits)
qed

lemma Validate_MQTT:
  assumes "Validate L H c = None"
  obtains secure where "validateMQTT L H c = Inr secure"
    "secure \<longrightarrow> (\<exists>t. MQTTTLSConfigOf L H c = Inr t)"
  using assms that by (cases "validateMQTT L H c"; cases "MQTTTLSConfigOf L H c")
    (auto simp: Validate_def Let_def simp del: checks_None_iff split: if_splits)

lemma Validate_transport:
  assumes "Validate L H c = None"
  shows "\<exists>u. BrokerURL L c = Inr u \<and> \<not> has_User u
    \<and> (let scheme = ToLowerASCII (Scheme u); secure = List.member secureMQTTSchemes scheme in
       (secure \<or> scheme = ''unix'' \<or> isLiteralLoopback L (Hostname u) \<or> AllowInsecureTransport (MQTT c))
       \<and> credentials_ok (MQTT c) secure \<and> (secure \<longrightarrow> (\<exists>t. MQTTTLSConfigOf L H c = Inr t)))"
proof -
  obtain secure where s: "validateMQTT L H c = Inr secure" "secure \<longrightarrow> (\<exists>t. MQTTTLSConfigOf L H c = Inr t)"
    using assms by (rule Validate_MQTT)
  obtain u where u: "BrokerURL L c = Inr u" "secure = List.member secureMQTTSchemes (ToLowerASCII (Scheme u))"
    "\<not> has_User u" "scheme_check L c u (ToLowerASCII (Scheme u)) secure = None" "credentials_ok (MQTT c) secure"
    using s(1) by (rule validateMQTT_Inr)
  show ?thesis
    using u s(2) scheme_check_plain [of L c u "ToLowerASCII (Scheme u)"]
    unfolding Let_def by (intro exI [of _ u]) (cases secure; simp; blast)
qed

lemma bounded_read:
  assumes "readBoundedRegularFile H path limit True = Inr b"
  obtains f info where "os_Open H path = Inr f" "of_stat f = Inr info" "of_read f = Inr b"
    "IsRegular info" "Perm info \<in> {0x100, 0x180, 0x1A0}" "fi_mode info AND set_bits = 0" "int (length b) \<le> limit"
proof -
  obtain f info where "os_Open H path = Inr f" "of_stat f = Inr info" "IsRegular info"
    "Perm info \<in> {0x100, 0x180, 0x1A0}" "fi_mode info AND set_bits = 0"
    and r: "(case of_read f of Inl e \<Rightarrow> Inl (FRead e) | Inr content \<Rightarrow>
        (let b = take (nat (limit + 1)) content in if int (length b) > limit then Inl (FTooBig limit) else Inr b)) = Inr b"
    using assms unfolding readBoundedRegularFile_def by (auto split: sum.splits if_splits)
  moreover from r obtain content where "of_read f = Inr content" "b = take (nat (limit + 1)) content"
    "int (length b) \<le> limit"
    by (auto simp: Let_def split: sum.splits if_splits)
  moreover from this have "b = content" by (auto simp: min_def split: if_splits)
  ultimately show ?thesis using that [of f info] by simp
qed

lemma butlast_snoc_last: "b \<noteq> [] \<Longrightarrow> last b = c \<Longrightarrow> b = butlast b @ [c]"
  by (metis append_butlast_last_id)

lemma strip_eol:
  "\<exists>eol \<in> {[], [CHR 0x0A], [CHR 0x0D, CHR 0x0A]}. b =
     (if b \<noteq> [] \<and> last b = CHR 0x0A
      then (let b0 = butlast b in if b0 \<noteq> [] \<and> last b0 = CHR 0x0D then butlast b0 else b0) else b) @ eol"
proof (cases "b \<noteq> [] \<and> last b = CHR 0x0A")
  case True
  then have b: "b = butlast b @ [CHR 0x0A]" by (auto intro: butlast_snoc_last)
  show ?thesis
  proof (cases "butlast b \<noteq> [] \<and> last (butlast b) = CHR 0x0D")
    case cr: True
    then have "butlast b = butlast (butlast b) @ [CHR 0x0D]" by (auto intro: butlast_snoc_last)
    with b have "b = butlast (butlast b) @ [CHR 0x0D, CHR 0x0A]"
      by (metis append_Cons append_Nil append_assoc)
    then show ?thesis using True cr by (auto simp: Let_def)
  next
    case False
    then show ?thesis using True b by (auto simp: Let_def)
  qed
qed auto

section \<open>Properties\<close>

subsection \<open>Environment expansion\<close>

text \<open>
  C30. \<open>expandValue\<close>, an index loop over the bytes that copies into a builder, computes what the
  two-pass reference does: cut the value into literals and references, then render the references,
  stopping at the first one without a value.
\<close>

theorem expandValue_is_scanner: "expandValue v lookup = go_pair (render lookup (scan v))"
  by (rule expandValue_scan)

text \<open>
  C31. A substituted value is inserted verbatim and never scanned again: around any escaped text, a
  reference to a variable that is set yields exactly its value, whatever dollar signs and braces
  that value contains.
\<close>

theorem expandValue_verbatim:
  assumes "validEnvironmentName n" and "lookup n = Some v"
  shows "expandValue (escape a @ ''${'' @ n @ ''}'' @ escape b) lookup = (a @ v @ b, [])"
proof -
  have "render lookup (scan (escape b)) = Inr b"
    using scan_escape [of lookup b "[]"] by simp
  then show ?thesis
    unfolding expandValue_scan scan_escape scan_reference [OF assms(1)]
    by (simp add: assms(2) go_pair_def)
qed

theorem expandValue_verbatim_witness:
  "expandValue ''a$$${HOME}$$'' (\<lambda>_. Some ''${X}'') = (''a$'' @ ''${X}'' @ ''$'', [])"
  using expandValue_verbatim [of "''HOME''" "\<lambda>_. Some ''${X}''" "''${X}''" "''a$''" "''$''"]
  by (simp add: escape_def validEnvironmentName_def isASCIILetter_def less_eq_char_def)

text \<open>
  C15. Expanding a configuration is expanding each of its strings: when every string resolves, the
  result is the configuration with each string replaced; otherwise the error names a variable that
  is not set. In particular no string field is forgotten.
\<close>

theorem expandEnvironment_refines:
  assumes "wf_config_maps c"
  shows "if list_all (resolves lookup) (config_strings c)
         then expandEnvironment lookup c = Inr (map_config (resolved lookup) c)
         else \<exists>path n. expandEnvironment lookup c = Inl (MissingVariable path n) \<and> lookup n = None"
  using expandEnvironment_meets [OF assms, of lookup] by (auto simp: meets_def)

theorem expandEnvironment_refines_witness:
  "expandEnvironment (\<lambda>_. Some ''pi'') (ex_config\<lparr>Entities := [ex_switch\<lparr>Ent_Name := ''${HOST} relay''\<rparr>]\<rparr>)
   = Inr (map_config (resolved (\<lambda>_. Some ''pi'')) (ex_config\<lparr>Entities := [ex_switch\<lparr>Ent_Name := ''${HOST} relay''\<rparr>]\<rparr>))"
proof -
  have "wf_config_maps (ex_config\<lparr>Entities := [ex_switch\<lparr>Ent_Name := ''${HOST} relay''\<rparr>]\<rparr>)"
    by (simp add: wf_config_maps_def wf_entity_maps_def wf_action_maps_def wf_map_def ex_defs)
  from expandEnvironment_refines [OF this, of "\<lambda>_. Some ''pi''"] show ?thesis
    by (simp split: if_splits)
qed

subsection \<open>Validation\<close>

text \<open>
  C14. \<open>validateGPIO\<close> accepts a GPIO section exactly when every name matches the identifier
  pattern, every line offset is non-negative, every bias and debounce is legal and no two entries,
  outputs or inputs, claim the same line of the same chip; so the order in which Go ranges over the
  two maps cannot change the verdict.
\<close>

theorem validateGPIO_exact: "validateGPIO L g = None \<longleftrightarrow> gpio_ok L g"
  by (rule validateGPIO_iff)

text \<open>
  C12. Whatever \<open>Load\<close> returns is a valid configuration with its defaults applied: identifiers
  and topics are well formed, entity identifiers are distinct, every action refers to an output that
  exists and carries the fields its kind needs, GPIO lines are unique; and the base topic and, with
  discovery on, the discovery prefix carry no leading or trailing slash and are left alone by a
  second application of the defaults.
\<close>

theorem load_config_sound:
  assumes "load_config L H lookup ReadFile decode path = Inr c"
  shows "valid_config L c \<and> hd (BaseTopic (MQTT c)) \<noteq> CHR ''/'' \<and> last (BaseTopic (MQTT c)) \<noteq> CHR ''/''
    \<and> (DiscoveryEnabled c \<longrightarrow> applyDefaults c = c)"
proof -
  obtain c1 where c: "c = applyDefaults c1" and "Validate L H c = None"
    using assms by (rule load_config_Inr)
  then have valid: "valid_config L c" by (intro Validate_sound)
  then have topic: "BaseTopic (MQTT c) \<noteq> []" by (simp add: valid_config_def topic_ok_def)
  have "applyDefaults c = c" if "DiscoveryEnabled c"
    unfolding c
    by (rule applyDefaults_stable; use valid that in \<open>simp add: valid_config_def topic_ok_def c\<close>)
  with valid topic Trim_ends [of _ "''/''"] show ?thesis
    unfolding c applyDefaults_fields by auto
qed

theorem load_config_sound_witness:
  "\<exists>c. load_config ex_stdlib ex_fs Map.empty (\<lambda>_. Inr []) (\<lambda>_. Inr ex_config) ''/etc/c.yaml'' = Inr c
     \<and> valid_config ex_stdlib c"
proof -
  have "load_config ex_stdlib ex_fs Map.empty (\<lambda>_. Inr []) (\<lambda>_. Inr ex_config) ''/etc/c.yaml'' = Inr ex_config"
    by code_simp
  with load_config_sound [OF this] show ?thesis by blast
qed

text \<open>
  C13. A configuration that passes validation never sends credentials over a plaintext network
  connection by accident: the broker URL carries no user info, and unless the scheme is one of the
  TLS schemes the connection is a Unix socket, goes to a loopback address, or the operator has set
  \<open>allow_insecure_transport\<close>. A client certificate is configured only with a TLS scheme, and
  exactly the configurations without credentials carry \<open>allow_unauthenticated\<close>.
\<close>

theorem Validate_transport_safe:
  assumes "Validate L H c = None"
  shows "\<exists>u. BrokerURL L c = Inr u \<and> \<not> has_User u
    \<and> (let scheme = ToLowerASCII (Scheme u); secure = List.member secureMQTTSchemes scheme in
       (secure \<or> scheme = ''unix'' \<or> isLiteralLoopback L (Hostname u) \<or> AllowInsecureTransport (MQTT c))
       \<and> credentials_ok (MQTT c) secure \<and> (secure \<longrightarrow> (\<exists>t. MQTTTLSConfigOf L H c = Inr t)))"
  by (rule Validate_transport [OF assms])

theorem Validate_transport_safe_witness:
  "\<exists>u. BrokerURL ex_stdlib ex_config = Inr u \<and> \<not> has_User u"
  using Validate_transport_safe [OF ex_validates] by (auto simp: Let_def)

text \<open>
  C32. A password read from a file comes from a regular file of mode 0400, 0600 or 0640 without
  set-id or sticky bits and of at most 64 KiB; it is the whole content less one final line end (LF
  or CR LF), is not empty and holds no NUL byte.
\<close>

theorem MQTTPassword_guarded:
  assumes "PasswordFile (MQTT c) \<noteq> []" and "MQTTPassword H c = Inr pw"
  shows "\<exists>f info b eol. os_Open H (PasswordFile (MQTT c)) = Inr f \<and> of_stat f = Inr info \<and> of_read f = Inr b
    \<and> IsRegular info \<and> Perm info \<in> {0x100, 0x180, 0x1A0} \<and> fi_mode info AND set_bits = 0
    \<and> int (length b) \<le> maxCredentialFileSize \<and> pw \<noteq> [] \<and> \<not> has_nul pw
    \<and> b = pw @ eol \<and> eol \<in> {[], [CHR 0x0A], [CHR 0x0D, CHR 0x0A]}"
proof -
  obtain b where b: "readBoundedRegularFile H (PasswordFile (MQTT c)) maxCredentialFileSize True = Inr b"
    using assms by (cases "readBoundedRegularFile H (PasswordFile (MQTT c)) maxCredentialFileSize True")
      (auto simp: MQTTPassword_def)
  obtain f info where f: "os_Open H (PasswordFile (MQTT c)) = Inr f" "of_stat f = Inr info" "of_read f = Inr b"
    "IsRegular info" "Perm info \<in> {0x100, 0x180, 0x1A0}" "fi_mode info AND set_bits = 0"
    "int (length b) \<le> maxCredentialFileSize"
    using bounded_read [OF b] by auto
  obtain eol where "b = pw @ eol" "eol \<in> {[], [CHR 0x0A], [CHR 0x0D, CHR 0x0A]}" "pw \<noteq> []" "\<not> has_nul pw"
    using assms b strip_eol [of b] unfolding MQTTPassword_def Let_def by (auto split: if_splits)
  with f show ?thesis by blast
qed

theorem MQTTPassword_guarded_witness:
  "MQTTPassword ex_fs ex_config = Inr ''secret'' \<and> \<not> has_nul ''secret''"
proof -
  have "MQTTPassword ex_fs ex_config = Inr ''secret''" by code_simp
  moreover have "PasswordFile (MQTT ex_config) \<noteq> []" by (simp add: ex_defs)
  ultimately show ?thesis using MQTTPassword_guarded by blast
qed

end
