(* ===== verification/Simulated_World.thy ===== *)
theory Simulated_World
  imports Environment
begin

section \<open>A simulated world\<close>

text \<open>
  One concrete environment, for the instances of the theorems: a broker that takes and acknowledges
  every message, lines that remember what was written, a disk on which every operation succeeds and
  a renamed file is read back, a clock that advances one second per event, processes that succeed.
\<close>

text \<open>A handle above every handle the trace mentions, so that it is fresh.\<close>

fun handle_bound :: "nat \<Rightarrow> event \<Rightarrow> nat" where
  "handle_bound n (EvLineRequest c l opts (Inr h)) = max n (Suc h)"
| "handle_bound n e = n"

definition next_handle :: "trace \<Rightarrow> nat" where
  "next_handle w = foldl handle_bound 0 w"

text \<open>The level of a line: the last value written, 0 before.\<close>

fun level_event :: "nat \<Rightarrow> int \<Rightarrow> event \<Rightarrow> int" where
  "level_event h v (EvLineSet h' v' None) = (if h' = h then v' else v)"
| "level_event h v e = v"

definition level :: "nat \<Rightarrow> trace \<Rightarrow> int" where
  "level h w = foldl (level_event h) 0 w"

definition sim_info :: "file_kind \<Rightarrow> u32 \<Rightarrow> file_info" where
  "sim_info k mode = \<lparr>fi_kind = k, fi_mode = mode, fi_uid = 0, fi_size = 0\<rparr>"

definition sim_env :: env where
  "sim_env = \<lparr>
     e_now = (\<lambda>w. 1000000000 * int (length w)),
     e_ctx = (\<lambda>w c. None),
     e_connected = (\<lambda>w. True),
     e_connect = (\<lambda>w. None),
     e_publish = (\<lambda>w t p q r d. (Completed, True)),
     e_subscribe = (\<lambda>w t q. Completed),
     e_callbacks = (\<lambda>w. True),
     e_line_request = (\<lambda>w c l opts. Inr (next_handle w)),
     e_line_set = (\<lambda>w h v. None),
     e_line_value = (\<lambda>w h. Inr (level h w)),
     e_line_close = (\<lambda>w h. None),
     e_open_executable = (\<lambda>w p. Inr (sim_info Regular 0x1ED)),
     e_stat = (\<lambda>w p. Inr (sim_info Regular 0x1ED)),
     e_start = (\<lambda>w p args dir en. Inr 42),
     e_select = (\<lambda>w. CommandDone),
     e_wait = (\<lambda>w. (None, None)),
     e_find_process = (\<lambda>w pid. None),
     e_output = (\<lambda>w. []),
     e_signal = (\<lambda>w pid s. None),
     e_delay = (\<lambda>w d. True),
     e_disk = (\<lambda>w d. None),
     e_symlinks = (\<lambda>w p. Inr p),
     e_lstat = (\<lambda>w p. Inr (sim_info Directory 0x1C0)),
     e_fstat = (\<lambda>w p. Inr (sim_info Regular 0x180)),
     e_open_state = (\<lambda>w p. case stored p w of None \<Rightarrow> Inl None | Some b \<Rightarrow> Inr b),
     e_euid = 0\<rparr>"

section \<open>Lemmas\<close>

lemma next_handle_snoc [simp]: "next_handle (w @ [e]) = handle_bound (next_handle w) e"
  by (simp add: next_handle_def)

lemma level_snoc [simp]: "level h (w @ [e]) = level_event h (level h w) e"
  by (simp add: level_def)

end
