(* ===== verification/Mqtt_Client.thy ===== *)
theory Mqtt_Client
  imports Rate_Limit Config_Properties Simulated_World
begin

section \<open>The MQTT client (mqtt/client.go)\<close>

text \<open>
  The wrapper around the Paho transport: registered subscriptions and handlers, the connect
  callback that rebuilds a clean session, publication with a timeout, the size limit on incoming
  payloads and the shutdown sequence. Handlers are Go closures; the model is polymorphic in them
  (\<open>'h\<close> for message handlers, \<open>'s\<close> and \<open>'k\<close> for session and connect handlers) and takes the
  functions that run them on the application state as arguments. The transport itself is the
  environment; \<open>transport\<close> says whether the field is set.
\<close>

definition MaxCommandPayload :: int where
  "MaxCommandPayload = 4096"

record Message =
  M_Topic :: string
  M_Payload :: bytes
  M_Retained :: bool
  M_Duplicate :: bool
  M_QoS :: u8
  M_MessageID :: u16

record paho_message =
  p_Topic :: string
  p_Payload :: bytes
  p_Retained :: bool
  p_Duplicate :: bool
  p_Qos :: u8
  p_MessageID :: u16

record ('h, 's, 'k) Client =
  cl_cfg :: Config
  brokerLog :: string
  transport :: bool
  subscribers :: "'h gomap"
  onSession :: "'s list"
  onConnect :: "'k list"
  cl_accepting :: bool
  callbacks :: nat
  cl_rejectedLog :: rateLimitedLog

record ClientOptions =
  opt_Broker :: string
  opt_ClientID :: string
  opt_Username :: string
  opt_Password :: string
  opt_CleanSession :: bool
  opt_AutoReconnect :: bool
  opt_ConnectRetry :: bool
  opt_ConnectTimeout :: duration
  opt_KeepAlive :: duration
  opt_PingTimeout :: duration
  opt_OrderMatters :: bool
  opt_TLS :: "tls_config option"
  opt_Will :: "string \<times> bytes \<times> u8 \<times> bool"

datatype client_error =
    InvalidConfig validation_error | ConnectFailed string
  | AlreadyRegistered string | ClientShuttingDown | SubscriptionTimedOut string | SubscribeFailed string
  | NotConnected | PublishTimedOut string | PublishFailed string string
  | CallbacksTimedOut duration | ShutdownTimedOut duration "client_error option" | OfflineFailed client_error

subsection \<open>Construction\<close>

definition StatusTopic :: "Config \<Rightarrow> string" where
  "StatusTopic cfg = BaseTopic (MQTT cfg) @ ''/status''"

definition tls_schemes :: "string list" where
  "tls_schemes = [''ssl'', ''tls'', ''mqtts'', ''mqtt+ssl'', ''tcps'', ''wss'']"

definition new_client :: "Config \<Rightarrow> string \<Rightarrow> ('h, 's, 'k) Client" where
  "new_client cfg addr = \<lparr>cl_cfg = cfg, brokerLog = addr, transport = True, subscribers = [], onSession = [],
     onConnect = [], cl_accepting = True, callbacks = 0, cl_rejectedLog = new_rateLimitedLog\<rparr>"

definition base_options :: "stdlib \<Rightarrow> Config \<Rightarrow> string \<Rightarrow> tls_config option \<Rightarrow> ClientOptions" where
  "base_options L cfg password tls = \<lparr>opt_Broker = Broker (MQTT cfg), opt_ClientID = ClientID (MQTT cfg),
     opt_Username = Username (MQTT cfg), opt_Password = password, opt_CleanSession = True,
     opt_AutoReconnect = True, opt_ConnectRetry = False, opt_ConnectTimeout = MQTTConnectTimeout L cfg,
     opt_KeepAlive = MQTTKeepAlive L cfg, opt_PingTimeout = 10 * second, opt_OrderMatters = True,
     opt_TLS = tls, opt_Will = (StatusTopic cfg, ''offline'', MQTTQoS cfg, True)\<rparr>"

definition Client_New :: "stdlib \<Rightarrow> hostfs \<Rightarrow> Config \<Rightarrow> client_error + (('h, 's, 'k) Client \<times> ClientOptions)" where
  "Client_New L H cfg =
     (case Validate L H cfg of
        Some e \<Rightarrow> Inl (InvalidConfig e)
      | None \<Rightarrow>
          (case MQTTPassword H cfg of
             Inl e \<Rightarrow> Inl (InvalidConfig e)
           | Inr password \<Rightarrow>
               (case BrokerLogAddress L cfg of
                  Inl e \<Rightarrow> Inl (InvalidConfig e)
                | Inr addr \<Rightarrow>
                    (case BrokerURL L cfg of
                       Inl e \<Rightarrow> Inl (InvalidConfig e)
                     | Inr u \<Rightarrow>
                         if List.member tls_schemes (ToLowerASCII (Scheme u)) then
                           (case MQTTTLSConfigOf L H cfg of
                              Inl e \<Rightarrow> Inl (InvalidConfig e)
                            | Inr tls \<Rightarrow> Inr (new_client cfg addr, base_options L cfg password (Some tls)))
                         else Inr (new_client cfg addr, base_options L cfg password None)))))"

definition Connect :: "env \<Rightarrow> trace \<Rightarrow> client_error option \<times> trace" where
  "Connect E w = (map_option ConnectFailed (e_connect E w), w @ [EvConnect (e_connect E w)])"

subsection \<open>Publishing and subscribing\<close>

definition is_connected :: "env \<Rightarrow> ('h, 's, 'k) Client \<Rightarrow> trace \<Rightarrow> bool \<times> trace" where
  "is_connected E cl w = (if transport cl then ask_connected E w else (False, w))"

definition publishWithTimeout ::
  "env \<Rightarrow> ('h, 's, 'k) Client \<Rightarrow> string \<Rightarrow> bytes \<Rightarrow> u8 \<Rightarrow> bool \<Rightarrow> duration \<Rightarrow> trace \<Rightarrow> client_error option \<times> trace" where
  "publishWithTimeout E cl topic payload qos retain timeout w =
     (let (connected, w1) = is_connected E cl w
      in if \<not> connected then (Some NotConnected, w1)
         else if timeout \<le> 0 then (Some (PublishTimedOut topic), w1)
         else (let (rep, taken) = e_publish E w1 topic payload qos retain timeout;
                   w2 = w1 @ [EvPublish topic payload qos retain rep taken]
               in (case rep of Completed \<Rightarrow> None | TimedOut \<Rightarrow> Some (PublishTimedOut topic)
                     | Failed e \<Rightarrow> Some (PublishFailed topic e), w2)))"

definition Publish ::
  "env \<Rightarrow> ('h, 's, 'k) Client \<Rightarrow> string \<Rightarrow> bytes \<Rightarrow> u8 \<Rightarrow> bool \<Rightarrow> trace \<Rightarrow> client_error option \<times> trace" where
  "Publish E cl topic payload qos retain w = publishWithTimeout E cl topic payload qos retain (5 * second) w"

definition subscribeWithClient ::
  "env \<Rightarrow> ('h, 's, 'k) Client \<Rightarrow> string \<Rightarrow> trace \<Rightarrow> client_error option \<times> trace" where
  "subscribeWithClient E cl topic w =
     (let qos = MQTTQoS (cl_cfg cl); rep = e_subscribe E w topic qos; w1 = w @ [EvSubscribe topic qos rep]
      in (case rep of Completed \<Rightarrow> None | TimedOut \<Rightarrow> Some (SubscriptionTimedOut topic)
            | Failed e \<Rightarrow> Some (SubscribeFailed e), w1))"

definition RegisterSubscription ::
  "env \<Rightarrow> string \<Rightarrow> 'h \<Rightarrow> ('h, 's, 'k) Client \<Rightarrow> trace \<Rightarrow> client_error option \<times> ('h, 's, 'k) Client \<times> trace" where
  "RegisterSubscription E topic handler cl w =
     (if map_of (subscribers cl) topic \<noteq> None then (Some (AlreadyRegistered topic), cl, w)
      else if \<not> cl_accepting cl then (Some ClientShuttingDown, cl, w)
      else (let cl1 = cl\<lparr>subscribers := put topic handler (subscribers cl)\<rparr>;
                (connected, w1) = is_connected E cl1 w
            in if connected then (let (e, w2) = subscribeWithClient E cl1 topic w1 in (e, cl1, w2))
               else (None, cl1, w1)))"

definition AddConnectHandler :: "'k \<Rightarrow> ('h, 's, 'k) Client \<Rightarrow> ('h, 's, 'k) Client" where
  "AddConnectHandler handler cl = (if cl_accepting cl then cl\<lparr>onConnect := onConnect cl @ [handler]\<rparr> else cl)"

definition AddSessionHandler :: "'s \<Rightarrow> ('h, 's, 'k) Client \<Rightarrow> ('h, 's, 'k) Client" where
  "AddSessionHandler handler cl = (if cl_accepting cl then cl\<lparr>onSession := onSession cl @ [handler]\<rparr> else cl)"

subsection \<open>Callbacks\<close>

definition StopAccepting :: "('h, 's, 'k) Client \<Rightarrow> ('h, 's, 'k) Client" where
  "StopAccepting cl = cl\<lparr>cl_accepting := False\<rparr>"

definition Client_beginCallback :: "('h, 's, 'k) Client \<Rightarrow> bool \<times> ('h, 's, 'k) Client" where
  "Client_beginCallback cl =
     (if \<not> cl_accepting cl then (False, cl) else (True, cl\<lparr>callbacks := callbacks cl + 1\<rparr>))"

definition callback_done :: "('h, 's, 'k) Client \<Rightarrow> ('h, 's, 'k) Client" where
  "callback_done cl = cl\<lparr>callbacks := callbacks cl - 1\<rparr>"

text \<open>Run handlers in order; each call leaves a mark in the trace.\<close>

fun run_handlers :: "event \<Rightarrow> ('c \<Rightarrow> 'a \<Rightarrow> trace \<Rightarrow> 'a \<times> trace) \<Rightarrow> 'c list \<Rightarrow> 'a \<Rightarrow> trace \<Rightarrow> 'a \<times> trace" where
  "run_handlers mark run [] st w = (st, w)"
| "run_handlers mark run (h # hs) st w =
     (let (st1, w1) = run h st (w @ [mark]) in run_handlers mark run hs st1 w1)"

text \<open>Subscribe to every topic of the snapshot; an error is logged and the loop goes on.\<close>

fun subscribe_all :: "env \<Rightarrow> ('h, 's, 'k) Client \<Rightarrow> string list \<Rightarrow> trace \<Rightarrow> trace" where
  "subscribe_all E cl [] w = w"
| "subscribe_all E cl (topic # topics) w = subscribe_all E cl topics (snd (subscribeWithClient E cl topic w))"

definition handleConnect ::
  "env \<Rightarrow> ('s \<Rightarrow> 'a \<Rightarrow> trace \<Rightarrow> 'a \<times> trace) \<Rightarrow> ('k \<Rightarrow> 'a \<Rightarrow> trace \<Rightarrow> 'a \<times> trace)
    \<Rightarrow> ('h, 's, 'k) Client \<Rightarrow> 'a \<Rightarrow> trace \<Rightarrow> ('h, 's, 'k) Client \<times> 'a \<times> trace" where
  "handleConnect E run_session run_connect cl st w =
     (let (ok, cl1) = Client_beginCallback cl
      in if \<not> ok then (cl1, st, w)
         else (let (st1, w1) = run_handlers EvSession run_session (onSession cl1) st w;
                   w2 = subscribe_all E cl1 (map fst (subscribers cl1)) w1;
                   (_, w3) = Publish E cl1 (StatusTopic (cl_cfg cl1)) ''online'' (MQTTQoS (cl_cfg cl1)) True w2;
                   (st2, w4) = run_handlers EvConnectHandler run_connect (onConnect cl1) st1 w3
               in (callback_done cl1, st2, w4)))"

definition messageFromPaho :: "paho_message \<Rightarrow> Message" where
  "messageFromPaho m = \<lparr>M_Topic = p_Topic m, M_Payload = p_Payload m, M_Retained = p_Retained m,
     M_Duplicate = p_Duplicate m, M_QoS = p_Qos m, M_MessageID = p_MessageID m\<rparr>"

definition dispatchMessage ::
  "env \<Rightarrow> ('h \<Rightarrow> Message \<Rightarrow> 'a \<Rightarrow> trace \<Rightarrow> 'a \<times> trace) \<Rightarrow> 'h \<Rightarrow> paho_message
    \<Rightarrow> ('h, 's, 'k) Client \<Rightarrow> 'a \<Rightarrow> trace \<Rightarrow> bool \<times> ('h, 's, 'k) Client \<times> 'a \<times> trace" where
  "dispatchMessage E run handler m cl st w =
     (if int (length (p_Payload m)) > MaxCommandPayload then
        (let (now, w1) = ask_now E w;
             (_, l) = rate_printf (''reject MQTT message topic='' @ p_Topic m) (cl_rejectedLog cl) now
         in (False, cl\<lparr>cl_rejectedLog := l\<rparr>, st, w1))
      else (let (st1, w1) = run handler (messageFromPaho m) st w in (True, cl, st1, w1)))"

text \<open>The closure given to the transport by \<open>subscribeWithClient\<close>.\<close>

definition on_message ::
  "env \<Rightarrow> ('h \<Rightarrow> Message \<Rightarrow> 'a \<Rightarrow> trace \<Rightarrow> 'a \<times> trace) \<Rightarrow> 'h \<Rightarrow> paho_message
    \<Rightarrow> ('h, 's, 'k) Client \<Rightarrow> 'a \<Rightarrow> trace \<Rightarrow> ('h, 's, 'k) Client \<times> 'a \<times> trace" where
  "on_message E run handler m cl st w =
     (let (ok, cl1) = Client_beginCallback cl
      in if \<not> ok then (cl1, st, w)
         else (let (_, cl2, st1, w1) = dispatchMessage E run handler m cl1 st w in (callback_done cl2, st1, w1)))"

subsection \<open>Shutdown\<close>

definition Client_Close ::
  "env \<Rightarrow> duration \<Rightarrow> ('h, 's, 'k) Client \<Rightarrow> trace \<Rightarrow> client_error option \<times> ('h, 's, 'k) Client \<times> trace" where
  "Client_Close E timeout cl w =
     (let (start, w1) = ask_now E w; deadline = start + timeout; cl1 = StopAccepting cl;
          finished = e_callbacks E w1; w2 = w1 @ [EvCallbacks finished]
      in if \<not> finished then (Some (CallbacksTimedOut timeout), cl1, w2)
         else (let (connected, w3) = is_connected E cl1 w2
               in if \<not> connected then (None, cl1, w3)
                  else (let (now, w4) = ask_now E w3; remaining = deadline - now
                        in if remaining \<le> 0 then (Some (ShutdownTimedOut timeout None), cl1, w4)
                           else (let (publishErr, w5) = publishWithTimeout E cl1 (StatusTopic (cl_cfg cl1)) ''offline''
                                       (MQTTQoS (cl_cfg cl1)) True (min (5 * second) remaining) w4;
                                     (now2, w6) = ask_now E w5; remaining2 = deadline - now2
                                 in if remaining2 \<le> 0 then (Some (ShutdownTimedOut timeout publishErr), cl1, w6)
                                    else (let quiesce = min (500 * millisecond) remaining2;
                                              w7 = w6 @ [EvDisconnect (nat (quiesce div millisecond))]
                                          in (map_option OfflineFailed publishErr, cl1, w7))))))"

definition ex_client :: "(string, nat, nat) Client" where
  "ex_client = (new_client ex_config ''tcp://127.0.0.1:1883'')\<lparr>subscribers := [(''ctl/relay/set'', ''h'')],
     onSession := [1], onConnect := [2]\<rparr>"

fun is_subscribe :: "event \<Rightarrow> bool" where
  "is_subscribe (EvSubscribe t q r) = True"
| "is_subscribe e = False"

section \<open>Publishing as an interface\<close>

text \<open>
  What the controller, the executor and the discovery reconciler rely on: a publication puts at
  most one message on the wire, succeeds only when the broker's acknowledgement arrived in time,
  and does nothing else to the world. \<open>honest\<close> stands for a broker that acknowledges (QoS 1 or 2)
  only what it has taken.
\<close>

definition broker_acks :: "env \<Rightarrow> bool" where
  "broker_acks E \<longleftrightarrow> (\<forall>w t p q r d tk. q \<noteq> 0 \<longrightarrow> e_publish E w t p q r d = (Completed, tk) \<longrightarrow> tk)"

definition retain_effect :: "string \<Rightarrow> bytes \<Rightarrow> (string \<rightharpoonup> bytes) \<Rightarrow> (string \<rightharpoonup> bytes)" where
  "retain_effect t p m = (if p = [] then m(t := None) else m(t \<mapsto> p))"

lemma retained_publish:
  "retained (w @ [EvConnected b, EvPublish t p q True rep tk]) = (if tk then retain_effect t p (retained w) else retained w)"
  "retained (w @ [EvConnected b]) = retained w"
  by (cases tk) (simp_all add: retained_def retain_effect_def)

locale publisher =
  fixes pub :: "string \<Rightarrow> bytes \<Rightarrow> u8 \<Rightarrow> bool \<Rightarrow> trace \<Rightarrow> client_error option \<times> trace"
    and honest :: bool
  assumes pub_cases: "pub t p q r w = (e, w') \<Longrightarrow>
      e \<noteq> None \<and> (w' = w \<or> (\<exists>b. w' = w @ [EvConnected b]))
      \<or> (\<exists>rep tk. w' = w @ [EvConnected True, EvPublish t p q r rep tk] \<and> (e = None \<longleftrightarrow> rep = Completed)
            \<and> (honest \<and> q \<noteq> 0 \<and> rep = Completed \<longrightarrow> tk))"
begin

lemma pub_ext:
  assumes "\<And>b. P (EvConnected b)" and "\<And>rep tk. P (EvPublish t p q r rep tk)"
  shows "extends P w (snd (pub t p q r w))"
proof -
  obtain e w' where "pub t p q r w = (e, w')" by (cases "pub t p q r w")
  then show ?thesis using pub_cases [of t p q r w e w'] assms by (auto simp: extends_def)
qed

lemma pub_stored: "stored path (snd (pub t p q r w)) = stored path w"
  by (rule stored_frame, rule pub_ext) simp_all

lemma pub_retained:
  "retained (snd (pub t p q True w)) \<in> {retained w, retain_effect t p (retained w)}"
proof -
  obtain e w' where pub: "pub t p q True w = (e, w')" by (cases "pub t p q True w")
  from pub_cases [OF pub] have "retained w' \<in> {retained w, retain_effect t p (retained w)}"
    by (elim disjE exE conjE) (simp_all add: retained_publish)
  then show ?thesis by (simp add: pub)
qed

lemma pub_retained_ok:
  assumes "pub t p q True w = (None, w')" and "honest" and "q \<noteq> 0"
  shows "retained w' = retain_effect t p (retained w)"
  using pub_cases [OF assms(1)] assms(2,3) by (auto simp: retained_publish)

end

lemma Publish_cases:
  "Publish E cl t p q r w = (e, w') \<Longrightarrow>
     e \<noteq> None \<and> (w' = w \<or> (\<exists>b. w' = w @ [EvConnected b]))
     \<or> (\<exists>rep tk. w' = w @ [EvConnected True, EvPublish t p q r rep tk] \<and> (e = None \<longleftrightarrow> rep = Completed)
           \<and> (broker_acks E \<and> q \<noteq> 0 \<and> rep = Completed \<longrightarrow> tk))"
proof -
  assume pub: "Publish E cl t p q r w = (e, w')"
  let ?w1 = "w @ [EvConnected True]"
  obtain rep tk where ans: "e_publish E ?w1 t p q r (5 * second) = (rep, tk)" by fastforce
  show ?thesis
  proof (cases "transport cl \<and> e_connected E w")
    case False
    with pub show ?thesis
      by (auto simp: Publish_def publishWithTimeout_def is_connected_def ask_connected_def split: if_splits)
  next
    case True
    with pub ans have "w' = w @ [EvConnected True, EvPublish t p q r rep tk]" "e = None \<longleftrightarrow> rep = Completed"
      by (auto simp: Publish_def publishWithTimeout_def is_connected_def ask_connected_def second_def split: report.splits)
    moreover have "broker_acks E \<and> q \<noteq> 0 \<and> rep = Completed \<longrightarrow> tk"
      using ans unfolding broker_acks_def by blast
    ultimately show ?thesis by blast
  qed
qed

interpretation client: publisher "Publish E cl" "broker_acks E" for E cl
  by unfold_locales (rule Publish_cases)

section \<open>Lemmas\<close>

lemma subscribe_all_trace:
  "\<exists>reps. length reps = length ts
     \<and> subscribe_all E cl ts w = w @ map2 (\<lambda>t r. EvSubscribe t (MQTTQoS (cl_cfg cl)) r) ts reps"
proof (induction ts arbitrary: w)
  case (Cons t ts)
  let ?r = "e_subscribe E w t (MQTTQoS (cl_cfg cl))"
  let ?w = "w @ [EvSubscribe t (MQTTQoS (cl_cfg cl)) ?r]"
  obtain reps where "length reps = length ts"
    "subscribe_all E cl ts ?w = ?w @ map2 (\<lambda>t r. EvSubscribe t (MQTTQoS (cl_cfg cl)) r) ts reps"
    using Cons.IH [of ?w] by auto
  then show ?case
    by (intro exI [of _ "?r # reps"]) (simp add: subscribeWithClient_def Let_def)
qed simp

lemma run_handlers_ext:
  assumes "\<And>h st w. extends P w (snd (run h st w))" and "P mark"
  shows "extends P w (snd (run_handlers mark run hs st w))"
proof (induction hs arbitrary: st w)
  case (Cons h hs)
  have "extends P w (w @ [mark])" using assms(2) by auto
  also have "extends P (w @ [mark]) (snd (run h st (w @ [mark])))" by (rule assms(1))
  also have "extends P (snd (run h st (w @ [mark]))) (snd (run_handlers mark run (h # hs) st w))"
    using Cons.IH by (simp add: split_beta)
  finally show ?case .
qed simp

lemma callback_done_begin [simp]: "callback_done (cl\<lparr>callbacks := Suc n\<rparr>) = cl\<lparr>callbacks := n\<rparr>"
  by (simp add: callback_done_def)

lemma tls_schemes_secure: "tls_schemes = secureMQTTSchemes"
  by (simp add: tls_schemes_def secureMQTTSchemes_def)

lemma BrokerLogAddress_ok:
  assumes "scheme_check L c u (ToLowerASCII (Scheme u)) secure = None" and "BrokerURL L c = Inr u"
  shows "\<exists>a. BrokerLogAddress L c = Inr a"
  using assms by (auto simp: BrokerLogAddress_def scheme_check_def split: if_splits)

lemma publishWithTimeout_ok:
  assumes "publishWithTimeout E cl t p q r d w = (None, w')"
  shows "\<exists>tk. w' = w @ [EvConnected True, EvPublish t p q r Completed tk]"
proof -
  let ?w1 = "w @ [EvConnected True]"
  have "transport cl \<and> e_connected E w \<and> 0 < d"
    using assms by (auto simp: publishWithTimeout_def is_connected_def ask_connected_def split_beta Let_def split: if_splits)
  moreover obtain rep tk where "e_publish E ?w1 t p q r d = (rep, tk)" by fastforce
  ultimately show ?thesis
    using assms by (auto simp: publishWithTimeout_def is_connected_def ask_connected_def split: report.splits)
qed

lemma Client_New_Inr:
  assumes "Client_New L H cfg = Inr (cl, opts)"
  obtains password addr u tls where "Validate L H cfg = None" "MQTTPassword H cfg = Inr password"
    "BrokerURL L cfg = Inr u" "cl = new_client cfg addr" "opts = base_options L cfg password tls"
    "tls \<noteq> None \<longleftrightarrow> List.member tls_schemes (ToLowerASCII (Scheme u))"
proof -
  have v: "Validate L H cfg = None"
    using assms by (simp add: Client_New_def split: option.splits)
  obtain password where p: "MQTTPassword H cfg = Inr password"
    using assms v by (cases "MQTTPassword H cfg") (simp_all add: Client_New_def)
  obtain addr where a: "BrokerLogAddress L cfg = Inr addr"
    using assms v p by (cases "BrokerLogAddress L cfg") (simp_all add: Client_New_def)
  obtain u where u: "BrokerURL L cfg = Inr u"
    using assms v p a by (cases "BrokerURL L cfg") (simp_all add: Client_New_def)
  show ?thesis
  proof (cases "List.member tls_schemes (ToLowerASCII (Scheme u))")
    case True
    then obtain t where "MQTTTLSConfigOf L H cfg = Inr t"
      using assms v p a u by (cases "MQTTTLSConfigOf L H cfg") (simp_all add: Client_New_def)
    then show ?thesis using that [OF v p u, of addr "Some t"] assms v p a u True by (simp add: Client_New_def)
  next
    case False
    then show ?thesis using that [OF v p u, of addr None] assms v p a u by (simp add: Client_New_def)
  qed
qed

lemma Client_Close_steps:
  assumes "Client_Close E timeout cl w = (None, cl', w')"
  shows "cl' = cl\<lparr>cl_accepting := False\<rparr> \<and>
    (\<exists>t0. w' = w @ [EvClock t0, EvCallbacks True] \<or> w' = w @ [EvClock t0, EvCallbacks True, EvConnected False]
      \<or> (\<exists>t1 t2 tk q. w' = w @ [EvClock t0, EvCallbacks True, EvConnected True, EvClock t1, EvConnected True,
            EvPublish (StatusTopic (cl_cfg cl)) ''offline'' (MQTTQoS (cl_cfg cl)) True Completed tk, EvClock t2, EvDisconnect q]
          \<and> q \<le> 500 \<and> t2 < t0 + timeout))"
proof -
  let ?t0 = "e_now E w"
  let ?w2 = "w @ [EvClock ?t0, EvCallbacks True]"
  let ?w4 = "?w2 @ [EvConnected True, EvClock (e_now E (?w2 @ [EvConnected True]))]"
  define remaining where "remaining = ?t0 + timeout - e_now E (?w2 @ [EvConnected True])"
  have fin: "e_callbacks E (w @ [EvClock ?t0])"
    using assms by (cases "e_callbacks E (w @ [EvClock ?t0])") (simp_all add: Client_Close_def ask_now_def Let_def)
  have cl: "cl' = cl\<lparr>cl_accepting := False\<rparr>"
    using assms by (auto simp: Client_Close_def ask_now_def StopAccepting_def split_beta Let_def split: if_splits)
  show ?thesis
  proof (cases "transport cl \<and> e_connected E ?w2")
    case False
    then have "w' = ?w2 \<or> w' = ?w2 @ [EvConnected False]"
      using assms fin
      by (cases "transport cl")
        (simp_all add: Client_Close_def ask_now_def is_connected_def ask_connected_def StopAccepting_def Let_def)
    then show ?thesis using cl by auto
  next
    case True
    let ?pub = "publishWithTimeout E (StopAccepting cl) (StatusTopic (cl_cfg cl)) ''offline'' (MQTTQoS (cl_cfg cl)) True
      (min (5 * second) remaining) ?w4"
    obtain e w5 where pub: "?pub = (e, w5)" by (cases ?pub)
    have close: "Client_Close E timeout cl w =
      (if remaining \<le> 0 then (Some (ShutdownTimedOut timeout None), StopAccepting cl, ?w4)
       else if ?t0 + timeout - e_now E w5 \<le> 0 then (Some (ShutdownTimedOut timeout e), StopAccepting cl, w5 @ [EvClock (e_now E w5)])
       else (map_option OfflineFailed e, StopAccepting cl, w5 @ [EvClock (e_now E w5),
         EvDisconnect (nat (min (500 * millisecond) (?t0 + timeout - e_now E w5) div millisecond))]))"
      using True fin pub
      by (simp add: Client_Close_def ask_now_def is_connected_def ask_connected_def StopAccepting_def remaining_def Let_def)
    with assms have rem: "remaining > 0" and late: "e_now E w5 < ?t0 + timeout" and e: "e = None"
      and w': "w' = w5 @ [EvClock (e_now E w5),
        EvDisconnect (nat (min (500 * millisecond) (?t0 + timeout - e_now E w5) div millisecond))]"
      by (auto split: if_splits)
    have "\<exists>tk. w5 = ?w4 @ [EvConnected True, EvPublish (StatusTopic (cl_cfg cl)) ''offline'' (MQTTQoS (cl_cfg cl)) True Completed tk]"
      by (rule publishWithTimeout_ok [OF pub [unfolded e]])
    moreover have "nat (min (500 * millisecond) (?t0 + timeout - e_now E w5) div millisecond) \<le> 500"
      by (simp add: millisecond_def)
    ultimately show ?thesis using cl late unfolding w' by (auto simp: exI)
  qed
qed

lemma Client_New_succeeds:
  "(\<exists>r :: (('h, 's, 'k) Client \<times> ClientOptions). Client_New L H cfg = Inr r) \<longleftrightarrow> Validate L H cfg = None"
proof (cases "Validate L H cfg")
  case None
  obtain secure where s: "validateMQTT L H cfg = Inr secure" "secure \<longrightarrow> (\<exists>t. MQTTTLSConfigOf L H cfg = Inr t)"
    using None by (rule Validate_MQTT)
  obtain u where u: "BrokerURL L cfg = Inr u" "secure = List.member secureMQTTSchemes (ToLowerASCII (Scheme u))"
    "scheme_check L cfg u (ToLowerASCII (Scheme u)) secure = None"
    and pw: "PasswordFile (MQTT cfg) \<noteq> [] \<longrightarrow> (\<exists>pw. MQTTPassword H cfg = Inr pw)"
    using s(1) by (rule validateMQTT_Inr)
  obtain a where "BrokerLogAddress L cfg = Inr a" using BrokerLogAddress_ok [OF u(3,1)] ..
  moreover obtain p where "MQTTPassword H cfg = Inr p"
    using pw by (cases "PasswordFile (MQTT cfg) = []") (auto simp: MQTTPassword_def)
  ultimately show ?thesis
    using None u s(2) by (auto simp: Client_New_def tls_schemes_secure split: sum.split)
qed (simp add: Client_New_def)

section \<open>Properties\<close>

text \<open>
  C33. A client can be built from exactly the configurations that pass validation: after
  \<open>Validate\<close> none of the later steps of \<open>New\<close> (password, log address, URL, TLS material) can fail.
\<close>

theorem Client_New_iff_valid:
  "(\<exists>r :: (('h, 's, 'k) Client \<times> ClientOptions). Client_New L H cfg = Inr r) \<longleftrightarrow> Validate L H cfg = None"
  by (rule Client_New_succeeds)

text \<open>
  C34. TLS is configured exactly for the secure schemes; a client without TLS talks to a Unix socket,
  to a loopback address, or the operator has opted in. The session is clean, messages are ordered,
  and the broker will publish a retained \<open>offline\<close> on the status topic if the client dies.
\<close>

theorem Client_New_transport:
  assumes "Client_New L H cfg = Inr (cl, opts)"
  shows "\<exists>u. BrokerURL L cfg = Inr u
    \<and> (opt_TLS opts \<noteq> None \<longleftrightarrow> List.member secureMQTTSchemes (ToLowerASCII (Scheme u)))
    \<and> (opt_TLS opts = None \<longrightarrow> ToLowerASCII (Scheme u) = ''unix'' \<or> isLiteralLoopback L (Hostname u)
         \<or> AllowInsecureTransport (MQTT cfg))
    \<and> opt_CleanSession opts \<and> opt_OrderMatters opts
    \<and> opt_Will opts = (StatusTopic cfg, ''offline'', MQTTQoS cfg, True)"
proof -
  obtain password addr u tls where u: "Validate L H cfg = None" "BrokerURL L cfg = Inr u"
    "opts = base_options L cfg password tls" "tls \<noteq> None \<longleftrightarrow> List.member secureMQTTSchemes (ToLowerASCII (Scheme u))"
    using assms unfolding tls_schemes_secure [symmetric] by (rule Client_New_Inr)
  have "List.member secureMQTTSchemes (ToLowerASCII (Scheme u)) \<or> ToLowerASCII (Scheme u) = ''unix''
      \<or> isLiteralLoopback L (Hostname u) \<or> AllowInsecureTransport (MQTT cfg)"
    using Validate_transport [OF u(1)] u(2) unfolding Let_def by simp
  with u(4) show ?thesis unfolding u(2,3)
    by (intro exI [of _ u] conjI) (simp_all add: base_options_def; blast)+
qed

theorem Client_New_transport_witness:
  "\<exists>(cl :: (nat, nat, nat) Client) opts. Client_New ex_stdlib ex_fs ex_config = Inr (cl, opts) \<and> opt_TLS opts = None
     \<and> opt_Will opts = (''ctl/status'', ''offline'', 1, True)"
proof -
  have "case (Client_New ex_stdlib ex_fs ex_config :: client_error + ((nat, nat, nat) Client \<times> ClientOptions)) of
    Inl _ \<Rightarrow> False | Inr (cl, opts) \<Rightarrow> opt_TLS opts = None"
    by code_simp
  then obtain cl :: "(nat, nat, nat) Client" and opts
    where r: "Client_New ex_stdlib ex_fs ex_config = Inr (cl, opts)" "opt_TLS opts = None"
    by (auto split: sum.splits)
  moreover have "(StatusTopic ex_config, ''offline'', MQTTQoS ex_config, True) = (''ctl/status'', ''offline'', 1, True)"
    by code_simp
  ultimately show ?thesis using Client_New_transport [OF r(1)] by auto
qed

text \<open>
  C18. On every (re)connection the session handlers run first, then every registered topic is
  subscribed once, then the retained \<open>online\<close> status is published, then the connect handlers run;
  a failed subscription does not stop the sequence. So as long as handlers do not subscribe
  themselves, no message of the new session can arrive before the session handlers have finished.
\<close>

theorem handleConnect_order:
  assumes "cl_accepting cl"
    and "\<And>h st w. extends (\<lambda>e. \<not> is_subscribe e) w (snd (run_session h st w))"
  shows "\<exists>st1 a reps pubs.
    run_handlers EvSession run_session (onSession cl) st w = (st1, w @ a) \<and> list_all (\<lambda>e. \<not> is_subscribe e) a
    \<and> length reps = length (subscribers cl)
    \<and> (let w2 = w @ a @ map2 (\<lambda>t r. EvSubscribe t (MQTTQoS (cl_cfg cl)) r) (map fst (subscribers cl)) reps;
           w3 = snd (Publish E cl (StatusTopic (cl_cfg cl)) ''online'' (MQTTQoS (cl_cfg cl)) True w2)
       in handleConnect E run_session run_connect cl st w
          = (cl, run_handlers EvConnectHandler run_connect (onConnect cl) st1 w3) \<and> w3 = w2 @ pubs
             \<and> list_all (\<lambda>e. \<not> is_subscribe e) pubs)"
proof -
  let ?cl = "cl\<lparr>callbacks := callbacks cl + 1\<rparr>"
  obtain st1 w1 where s: "run_handlers EvSession run_session (onSession cl) st w = (st1, w1)"
    by (cases "run_handlers EvSession run_session (onSession cl) st w")
  have "extends (\<lambda>e. \<not> is_subscribe e) w (snd (run_handlers EvSession run_session (onSession cl) st w))"
    by (rule run_handlers_ext [OF assms(2)]) simp
  then obtain a where a: "w1 = w @ a" "list_all (\<lambda>e. \<not> is_subscribe e) a"
    unfolding s by (auto elim: extendsE)
  obtain reps where reps: "length reps = length (subscribers cl)"
    "subscribe_all E ?cl (map fst (subscribers cl)) w1
      = w1 @ map2 (\<lambda>t r. EvSubscribe t (MQTTQoS (cl_cfg cl)) r) (map fst (subscribers cl)) reps"
    using subscribe_all_trace [of "map fst (subscribers cl)" E ?cl w1] by auto
  let ?w2 = "w @ a @ map2 (\<lambda>t r. EvSubscribe t (MQTTQoS (cl_cfg cl)) r) (map fst (subscribers cl)) reps"
  let ?pub = "\<lambda>c. Publish E c (StatusTopic (cl_cfg cl)) ''online'' (MQTTQoS (cl_cfg cl)) True ?w2"
  have same: "?pub ?cl = ?pub cl"
    by (simp add: Publish_def publishWithTimeout_def is_connected_def)
  have "extends (\<lambda>e. \<not> is_subscribe e) ?w2 (snd (?pub cl))"
    by (rule client.pub_ext) simp_all
  then obtain pubs where pubs: "snd (?pub cl) = ?w2 @ pubs" "list_all (\<lambda>e. \<not> is_subscribe e) pubs"
    by (rule extendsE)
  have "handleConnect E run_session run_connect cl st w
      = (cl, run_handlers EvConnectHandler run_connect (onConnect cl) st1 (snd (?pub cl)))"
    using assms(1) s reps(2) same
    by (simp add: handleConnect_def Client_beginCallback_def callback_done_begin split_beta a(1) Let_def)
  with s a reps(1) pubs show ?thesis
    by (intro exI [of _ st1] exI [of _ a] exI [of _ reps] exI [of _ pubs]) (simp add: Let_def)
qed

theorem handleConnect_order_witness:
  "\<exists>st1 a reps pubs.
    run_handlers EvSession (\<lambda>h st w. (st @ [h], w)) (onSession ex_client) [] [] = (st1, [] @ a)
    \<and> list_all (\<lambda>e. \<not> is_subscribe e) a \<and> length reps = length (subscribers ex_client)
    \<and> (let w2 = [] @ a @ map2 (\<lambda>t r. EvSubscribe t (MQTTQoS (cl_cfg ex_client)) r) (map fst (subscribers ex_client)) reps;
           w3 = snd (Publish sim_env ex_client (StatusTopic (cl_cfg ex_client)) ''online'' (MQTTQoS (cl_cfg ex_client)) True w2)
       in handleConnect sim_env (\<lambda>h st w. (st @ [h], w)) (\<lambda>h st w. (st @ [h], w)) ex_client [] []
          = (ex_client, run_handlers EvConnectHandler (\<lambda>h st w. (st @ [h], w)) (onConnect ex_client) st1 w3) \<and> w3 = w2 @ pubs
             \<and> list_all (\<lambda>e. \<not> is_subscribe e) pubs)"
  by (rule handleConnect_order) (simp_all add: ex_client_def new_client_def)




end
