(* ===== verification/Gpio_Manager.thy ===== *)
theory Gpio_Manager
  imports Example_Config Simulated_World
begin

section \<open>GPIO lines (gpio/manager.go)\<close>

text \<open>
  The manager owns the open lines: a map from output names and one from input names to lines of
  the gpiocdev library. A line is a handle; requesting, setting, reading and closing it are events
  of the trace. The lemmas follow the set of lines that are open (\<open>live\<close>): every operation
  keeps it equal to the lines the manager holds, so a failed start and \<open>Close\<close> leave no
  line open.
\<close>

datatype lineDirection = lineInput | lineOutput

record lineRequest =
  chip :: string
  offset :: int
  consumer :: string
  direction :: lineDirection
  initial :: int
  activeLow :: bool
  bias :: string
  debounce :: duration
  bothEdges :: bool
  eventHandler :: string \<comment> \<open>the input name bound in the handler\<close>

definition line_options :: "lineRequest \<Rightarrow> line_option list" where
  "line_options request =
     [WithConsumer (consumer request), if activeLow request then AsActiveLow else AsActiveHigh] @
     (if direction request = lineOutput then [AsOutput (initial request)]
      else [AsInput] @ (if bothEdges request then [WithBothEdges] else [])
        @ [WithEventHandler (eventHandler request),
           if bias request = ''pull_up'' then WithPullUp
           else if bias request = ''pull_down'' then WithPullDown else WithBiasDisabled]
        @ (if debounce request > 0 then [WithDebounce (debounce request)] else []))"

definition requestGPIOLine :: "env \<Rightarrow> lineRequest \<Rightarrow> trace \<Rightarrow> (string + nat) \<times> trace" where
  "requestGPIOLine E request w =
     (let opts = line_options request; r = e_line_request E w (chip request) (offset request) opts
      in (r, w @ [EvLineRequest (chip request) (offset request) opts r]))"

datatype manager_error =
    OpenOutput string string | OpenInput string string | ParseDebounce string
  | OutputNotOpen string | InputNotOpen string | SetFailed string string
  | ReadOutput string string | ReadInput string string | CloseInput string string | CloseOutput string string

record Manager =
  m_config :: GPIOConfig
  m_outputs :: "nat gomap"
  m_inputs :: "nat gomap"

definition Manager_New :: "GPIOConfig \<Rightarrow> Manager" where
  "Manager_New cfg = \<lparr>m_config = cfg, m_outputs = [], m_inputs = []\<rparr>"

definition sortedOutputNames :: "GPIOOutputConfig gomap \<Rightarrow> string list" where
  "sortedOutputNames values = sort (map fst values)"

definition sortedInputNames :: "GPIOInputConfig gomap \<Rightarrow> string list" where
  "sortedInputNames values = sort (map fst values)"

subsection \<open>Closing\<close>

definition close_line :: "env \<Rightarrow> nat \<Rightarrow> trace \<Rightarrow> string option \<times> trace" where
  "close_line E h w = (e_line_close E w h, w @ [EvLineClose h (e_line_close E w h)])"

text \<open>Close every line of a map, remembering the first error.\<close>

fun close_all ::
  "env \<Rightarrow> (string \<Rightarrow> string \<Rightarrow> manager_error) \<Rightarrow> manager_error option \<Rightarrow> nat gomap \<Rightarrow> trace
    \<Rightarrow> manager_error option \<times> trace" where
  "close_all E err firstErr [] w = (firstErr, w)"
| "close_all E err firstErr ((name, h) # rest) w =
     (let (r, w1) = close_line E h w;
          firstErr1 = (case (r, firstErr) of (Some e, None) \<Rightarrow> Some (err name e) | _ \<Rightarrow> firstErr)
      in close_all E err firstErr1 rest w1)"

definition closeInputsLocked :: "env \<Rightarrow> Manager \<Rightarrow> trace \<Rightarrow> manager_error option \<times> Manager \<times> trace" where
  "closeInputsLocked E m w =
     (let (e, w1) = close_all E CloseInput None (m_inputs m) w in (e, m\<lparr>m_inputs := []\<rparr>, w1))"

definition closeLocked :: "env \<Rightarrow> Manager \<Rightarrow> trace \<Rightarrow> manager_error option \<times> Manager \<times> trace" where
  "closeLocked E m w =
     (let (firstErr, m1, w1) = closeInputsLocked E m w;
          (e, w2) = close_all E CloseOutput firstErr (m_outputs m1) w1
      in (e, m1\<lparr>m_outputs := []\<rparr>, w2))"

definition Manager_Close :: "env \<Rightarrow> Manager \<Rightarrow> trace \<Rightarrow> manager_error option \<times> Manager \<times> trace" where
  "Manager_Close E m w = closeLocked E m w"

subsection \<open>Opening\<close>

definition output_request :: "string \<Rightarrow> GPIOOutputConfig \<Rightarrow> lineRequest" where
  "output_request name cfg =
     \<lparr>chip = Out_Chip cfg, offset = Out_Line cfg, consumer = ''mqtt-raspberry-controller:'' @ name,
      direction = lineOutput, initial = (if Initial cfg then 1 else 0), activeLow = Out_ActiveLow cfg,
      bias = [], debounce = 0, bothEdges = False, eventHandler = []\<rparr>"

definition input_request :: "string \<Rightarrow> GPIOInputConfig \<Rightarrow> duration \<Rightarrow> lineRequest" where
  "input_request name cfg d =
     \<lparr>chip = In_Chip cfg, offset = In_Line cfg, consumer = ''mqtt-raspberry-controller:'' @ name,
      direction = lineInput, initial = 0, activeLow = In_ActiveLow cfg,
      bias = Bias cfg, debounce = d, bothEdges = True, eventHandler = name\<rparr>"

fun open_outputs ::
  "env \<Rightarrow> string list \<Rightarrow> Manager \<Rightarrow> trace \<Rightarrow> manager_error option \<times> Manager \<times> trace" where
  "open_outputs E [] m w = (None, m, w)"
| "open_outputs E (name # names) m w =
     (case map_of (m_outputs m) name of
        Some _ \<Rightarrow> open_outputs E names m w
      | None \<Rightarrow>
          (case map_of (Outputs (m_config m)) name of
             None \<Rightarrow> open_outputs E names m w \<comment> \<open>not reached: the names are the map's keys\<close>
           | Some cfg \<Rightarrow>
               (case requestGPIOLine E (output_request name cfg) w of
                  (Inl err, w1) \<Rightarrow>
                    (let (_, m1, w2) = closeLocked E m w1 in (Some (OpenOutput name err), m1, w2))
                | (Inr h, w1) \<Rightarrow> open_outputs E names (m\<lparr>m_outputs := put name h (m_outputs m)\<rparr>) w1)))"

definition OpenOutputs :: "env \<Rightarrow> Manager \<Rightarrow> trace \<Rightarrow> manager_error option \<times> Manager \<times> trace" where
  "OpenOutputs E m w = open_outputs E (sortedOutputNames (Outputs (m_config m))) m w"

definition input_debounce :: "stdlib \<Rightarrow> GPIOInputConfig \<Rightarrow> duration option" where
  "input_debounce L cfg = (if Debounce cfg \<noteq> [] then ParseDuration L (Debounce cfg) else Some 0)"

fun open_inputs ::
  "env \<Rightarrow> stdlib \<Rightarrow> string list \<Rightarrow> Manager \<Rightarrow> trace \<Rightarrow> manager_error option \<times> Manager \<times> trace" where
  "open_inputs E L [] m w = (None, m, w)"
| "open_inputs E L (name # names) m w =
     (case map_of (m_inputs m) name of
        Some _ \<Rightarrow> open_inputs E L names m w
      | None \<Rightarrow>
          (case map_of (Inputs (m_config m)) name of
             None \<Rightarrow> open_inputs E L names m w \<comment> \<open>not reached: the names are the map's keys\<close>
           | Some cfg \<Rightarrow>
               (case input_debounce L cfg of
                  None \<Rightarrow> (let (_, m1, w1) = closeInputsLocked E m w in (Some (ParseDebounce name), m1, w1))
                | Some d \<Rightarrow>
                    (case requestGPIOLine E (input_request name cfg d) w of
                       (Inl err, w1) \<Rightarrow>
                         (let (_, m1, w2) = closeInputsLocked E m w1 in (Some (OpenInput name err), m1, w2))
                     | (Inr h, w1) \<Rightarrow> open_inputs E L names (m\<lparr>m_inputs := put name h (m_inputs m)\<rparr>) w1))))"

definition OpenInputs :: "env \<Rightarrow> stdlib \<Rightarrow> Manager \<Rightarrow> trace \<Rightarrow> manager_error option \<times> Manager \<times> trace" where
  "OpenInputs E L m w = open_inputs E L (sortedInputNames (Inputs (m_config m))) m w"

subsection \<open>Edges and values\<close>

datatype line_event = LineEventRisingEdge | LineEventFallingEdge | OtherEdge int

definition stateFromEvent :: "line_event \<Rightarrow> bool \<times> bool" where
  "stateFromEvent ev =
     (case ev of LineEventRisingEdge \<Rightarrow> (True, True) | LineEventFallingEdge \<Rightarrow> (False, True) | _ \<Rightarrow> (False, False))"

text \<open>The call an edge event makes: the name and the state passed to the handler, if any.\<close>

definition inputEventHandler :: "string \<Rightarrow> bool \<Rightarrow> line_event \<Rightarrow> (string \<times> bool) option" where
  "inputEventHandler name has_handler ev =
     (if \<not> has_handler then None
      else (let (state, ok) = stateFromEvent ev in if \<not> ok then None else Some (name, state)))"

definition SetOutput :: "env \<Rightarrow> Manager \<Rightarrow> string \<Rightarrow> bool \<Rightarrow> trace \<Rightarrow> manager_error option \<times> trace" where
  "SetOutput E m name state w =
     (case map_of (m_outputs m) name of
        None \<Rightarrow> (Some (OutputNotOpen name), w)
      | Some h \<Rightarrow>
          (let value = (if state then 1 else 0); r = e_line_set E w h value; w1 = w @ [EvLineSet h value r]
           in (map_option (SetFailed name) r, w1)))"

definition line_value :: "env \<Rightarrow> nat \<Rightarrow> trace \<Rightarrow> (string + int) \<times> trace" where
  "line_value E h w = (e_line_value E w h, w @ [EvLineValue h (e_line_value E w h)])"

definition OutputState :: "env \<Rightarrow> Manager \<Rightarrow> string \<Rightarrow> trace \<Rightarrow> (manager_error + bool) \<times> trace" where
  "OutputState E m name w =
     (case map_of (m_outputs m) name of
        None \<Rightarrow> (Inl (OutputNotOpen name), w)
      | Some h \<Rightarrow>
          (case line_value E h w of
             (Inl e, w1) \<Rightarrow> (Inl (ReadOutput name e), w1)
           | (Inr value, w1) \<Rightarrow> (Inr (value = 1), w1)))"

definition InputState :: "env \<Rightarrow> Manager \<Rightarrow> string \<Rightarrow> trace \<Rightarrow> (manager_error + bool) \<times> trace" where
  "InputState E m name w =
     (case map_of (m_inputs m) name of
        None \<Rightarrow> (Inl (InputNotOpen name), w)
      | Some h \<Rightarrow>
          (case line_value E h w of
             (Inl e, w1) \<Rightarrow> (Inl (ReadInput name e), w1)
           | (Inr value, w1) \<Rightarrow> (Inr (value = 1), w1)))"

subsection \<open>The lines that are open\<close>

fun line_event_effect :: "nat set \<Rightarrow> event \<Rightarrow> nat set" where
  "line_event_effect s (EvLineRequest c l opts (Inr h)) = insert h s"
| "line_event_effect s (EvLineClose h r) = s - {h}"
| "line_event_effect s e = s"

definition live :: "trace \<Rightarrow> nat set" where
  "live w = foldl line_event_effect {} w"

definition held :: "Manager \<Rightarrow> nat list" where
  "held m = map snd (m_outputs m) @ map snd (m_inputs m)"

definition lines_inv :: "Manager \<Rightarrow> trace \<Rightarrow> bool" where
  "lines_inv m w \<longleftrightarrow> live w = set (held m) \<and> distinct (held m) \<and> wf_map (m_outputs m) \<and> wf_map (m_inputs m)"

text \<open>What the library promises: a request returns a line that is not open yet.\<close>

definition fresh_lines :: "env \<Rightarrow> bool" where
  "fresh_lines E \<longleftrightarrow> (\<forall>w c l opts h. e_line_request E w c l opts = Inr h \<longrightarrow> h \<notin> live w)"

text \<open>And: the value read from an output line is the one written last.\<close>

definition output_memory :: "env \<Rightarrow> bool" where
  "output_memory E \<longleftrightarrow>
     (\<forall>w h v. e_line_set E w h v = None \<longrightarrow> e_line_value E (w @ [EvLineSet h v None]) h = Inr v)"

section \<open>Lemmas\<close>

lemma live_snoc [simp]: "live (w @ [e]) = line_event_effect (live w) e"
  by (simp add: live_def)

lemma close_all_live: "live (snd (close_all E err f ls w)) = live w - set (map snd ls)"
  by (induction E err f ls w rule: close_all.induct) (auto simp: close_line_def)

lemma closeInputsLocked_inv:
  assumes "lines_inv m w" and "closeInputsLocked E m w = (e, m', w')"
  shows "lines_inv m' w' \<and> m_inputs m' = [] \<and> m_outputs m' = m_outputs m \<and> m_config m' = m_config m"
proof -
  have m': "m' = m\<lparr>m_inputs := []\<rparr>" and w': "w' = snd (close_all E CloseInput None (m_inputs m) w)"
    using assms(2) by (auto simp: closeInputsLocked_def Let_def split: prod.splits)
  have "live w' = set (map snd (m_outputs m))"
    using assms(1) unfolding w' close_all_live lines_inv_def held_def distinct_append set_append by blast
  then show ?thesis
    using assms(1) by (simp add: m' lines_inv_def held_def)
qed

lemma closeLocked_inv:
  assumes "lines_inv m w" and "closeLocked E m w = (e, m', w')"
  shows "lines_inv m' w' \<and> m_inputs m' = [] \<and> m_outputs m' = [] \<and> m_config m' = m_config m \<and> live w' = {}"
proof -
  obtain e1 m1 w1 where c: "closeInputsLocked E m w = (e1, m1, w1)" by (cases "closeInputsLocked E m w")
  have "lines_inv m1 w1" "m_inputs m1 = []" "m_config m1 = m_config m"
    using closeInputsLocked_inv [OF assms(1) c] by auto
  with assms(2) c close_all_live [of E CloseOutput e1 "m_outputs m1" w1] show ?thesis
    by (auto simp: closeLocked_def lines_inv_def held_def Let_def split: prod.splits)
qed

lemma close_all_trace:
  "close_all E err f ls w = (e, w') \<Longrightarrow>
     \<exists>rs. length rs = length ls \<and> w' = w @ map2 EvLineClose (map snd ls) rs
       \<and> (e = None \<longleftrightarrow> f = None \<and> set rs \<subseteq> {None})"
proof (induction E err f ls w rule: close_all.induct)
  case (2 E err f name h rest w)
  let ?r = "e_line_close E w h"
  let ?f = "case (?r, f) of (Some e, None) \<Rightarrow> Some (err name e) | _ \<Rightarrow> f"
  from "2.prems" have "close_all E err ?f rest (w @ [EvLineClose h ?r]) = (e, w')"
    by (simp add: close_line_def Let_def)
  from "2.IH" [OF _ refl refl, of ?r "w @ [EvLineClose h ?r]", simplified close_line_def, OF refl] this
  obtain rs where rs: "length rs = length rest" "w' = (w @ [EvLineClose h ?r]) @ map2 EvLineClose (map snd rest) rs"
    "e = None \<longleftrightarrow> ?f = None \<and> set rs \<subseteq> {None}"
    by auto
  have "?f = None \<longleftrightarrow> f = None \<and> ?r = None" by (cases ?r; cases f) auto
  with rs show ?case by (intro exI [of _ "?r # rs"]) auto
qed simp

lemma closeLocked_trace:
  assumes "closeLocked E m w = (e, m', w')"
  shows "\<exists>rs. length rs = length (m_inputs m @ m_outputs m)
    \<and> w' = w @ map2 EvLineClose (map snd (m_inputs m @ m_outputs m)) rs \<and> (e = None \<longleftrightarrow> set rs \<subseteq> {None})"
proof -
  obtain e1 w1 where c1: "close_all E CloseInput None (m_inputs m) w = (e1, w1)"
    by (cases "close_all E CloseInput None (m_inputs m) w")
  with assms have c2: "close_all E CloseOutput e1 (m_outputs m) w1 = (e, w')"
    by (simp add: closeLocked_def closeInputsLocked_def Let_def split: prod.splits)
  obtain rs where "length rs = length (m_inputs m)" "w1 = w @ map2 EvLineClose (map snd (m_inputs m)) rs"
    "e1 = None \<longleftrightarrow> set rs \<subseteq> {None}"
    using close_all_trace [OF c1] by auto
  moreover obtain rs' where "length rs' = length (m_outputs m)"
    "w' = w1 @ map2 EvLineClose (map snd (m_outputs m)) rs'" "e = None \<longleftrightarrow> e1 = None \<and> set rs' \<subseteq> {None}"
    using close_all_trace [OF c2] by auto
  ultimately show ?thesis by (intro exI [of _ "rs @ rs'"]) auto
qed

lemma held_put_output:
  "map_of (m_outputs m) name = None \<Longrightarrow>
     set (held (m\<lparr>m_outputs := put name h (m_outputs m)\<rparr>)) = insert h (set (held m))"
  "map_of (m_inputs m) name = None \<Longrightarrow>
     set (held (m\<lparr>m_inputs := put name h (m_inputs m)\<rparr>)) = insert h (set (held m))"
  by (auto simp: held_def put_def)

lemma lines_inv_request:
  assumes "lines_inv m w" and "fresh_lines E" and "requestGPIOLine E req w = (r, w')"
  shows "r = Inl e \<Longrightarrow> lines_inv m w'"
    and "r = Inr h \<Longrightarrow> map_of (m_outputs m) name = None \<Longrightarrow>
      lines_inv (m\<lparr>m_outputs := put name h (m_outputs m)\<rparr>) w'"
    and "r = Inr h \<Longrightarrow> map_of (m_inputs m) name = None \<Longrightarrow>
      lines_inv (m\<lparr>m_inputs := put name h (m_inputs m)\<rparr>) w'"
proof -
  have r: "r = e_line_request E w (chip req) (offset req) (line_options req)"
    and w': "w' = w @ [EvLineRequest (chip req) (offset req) (line_options req) r]"
    using assms(3) by (auto simp: requestGPIOLine_def Let_def)
  show "lines_inv m w'" if "r = Inl e"
    using assms(1) that by (simp add: lines_inv_def w')
  have fresh: "h \<notin> set (held m)" if "r = Inr h"
    using assms(1,2) that r by (metis fresh_lines_def lines_inv_def)
  show "lines_inv (m\<lparr>m_outputs := put name h (m_outputs m)\<rparr>) w'"
    if "r = Inr h" "map_of (m_outputs m) name = None"
    using assms(1) that fresh
    by (auto simp: lines_inv_def w' held_put_output intro: inv_intros) (auto simp: held_def put_def)
  show "lines_inv (m\<lparr>m_inputs := put name h (m_inputs m)\<rparr>) w'"
    if "r = Inr h" "map_of (m_inputs m) name = None"
    using assms(1) that fresh
    by (auto simp: lines_inv_def w' held_put_output intro: inv_intros) (auto simp: held_def put_def)
qed

lemma open_outputs_inv:
  assumes "fresh_lines E"
  shows "lines_inv m w \<Longrightarrow> open_outputs E names m w = (r, m', w') \<Longrightarrow>
    lines_inv m' w' \<and> m_config m' = m_config m \<and> (r \<noteq> None \<longrightarrow> held m' = [] \<and> live w' = {})
    \<and> (r = None \<longrightarrow> m_inputs m' = m_inputs m
        \<and> dom (map_of (m_outputs m')) = dom (map_of (m_outputs m)) \<union> (set names \<inter> dom (map_of (Outputs (m_config m)))))"
proof (induction names arbitrary: m w)
  case Nil
  then show ?case by simp
next
  case (Cons name names)
  consider (known) h where "map_of (m_outputs m) name = Some h"
    | (unknown) "map_of (m_outputs m) name = None" "map_of (Outputs (m_config m)) name = None"
    | (failed) cfg err w1 where "map_of (m_outputs m) name = None" "map_of (Outputs (m_config m)) name = Some cfg"
        "requestGPIOLine E (output_request name cfg) w = (Inl err, w1)"
    | (opened) cfg h w1 where "map_of (m_outputs m) name = None" "map_of (Outputs (m_config m)) name = Some cfg"
        "requestGPIOLine E (output_request name cfg) w = (Inr h, w1)"
    by (metis option.exhaust sum.exhaust surj_pair)
  then show ?case
  proof cases
    case known
    then show ?thesis using Cons by (auto simp: dom_def)
  next
    case unknown
    then show ?thesis using Cons by auto
  next
    case failed
    obtain e2 m2 w2 where c: "closeLocked E m w1 = (e2, m2, w2)" by (cases "closeLocked E m w1")
    from failed Cons.prems(2) c have "r = Some (OpenOutput name err)" "m' = m2" "w' = w2" by auto
    with closeLocked_inv [OF lines_inv_request(1) [OF Cons.prems(1) assms failed(3) refl] c]
    show ?thesis by (auto simp: held_def)
  next
    case opened
    let ?m = "m\<lparr>m_outputs := put name h (m_outputs m)\<rparr>"
    have inv: "lines_inv ?m w1"
      by (rule lines_inv_request(2) [OF Cons.prems(1) assms opened(3) refl opened(1)])
    have "open_outputs E names ?m w1 = (r, m', w')"
      using Cons.prems(2) opened by simp
    moreover have "dom (map_of (m_outputs ?m)) = insert name (dom (map_of (m_outputs m)))"
      by (simp del: fun_upd_apply)
    moreover have "name \<in> dom (map_of (Outputs (m_config m)))"
      using opened(2) by blast
    ultimately show ?thesis using Cons.IH [OF inv] by (simp del: map_of_put add: insert_absorb)
  qed
qed

lemma open_inputs_inv:
  assumes "fresh_lines E"
  shows "lines_inv m w \<Longrightarrow> open_inputs E L names m w = (r, m', w') \<Longrightarrow>
    lines_inv m' w' \<and> m_config m' = m_config m \<and> m_outputs m' = m_outputs m \<and> (r \<noteq> None \<longrightarrow> m_inputs m' = [])
    \<and> (r = None \<longrightarrow>
        dom (map_of (m_inputs m')) = dom (map_of (m_inputs m)) \<union> (set names \<inter> dom (map_of (Inputs (m_config m)))))"
proof (induction names arbitrary: m w)
  case Nil
  then show ?case by simp
next
  case (Cons name names)
  consider (known) h where "map_of (m_inputs m) name = Some h"
    | (unknown) "map_of (m_inputs m) name = None" "map_of (Inputs (m_config m)) name = None"
    | (bad) cfg where "map_of (m_inputs m) name = None" "map_of (Inputs (m_config m)) name = Some cfg"
        "input_debounce L cfg = None"
    | (failed) cfg d err w1 where "map_of (m_inputs m) name = None" "map_of (Inputs (m_config m)) name = Some cfg"
        "input_debounce L cfg = Some d" "requestGPIOLine E (input_request name cfg d) w = (Inl err, w1)"
    | (opened) cfg d h w1 where "map_of (m_inputs m) name = None" "map_of (Inputs (m_config m)) name = Some cfg"
        "input_debounce L cfg = Some d" "requestGPIOLine E (input_request name cfg d) w = (Inr h, w1)"
    by (metis option.exhaust sum.exhaust surj_pair)
  then show ?case
  proof cases
    case known
    then show ?thesis using Cons by (auto simp: dom_def)
  next
    case unknown
    then show ?thesis using Cons by auto
  next
    case bad
    obtain e2 m2 w2 where c: "closeInputsLocked E m w = (e2, m2, w2)" by (cases "closeInputsLocked E m w")
    with bad Cons.prems(2) closeInputsLocked_inv [OF Cons.prems(1) c] show ?thesis by auto
  next
    case failed
    obtain e2 m2 w2 where c: "closeInputsLocked E m w1 = (e2, m2, w2)" by (cases "closeInputsLocked E m w1")
    with failed Cons.prems(2)
      closeInputsLocked_inv [OF lines_inv_request(1) [OF Cons.prems(1) assms failed(4) refl] c]
    show ?thesis by auto
  next
    case opened
    let ?m = "m\<lparr>m_inputs := put name h (m_inputs m)\<rparr>"
    have inv: "lines_inv ?m w1"
      by (rule lines_inv_request(3) [OF Cons.prems(1) assms opened(4) refl opened(1)])
    have "open_inputs E L names ?m w1 = (r, m', w')"
      using Cons.prems(2) opened by simp
    moreover have "dom (map_of (m_inputs ?m)) = insert name (dom (map_of (m_inputs m)))"
      by (simp del: fun_upd_apply)
    moreover have "name \<in> dom (map_of (Inputs (m_config m)))"
      using opened(2) by blast
    ultimately show ?thesis using Cons.IH [OF inv] by (simp del: map_of_put add: insert_absorb)
  qed
qed

lemma lines_inv_New [inv_intros]: "live w = {} \<Longrightarrow> lines_inv (Manager_New cfg) w"
  by (simp add: lines_inv_def Manager_New_def held_def)

text \<open>Events that are not line requests or closings leave the open lines alone.\<close>

fun is_line_lifecycle :: "event \<Rightarrow> bool" where
  "is_line_lifecycle (EvLineRequest c l opts r) = True"
| "is_line_lifecycle (EvLineClose h r) = True"
| "is_line_lifecycle e = False"

lemma live_frame: "extends (\<lambda>e. \<not> is_line_lifecycle e) w w' \<Longrightarrow> live w' = live w"
proof -
  have "line_event_effect s e = s" if "\<not> is_line_lifecycle e" for s e
    using that by (cases e) auto
  then show "extends (\<lambda>e. \<not> is_line_lifecycle e) w w' \<Longrightarrow> live w' = live w"
    unfolding extends_def live_def
    using foldl_frame [where f = line_event_effect and P = "\<lambda>e. \<not> is_line_lifecycle e"] by fastforce
qed

lemma SetOutput_ext [ext_intros]:
  "(\<And>h v r. P (EvLineSet h v r)) \<Longrightarrow> extends P w (snd (SetOutput E m name st w))"
  by (auto simp: SetOutput_def Let_def split: option.split)

lemma OutputState_ext [ext_intros]:
  "(\<And>h r. P (EvLineValue h r)) \<Longrightarrow> extends P w (snd (OutputState E m name w))"
  by (auto simp: OutputState_def line_value_def split: option.split sum.split)

lemma InputState_ext [ext_intros]:
  "(\<And>h r. P (EvLineValue h r)) \<Longrightarrow> extends P w (snd (InputState E m name w))"
  by (auto simp: InputState_def line_value_def split: option.split sum.split)

subsection \<open>The simulated lines keep the promises\<close>

lemma live_below: "h \<in> live w \<Longrightarrow> h < next_handle w"
proof (induction w rule: rev_induct)
  case (snoc e w)
  have "h \<in> line_event_effect s e \<Longrightarrow> h < n \<or> h \<notin> s \<Longrightarrow> h < handle_bound n e" for s n
    by (induction s e rule: line_event_effect.induct) auto
  with snoc show ?case by auto
qed (simp add: live_def)

lemma sim_fresh_lines: "fresh_lines sim_env"
  using live_below by (fastforce simp: fresh_lines_def sim_env_def)

lemma sim_output_memory: "output_memory sim_env"
  by (simp add: output_memory_def sim_env_def)

section \<open>Properties\<close>

text \<open>
  C25. \<open>OpenOutputs\<close> on a new manager either opens exactly the configured outputs, or reports the
  first line that could not be requested and leaves no line open: the lines requested before the
  failure are closed again.
\<close>

theorem OpenOutputs_all_or_nothing:
  assumes "fresh_lines E" and "live w = {}"
    and "OpenOutputs E (Manager_New cfg) w = (r, m, w')"
  shows "lines_inv m w' \<and>
    (case r of None \<Rightarrow> dom (map_of (m_outputs m)) = dom (map_of (Outputs cfg)) \<and> m_inputs m = []
     | Some e \<Rightarrow> held m = [] \<and> live w' = {})"
proof -
  have names: "set (sortedOutputNames (Outputs cfg)) = dom (map_of (Outputs cfg))"
    by (simp add: sortedOutputNames_def dom_map_of_conv_image_fst)
  show ?thesis
    using open_outputs_inv [OF assms(1) lines_inv_New [OF assms(2)]
        assms(3) [unfolded OpenOutputs_def]] names
    by (auto simp: Manager_New_def split: option.split)
qed

theorem OpenOutputs_all_or_nothing_witness:
  "dom (map_of (m_outputs (fst (snd (OpenOutputs sim_env (Manager_New ex_gpio) []))))) = {''relay''}"
proof -
  have "fst (OpenOutputs sim_env (Manager_New ex_gpio) []) = None" by code_simp
  then obtain m w' where "OpenOutputs sim_env (Manager_New ex_gpio) [] = (None, m, w')"
    by (metis prod.collapse)
  with OpenOutputs_all_or_nothing [OF sim_fresh_lines, of "[]" ex_gpio None m w'] show ?thesis
    by (simp add: live_def ex_gpio_def)
qed

text \<open>
  C26. \<open>OpenInputs\<close> either opens exactly the configured inputs, or closes every input again and
  leaves the outputs open, so a failed start leaks no line: the lines that are open are always
  those the manager still holds and will close.
\<close>

theorem OpenInputs_all_or_nothing:
  assumes "fresh_lines E" and "lines_inv m w" and "m_inputs m = []" and "OpenInputs E L m w = (r, m', w')"
  shows "lines_inv m' w' \<and> m_outputs m' = m_outputs m \<and>
    (case r of None \<Rightarrow> dom (map_of (m_inputs m')) = dom (map_of (Inputs (m_config m)))
     | Some e \<Rightarrow> m_inputs m' = [] \<and> live w' = set (map snd (m_outputs m)))"
proof -
  have names: "set (sortedInputNames (Inputs (m_config m))) = dom (map_of (Inputs (m_config m)))"
    by (simp add: sortedInputNames_def dom_map_of_conv_image_fst)
  have "live w' = set (map snd (m_outputs m'))" if "lines_inv m' w'" "m_inputs m' = []"
    using that by (simp add: lines_inv_def held_def)
  then show ?thesis
    using open_inputs_inv [OF assms(1,2) assms(4) [unfolded OpenInputs_def]] names assms(3)
    by (cases r) simp_all
qed

theorem OpenInputs_all_or_nothing_witness:
  "dom (map_of (m_inputs (fst (snd (OpenInputs sim_env ex_stdlib (Manager_New ex_gpio) []))))) = {''contact''}"
proof -
  have "fst (OpenInputs sim_env ex_stdlib (Manager_New ex_gpio) []) = None" by code_simp
  then obtain m w' where "OpenInputs sim_env ex_stdlib (Manager_New ex_gpio) [] = (None, m, w')"
    by (metis prod.collapse)
  moreover have "lines_inv (Manager_New ex_gpio) []" "m_inputs (Manager_New ex_gpio) = []"
    by (simp_all add: lines_inv_New live_def, simp add: Manager_New_def)
  ultimately show ?thesis
    using OpenInputs_all_or_nothing [OF sim_fresh_lines, of "Manager_New ex_gpio" "[]" ex_stdlib None m w']
    by (simp add: Manager_New_def ex_gpio_def)
qed





end
