(* ===== verification/Action_Executor.thy ===== *)
theory Action_Executor
  imports Mqtt_Client Gpio_Manager
begin

section \<open>Running actions (action/executor.go, process_linux.go, process_other.go)\<close>

text \<open>
  The executor runs a list of actions: setting an output, running a command, waiting, publishing.
  A command is started with a minimal environment, its output is counted and captured up to a limit,
  and on cancellation its process group is terminated before the leader is reaped. A nil pointer
  dereference is the outcome \<open>Panic\<close>, which ends the daemon. The two build variants of the process
  primitives are selected by a \<open>platform\<close>.
\<close>

datatype platform = Linux | OtherOS

definition commandOutputLimit :: int where
  "commandOutputLimit = 64 * 1024"

definition commandTerminateGrace :: duration where
  "commandTerminateGrace = 250 * millisecond"

record ('h, 's, 'k) Executor =
  x_cfg :: Config
  x_gpio :: Manager
  x_mqtt :: "('h, 's, 'k) Client"

definition Executor_New :: "Config \<Rightarrow> Manager \<Rightarrow> ('h, 's, 'k) Client \<Rightarrow> ('h, 's, 'k) Executor" where
  "Executor_New cfg gpio mqtt = \<lparr>x_cfg = cfg, x_gpio = gpio, x_mqtt = mqtt\<rparr>"

record outputStats =
  Total :: u64
  Captured :: u64
  Truncated :: bool

record boundedOutput =
  bo_total :: u64
  bo_data :: bytes
  bo_truncated :: bool

datatype action_failure =
    AGpio manager_error | AMqtt client_error | AUnsupported string
  | AParseDelay string | AContext ctx_error
  | ANotAbsolute | AStart string | AUnavailable
  | ATimedOut duration string | ACanceled string
  | ACommandFailed string string | AObserve string string
  | ATerminate string action_failure

datatype exec_error = Interrupted ctx_error | ActionFailed nat string action_failure

datatype 'e outcome = Ok | Err 'e | Panic

subsection \<open>Bounded output\<close>

definition empty_output :: boundedOutput where
  "empty_output = \<lparr>bo_total = 0, bo_data = [], bo_truncated = False\<rparr>"

definition MaxUint64 :: u64 where
  "MaxUint64 = - 1"

definition output_Write :: "boundedOutput \<Rightarrow> bytes \<Rightarrow> boundedOutput" where
  "output_Write o1 p =
     (let amount = of_nat (length p) :: u64;
          o2 = (if MaxUint64 - bo_total o1 < amount then o1\<lparr>bo_total := MaxUint64, bo_truncated := True\<rparr>
                else o1\<lparr>bo_total := bo_total o1 + amount\<rparr>);
          remaining = commandOutputLimit - int (length (bo_data o2));
          captured = int (length p)
      in if captured > remaining
         then o2\<lparr>bo_truncated := True, bo_data := bo_data o2 @ take (nat remaining) p\<rparr>
         else o2\<lparr>bo_data := bo_data o2 @ take (nat captured) p\<rparr>)"

definition snapshot :: "boundedOutput \<Rightarrow> outputStats" where
  "snapshot o1 = \<lparr>Total = bo_total o1, Captured = of_nat (length (bo_data o1)), Truncated = bo_truncated o1\<rparr>"

definition formatOutputStats :: "outputStats \<Rightarrow> string" where
  "formatOutputStats stats =
     ''output_total_bytes='' @ decimal (unat (Total stats)) @ '' output_captured_bytes='' @ decimal (unat (Captured stats))
     @ '' output_truncated='' @ (if Truncated stats then ''true'' else ''false'')"

definition no_stats :: outputStats where
  "no_stats = \<lparr>Total = 0, Captured = 0, Truncated = False\<rparr>"

subsection \<open>Environment of a command\<close>

definition sortedEnvironment :: "string gomap \<Rightarrow> string list" where
  "sortedEnvironment values =
     map (\<lambda>key. key @ ''='' @ (case map_of values key of None \<Rightarrow> [] | Some v \<Rightarrow> v)) (sort (map fst values))"

definition default_environment :: "string gomap" where
  "default_environment = [(''LANG'', ''C''), (''LC_ALL'', ''C''),
     (''PATH'', ''/usr/local/sbin:/usr/local/bin:/usr/sbin:/usr/bin:/sbin:/bin'')]"

definition minimalEnvironment :: "string gomap \<Rightarrow> string list" where
  "minimalEnvironment values = sortedEnvironment (foldl (\<lambda>e (name, v). put name v e) default_environment values)"

subsection \<open>Process primitives\<close>

definition sanitizeStartError :: "go_error \<Rightarrow> action_failure" where
  "sanitizeStartError err =
     (case err of PathError path cause \<Rightarrow> AStart cause | ExecError name cause \<Rightarrow> AStart cause | OtherError _ \<Rightarrow> AUnavailable)"

definition runnable :: "file_info \<Rightarrow> bool" where
  "runnable info \<longleftrightarrow> IsRegular info \<and> Perm info AND 0x49 \<noteq> 0"

text \<open>
  Each primitive has a Linux version and one for other systems, selected by the platform. The path
  the process is started from: on Linux the file descriptor opened before the check, else the path.
\<close>

definition bindCommandExecutable_linux :: "env \<Rightarrow> string \<Rightarrow> trace \<Rightarrow> (go_error + string) \<times> trace" where
  "bindCommandExecutable_linux E path w =
     (let r = e_open_executable E w path; w1 = w @ [EvOpenExecutable path r]
      in (case r of
            Inl e \<Rightarrow> Inl e
          | Inr info \<Rightarrow> if \<not> runnable info then Inl (OtherError ''executable is not a regular executable file'')
                        else Inr (''/proc/self/fd/'' @ decimal 3), w1))"

definition bindCommandExecutable_other :: "env \<Rightarrow> string \<Rightarrow> trace \<Rightarrow> (go_error + string) \<times> trace" where
  "bindCommandExecutable_other E path w =
     (let r = e_stat E w path; w1 = w @ [EvStat path r]
      in (case r of
            Inl e \<Rightarrow> Inl e
          | Inr info \<Rightarrow> if \<not> runnable info then Inl (OtherError ''executable is not a regular executable file'')
                        else Inr path, w1))"

definition bindCommandExecutable :: "platform \<Rightarrow> env \<Rightarrow> string \<Rightarrow> trace \<Rightarrow> (go_error + string) \<times> trace" where
  "bindCommandExecutable pf E path w =
     (case pf of Linux \<Rightarrow> bindCommandExecutable_linux E path w | OtherOS \<Rightarrow> bindCommandExecutable_other E path w)"

definition send_signal :: "env \<Rightarrow> nat \<Rightarrow> signal \<Rightarrow> trace \<Rightarrow> string option \<times> trace" where
  "send_signal E pid s w = (e_signal E w pid s, w @ [EvSignal pid s (e_signal E w pid s)])"

definition signalCommandGroup_linux :: "env \<Rightarrow> nat \<Rightarrow> bool \<Rightarrow> trace \<Rightarrow> string option \<times> trace" where
  "signalCommandGroup_linux E pid force w =
     (let (r, w1) = send_signal E pid (if force then SIGKILL else SIGTERM) w
      in (if r = Some ''ESRCH'' then None else r, w1))"

definition signalCommandGroup_other :: "env \<Rightarrow> nat \<Rightarrow> bool \<Rightarrow> trace \<Rightarrow> string option \<times> trace" where
  "signalCommandGroup_other E pid force w =
     (let r = e_find_process E w pid; w1 = w @ [EvFindProcess pid r]
      in case r of
           Some e \<Rightarrow> (Some e, w1)
         | None \<Rightarrow>
             (let (r2, w2) = send_signal E pid SIGKILL w1
              in (if r2 = Some ''ErrProcessDone'' then None else r2, w2)))"

definition signalCommandGroup :: "platform \<Rightarrow> env \<Rightarrow> nat \<Rightarrow> bool \<Rightarrow> trace \<Rightarrow> string option \<times> trace" where
  "signalCommandGroup pf E pid force w =
     (case pf of Linux \<Rightarrow> signalCommandGroup_linux E pid force w | OtherOS \<Rightarrow> signalCommandGroup_other E pid force w)"

definition terminateCommandGroup_linux :: "env \<Rightarrow> nat \<Rightarrow> duration \<Rightarrow> trace \<Rightarrow> string option \<times> trace" where
  "terminateCommandGroup_linux E pid grace w =
     (case signalCommandGroup Linux E pid False w of
        (Some e, w1) \<Rightarrow> (Some e, w1)
      | (None, w1) \<Rightarrow> signalCommandGroup Linux E pid True (w1 @ [EvSleep grace]))"

definition terminateCommandGroup_other :: "env \<Rightarrow> nat \<Rightarrow> duration \<Rightarrow> trace \<Rightarrow> string option \<times> trace" where
  "terminateCommandGroup_other E pid grace w = signalCommandGroup OtherOS E pid True w"

definition terminateCommandGroup :: "platform \<Rightarrow> env \<Rightarrow> nat \<Rightarrow> duration \<Rightarrow> trace \<Rightarrow> string option \<times> trace" where
  "terminateCommandGroup pf E pid grace w =
     (case pf of Linux \<Rightarrow> terminateCommandGroup_linux E pid grace w | OtherOS \<Rightarrow> terminateCommandGroup_other E pid grace w)"

text \<open>
  \<open>waiter.wait\<close>: reap the process; on Linux an error of the observing \<open>waitid\<close> is reported first.
  The chunks written to the output until then are the second answer.
\<close>

definition wait_error_linux :: "string option \<Rightarrow> string option \<Rightarrow> (string \<times> string) option" where
  "wait_error_linux observeErr waitErr =
     (case observeErr of Some e \<Rightarrow> Some (''observe command exit'', e) | None \<Rightarrow> map_option (\<lambda>e. ([], e)) waitErr)"

definition wait_error_other :: "string option \<Rightarrow> string option \<Rightarrow> (string \<times> string) option" where
  "wait_error_other observeErr waitErr = map_option (\<lambda>e. ([], e)) waitErr"

definition waiter_wait :: "platform \<Rightarrow> env \<Rightarrow> trace \<Rightarrow> (string \<times> string) option \<times> boundedOutput \<times> trace" where
  "waiter_wait pf E w =
     (let chunks = e_output E w; w1 = w @ [EvOutput chunks]; (observeErr, waitErr) = e_wait E w1;
          w2 = w1 @ [EvWait observeErr waitErr];
          err = (case pf of Linux \<Rightarrow> wait_error_linux observeErr waitErr | OtherOS \<Rightarrow> wait_error_other observeErr waitErr)
      in (err, foldl output_Write empty_output chunks, w2))"

lemmas process_defs = bindCommandExecutable_def bindCommandExecutable_linux_def bindCommandExecutable_other_def
  signalCommandGroup_def signalCommandGroup_linux_def signalCommandGroup_other_def

lemmas terminate_defs = terminateCommandGroup_def terminateCommandGroup_linux_def terminateCommandGroup_other_def

subsection \<open>Commands\<close>

definition commandContextError :: "ctx_error option \<Rightarrow> duration \<Rightarrow> outputStats \<Rightarrow> action_failure" where
  "commandContextError err timeout stats =
     (if err = Some DeadlineExceeded then ATimedOut timeout (formatOutputStats stats)
      else ACanceled (formatOutputStats stats))"

definition command_failure :: "outputStats \<Rightarrow> string \<times> string \<Rightarrow> action_failure" where
  "command_failure stats err =
     (if fst err = [] then ACommandFailed (formatOutputStats stats) (snd err)
      else AObserve (formatOutputStats stats) (snd err))"

definition finish_command ::
  "platform \<Rightarrow> env \<Rightarrow> duration \<Rightarrow> nat \<Rightarrow> trace \<Rightarrow> outputStats \<times> action_failure option \<times> trace" where
  "finish_command pf E timeout pid w =
     (let sel = e_select E w; w1 = w @ [EvSelect sel]
      in case sel of
           CommandDone \<Rightarrow>
             (let (err, out, w2) = waiter_wait pf E w1; stats = snapshot out;
                  (ctxErr, w3) = ask_ctx E (CommandCtx timeout) w2
              in case ctxErr of
                   Some e \<Rightarrow> (stats, Some (commandContextError ctxErr timeout stats), w3)
                 | None \<Rightarrow> (stats, map_option (command_failure stats) err, w3))
         | ContextDone \<Rightarrow>
             (let (terminationErr, w2) = terminateCommandGroup pf E pid commandTerminateGrace w1;
                  (_, out, w3) = waiter_wait pf E w2; stats = snapshot out;
                  (ctxErr, w4) = ask_ctx E (CommandCtx timeout) w3;
                  contextErr = commandContextError ctxErr timeout stats
              in case terminationErr of
                   Some e \<Rightarrow> (stats, Some (ATerminate e contextErr), w4)
                 | None \<Rightarrow> (stats, Some contextErr, w4)))"

definition runCommand ::
  "platform \<Rightarrow> env \<Rightarrow> stdlib \<Rightarrow> Action \<Rightarrow> trace \<Rightarrow> outputStats \<times> action_failure option \<times> trace" where
  "runCommand pf E L a w =
     (if \<not> IsAbs (Command a) then (no_stats, Some ANotAbsolute, w)
      else (let timeout = CommandTimeout L a; (ctxErr, w1) = ask_ctx E (CommandCtx timeout) w
            in case ctxErr of
                 Some e \<Rightarrow> (no_stats, Some (commandContextError ctxErr timeout no_stats), w1)
               | None \<Rightarrow>
                   (case bindCommandExecutable pf E (Command a) w1 of
                      (Inl err, w2) \<Rightarrow> (no_stats, Some (sanitizeStartError err), w2)
                    | (Inr path, w2) \<Rightarrow>
                        (let argv = Command a # Args a; en = minimalEnvironment (Env a);
                             r = e_start E w2 path argv (WorkingDir a) en;
                             w3 = w2 @ [EvStart path argv (WorkingDir a) en r]
                         in case r of
                              Inl err \<Rightarrow> (snapshot empty_output, Some (sanitizeStartError err), w3)
                            | Inr pid \<Rightarrow> finish_command pf E timeout pid w3))))"

definition executeCommand :: "platform \<Rightarrow> env \<Rightarrow> stdlib \<Rightarrow> Action \<Rightarrow> trace \<Rightarrow> action_failure option \<times> trace" where
  "executeCommand pf E L a w = (let (stats, err, w1) = runCommand pf E L a w in (err, w1))"

definition executeDelay :: "env \<Rightarrow> stdlib \<Rightarrow> string \<Rightarrow> trace \<Rightarrow> action_failure option \<times> trace" where
  "executeDelay E L raw w =
     (case ParseDuration L raw of
        None \<Rightarrow> (Some (AParseDelay raw), w)
      | Some d \<Rightarrow>
          (let fired = e_delay E w d; w1 = w @ [EvDelay d fired]
           in if fired then (None, w1)
              else (let (e, w2) = ask_ctx E ServiceCtx w1 in (map_option AContext e, w2))))"

subsection \<open>Actions\<close>

definition of_error :: "'e option \<Rightarrow> 'e outcome" where
  "of_error e = (case e of None \<Rightarrow> Ok | Some x \<Rightarrow> Err x)"

definition executeOne ::
  "platform \<Rightarrow> env \<Rightarrow> stdlib \<Rightarrow> ('h, 's, 'k) Executor \<Rightarrow> Action \<Rightarrow> trace \<Rightarrow> action_failure outcome \<times> trace" where
  "executeOne pf E L x a w =
     (if Act_Type a = ''gpio'' then
        (case Value a of
           None \<Rightarrow> (Panic, w)
         | Some v \<Rightarrow> map_prod (of_error \<circ> map_option AGpio) id (SetOutput E (x_gpio x) (Act_GPIO a) v w))
      else if Act_Type a = ''command'' then map_prod of_error id (executeCommand pf E L a w)
      else if Act_Type a = ''delay'' then map_prod of_error id (executeDelay E L (Duration a) w)
      else if Act_Type a = ''mqtt'' then
        (let qos = (case Act_QoS a of None \<Rightarrow> MQTTQoS (x_cfg x) | Some q \<Rightarrow> q)
         in map_prod (of_error \<circ> map_option AMqtt) id (Publish E (x_mqtt x) (Topic a) (Payload a) qos (Retain a) w))
      else (Err (AUnsupported (Act_Type a)), w))"

fun execute_from ::
  "platform \<Rightarrow> env \<Rightarrow> stdlib \<Rightarrow> ('h, 's, 'k) Executor \<Rightarrow> nat \<Rightarrow> Action list \<Rightarrow> trace \<Rightarrow> exec_error outcome \<times> trace" where
  "execute_from pf E L x i [] w = (Ok, w)"
| "execute_from pf E L x i (a # actions) w =
     (let (ctxErr, w1) = ask_ctx E ServiceCtx w
      in case ctxErr of
           Some e \<Rightarrow> (Err (Interrupted e), w1)
         | None \<Rightarrow>
             (case executeOne pf E L x a w1 of
                (Panic, w2) \<Rightarrow> (Panic, w2)
              | (Ok, w2) \<Rightarrow> execute_from pf E L x (Suc i) actions w2
              | (Err e, w2) \<Rightarrow>
                  if IgnoreError a then execute_from pf E L x (Suc i) actions w2
                  else (Err (ActionFailed i (Act_Type a) e), w2)))"

definition Execute ::
  "platform \<Rightarrow> env \<Rightarrow> stdlib \<Rightarrow> ('h, 's, 'k) Executor \<Rightarrow> Action list \<Rightarrow> trace \<Rightarrow> exec_error outcome \<times> trace" where
  "Execute pf E L x actions w = execute_from pf E L x 0 actions w"

subsection \<open>Reference\<close>

text \<open>The output represents the bytes written: their first 64 KiB, their number (saturating), and whether some are missing.\<close>

definition output_rep :: "boundedOutput \<Rightarrow> bytes \<Rightarrow> bool" where
  "output_rep o1 s \<longleftrightarrow> bo_data o1 = take 65536 s \<and> unat (bo_total o1) = min (length s) (2 ^ 64 - 1)
     \<and> (bo_truncated o1 \<longleftrightarrow> 65536 < length s)"

fun is_signal :: "event \<Rightarrow> bool" where
  "is_signal (EvSignal pid s r) = True"
| "is_signal e = False"

fun is_wait :: "event \<Rightarrow> bool" where
  "is_wait (EvWait a b) = True"
| "is_wait e = False"

fun is_start :: "event \<Rightarrow> bool" where
  "is_start (EvStart path argv dir en r) = True"
| "is_start e = False"

text \<open>No signal is sent after the process was reaped, when its identifier may belong to another one.\<close>

definition quiet_after_wait :: "event list \<Rightarrow> bool" where
  "quiet_after_wait es \<longleftrightarrow> list_all (\<lambda>e. \<not> is_signal e) (dropWhile (\<lambda>e. \<not> is_wait e) es)"

text \<open>Events before the process exists.\<close>

definition probe_event :: "event \<Rightarrow> bool" where
  "probe_event e \<longleftrightarrow> \<not> is_wait e \<and> \<not> is_start e \<and> \<not> is_signal e \<and> (\<forall>sel. e \<noteq> EvSelect sel)"

definition plain_event :: "event \<Rightarrow> bool" where
  "plain_event e \<longleftrightarrow> \<not> is_wait e \<and> \<not> is_start e"

section \<open>Lemmas\<close>

subsection \<open>Output\<close>

lemma unat_MaxUint64: "unat MaxUint64 = 2 ^ 64 - 1"
  by (simp add: MaxUint64_def unsigned_minus_1_eq_mask mask_eq_exp_minus_1)

lemma output_Write_fields:
  assumes "output_rep o1 s"
  shows "bo_data (output_Write o1 p) = take 65536 (s @ p)"
    and "bo_truncated (output_Write o1 p) \<longleftrightarrow>
      bo_truncated o1 \<or> MaxUint64 - bo_total o1 < of_nat (length p) \<or> 65536 < length (s @ p)"
proof -
  let ?n = "length (bo_data o1)"
  have d: "bo_data o1 = take 65536 s" and n: "?n = min (length s) 65536"
    using assms by (simp_all add: output_rep_def)
  have rem: "nat (commandOutputLimit - int ?n) = 65536 - length s"
    using n by (simp add: commandOutputLimit_def min_def nat_diff_distrib')
  have gt: "commandOutputLimit - int ?n < int (length p) \<longleftrightarrow> 65536 < length s + length p \<and> p \<noteq> []"
    using n by (cases p) (auto simp: commandOutputLimit_def min_def)
  have fit: "take 65536 (s @ p) = take 65536 s @ p" if "\<not> (65536 < length s + length p \<and> p \<noteq> [])"
    using that by (cases "p = []") auto
  show "bo_data (output_Write o1 p) = take 65536 (s @ p)"
    using rem gt fit by (auto simp: output_Write_def Let_def d)
  have "bo_truncated o1 \<longleftrightarrow> 65536 < length s" using assms by (simp add: output_rep_def)
  then show "bo_truncated (output_Write o1 p) \<longleftrightarrow>
      bo_truncated o1 \<or> MaxUint64 - bo_total o1 < of_nat (length p) \<or> 65536 < length (s @ p)"
    using gt by (cases p) (auto simp: output_Write_def Let_def)
qed

lemma output_rep_Write:
  assumes rep: "output_rep o1 s" and len: "length p < 2 ^ 63"
  shows "output_rep (output_Write o1 p) (s @ p)"
proof -
  let ?M = "2 ^ 64 - 1 :: nat" and ?a = "of_nat (length p) :: u64"
  have total: "unat (bo_total o1) = min (length s) ?M" and tr: "bo_truncated o1 \<longleftrightarrow> 65536 < length s"
    using rep by (simp_all add: output_rep_def)
  have a: "unat ?a = length p" using len by (simp add: unat_of_nat)
  have "unat (MaxUint64 - bo_total o1) = ?M - unat (bo_total o1)"
    using unat_sub [of "bo_total o1" MaxUint64] unat_MaxUint64 total by (simp add: word_le_nat_alt)
  then have over: "MaxUint64 - bo_total o1 < ?a \<longleftrightarrow> ?M - unat (bo_total o1) < length p"
    by (simp add: word_less_nat_alt a)
  have sum: "unat (bo_total o1 + ?a) = unat (bo_total o1) + length p" if "\<not> MaxUint64 - bo_total o1 < ?a"
    using that total over a by (subst unat_add_lem [THEN iffD1]) auto
  have "bo_total (output_Write o1 p) = (if MaxUint64 - bo_total o1 < ?a then MaxUint64 else bo_total o1 + ?a)"
    by (simp add: output_Write_def Let_def)
  then have "unat (bo_total (output_Write o1 p)) = min (length (s @ p)) ?M"
    using over sum total unat_MaxUint64 by (auto simp: min_def split: if_splits)
  moreover have "bo_truncated (output_Write o1 p) \<longleftrightarrow> 65536 < length (s @ p)"
    using output_Write_fields(2) [OF rep, of p] over total tr by auto
  ultimately show ?thesis using output_Write_fields(1) [OF rep, of p] by (simp add: output_rep_def)
qed

lemma output_rep_writes:
  "output_rep o1 s \<Longrightarrow> list_all (\<lambda>p. length p < 2 ^ 63) chunks \<Longrightarrow>
     output_rep (foldl output_Write o1 chunks) (s @ concat chunks)"
proof (induction chunks arbitrary: o1 s)
  case (Cons p chunks)
  have "length p < 2 ^ 63" and rest: "list_all (\<lambda>p. length p < 2 ^ 63) chunks"
    using Cons.prems(2) by simp_all
  from Cons.IH [OF output_rep_Write [OF Cons.prems(1) this(1)] rest] show ?case by simp
qed simp

subsection \<open>Environment\<close>

lemma map_of_foldl_put:
  "wf_map m \<Longrightarrow> wf_map vs \<Longrightarrow> map_of (foldl (\<lambda>e (name, v). put name v e) m vs) = map_of m ++ map_of vs
     \<and> wf_map (foldl (\<lambda>e (name, v). put name v e) m vs)"
proof (induction vs arbitrary: m)
  case (Cons x vs)
  obtain k v where x: "x = (k, v)" by (cases x)
  have "wf_map vs" "map_of vs k = None"
    using Cons.prems(2) by (auto simp: x wf_map_def map_of_eq_None_iff)
  then show ?case
    using Cons.IH [OF wf_put [OF Cons.prems(1), of k v]]
    by (simp add: x) (simp add: map_add_def fun_eq_iff split: option.split)
qed simp

lemma sortedEnvironment_set:
  assumes "wf_map m"
  shows "set (sortedEnvironment m) = {k @ ''='' @ v | k v. map_of m k = Some v}"
  using wf_map_of [OF assms] by (force simp: sortedEnvironment_def dest: map_of_SomeD)

subsection \<open>Actions\<close>

lemma executeOne_no_panic: "action_ok L c a \<Longrightarrow> fst (executeOne pf E L x a w) \<noteq> Panic"
  by (auto simp: executeOne_def action_ok_def of_error_def split_beta Let_def split: option.splits)

lemma execute_from_no_panic:
  "\<forall>a \<in> set actions. action_ok L c a \<Longrightarrow> fst (execute_from pf E L x i actions w) \<noteq> Panic"
proof (induction actions arbitrary: i w)
  case (Cons a actions)
  then have IH: "fst (execute_from pf E L x j actions w) \<noteq> Panic" for j w by simp
  show ?case
    using executeOne_no_panic [of L c a pf E x] Cons.prems IH
    by (auto simp: split_beta Let_def split: option.split outcome.split)
qed simp

lemma execute_from_cut:
  "fst (execute_from pf E L x i actions w) = Err (ActionFailed j ty e) \<Longrightarrow>
     i \<le> j \<and> j < i + length actions
     \<and> execute_from pf E L x i (take (Suc (j - i)) actions) w = execute_from pf E L x i actions w
     \<and> Act_Type (actions ! (j - i)) = ty \<and> \<not> IgnoreError (actions ! (j - i))"
proof (induction actions arbitrary: i w)
  case (Cons a actions)
  let ?w = "snd (ask_ctx E ServiceCtx w)"
  have ctx: "fst (ask_ctx E ServiceCtx w) = None"
    using Cons.prems by (auto simp: split_beta Let_def split: option.splits)
  obtain r w2 where one: "executeOne pf E L x a ?w = (r, w2)" by (cases "executeOne pf E L x a ?w")
  show ?case
  proof (cases "r = Ok \<or> (\<exists>e'. r = Err e' \<and> IgnoreError a)")
    case True
    then have step: "execute_from pf E L x i (a # as) w = execute_from pf E L x (Suc i) as w2" for as
      using ctx one by (auto simp: split_beta Let_def)
    from Cons.IH [of "Suc i" w2] Cons.prems
    have IH: "Suc i \<le> j \<and> j < Suc i + length actions
      \<and> execute_from pf E L x (Suc i) (take (Suc (j - Suc i)) actions) w2 = execute_from pf E L x (Suc i) actions w2
      \<and> Act_Type (actions ! (j - Suc i)) = ty \<and> \<not> IgnoreError (actions ! (j - Suc i))"
      unfolding step by blast
    then have "j - i = Suc (j - Suc i)" by (simp add: Suc_diff_Suc)
    with IH show ?thesis by (simp add: step del: execute_from.simps)
  next
    case False
    then show ?thesis using Cons.prems ctx one by (auto simp: split_beta Let_def split: outcome.splits)
  qed
qed simp

subsection \<open>The events of a command\<close>

lemma dropWhile_plain: "list_all plain_event xs \<Longrightarrow> dropWhile (\<lambda>e. \<not> is_wait e) (xs @ ys) = dropWhile (\<lambda>e. \<not> is_wait e) ys"
  by (induction xs) (auto simp: plain_event_def)

lemma signalCommandGroup_events:
  assumes "signalCommandGroup pf E pid force w = (e, w')"
  shows "\<exists>es. w' = w @ es \<and> list_all plain_event es
    \<and> (e = None \<and> force \<longrightarrow> (\<exists>r. EvSignal pid SIGKILL r \<in> set es))"
proof (cases pf)
  case Linux
  with assms show ?thesis
    by (auto simp: process_defs send_signal_def plain_event_def split: if_splits)
next
  case OtherOS
  with assms show ?thesis
    by (cases "e_find_process E w pid")
      (auto simp: process_defs send_signal_def plain_event_def Let_def split: if_splits)
qed

lemma terminateCommandGroup_events:
  assumes "terminateCommandGroup pf E pid grace w = (e, w')"
  shows "\<exists>es. w' = w @ es \<and> list_all plain_event es \<and> (e = None \<longrightarrow> (\<exists>r. EvSignal pid SIGKILL r \<in> set es))"
proof (cases pf)
  case Linux
  obtain e1 w1 where s1: "signalCommandGroup Linux E pid False w = (e1, w1)" by fastforce
  obtain es1 where es1: "w1 = w @ es1" "list_all plain_event es1"
    using signalCommandGroup_events [OF s1] by auto
  show ?thesis
  proof (cases e1)
    case (Some x)
    then show ?thesis using assms Linux s1 es1 by (auto simp: terminate_defs)
  next
    case None
    then have s2: "signalCommandGroup Linux E pid True (w1 @ [EvSleep grace]) = (e, w')"
      using assms Linux s1 by (simp add: terminate_defs)
    obtain es2 where "w' = (w1 @ [EvSleep grace]) @ es2" "list_all plain_event es2"
      "e = None \<longrightarrow> (\<exists>r. EvSignal pid SIGKILL r \<in> set es2)"
      using signalCommandGroup_events [OF s2] by auto
    with es1 show ?thesis
      by (intro exI [of _ "es1 @ [EvSleep grace] @ es2"]) (auto simp: plain_event_def)
  qed
next
  case OtherOS
  then show ?thesis
    using assms signalCommandGroup_events [of OtherOS E pid True w e w'] by (simp add: terminate_defs)
qed

lemma waiter_wait_events: "\<exists>c a b. snd (snd (waiter_wait pf E w)) = w @ [EvOutput c, EvWait a b]"
  by (simp add: waiter_wait_def split_beta Let_def)

lemma finish_command_events:
  assumes "finish_command pf E timeout pid w = (stats, err, w')"
  shows "\<exists>sel es c a b d. w' = w @ [EvSelect sel] @ es @ [EvOutput c, EvWait a b, EvCtx (CommandCtx timeout) d]
    \<and> list_all plain_event es \<and> (sel = CommandDone \<longrightarrow> es = [])
    \<and> (sel = ContextDone \<longrightarrow> (\<exists>e. err = Some e \<and> ((\<exists>r. EvSignal pid SIGKILL r \<in> set es) \<or> (\<exists>t e'. e = ATerminate t e'))))"
proof (cases "e_select E w")
  case CommandDone
  let ?w1 = "w @ [EvSelect CommandDone]"
  obtain c a b where w2: "snd (snd (waiter_wait pf E ?w1)) = ?w1 @ [EvOutput c, EvWait a b]"
    using waiter_wait_events by blast
  have "\<exists>d. w' = snd (snd (waiter_wait pf E ?w1)) @ [EvCtx (CommandCtx timeout) d]"
    using assms CommandDone by (auto simp: finish_command_def ask_ctx_def split_beta Let_def split: option.splits)
  then obtain d where "w' = w @ [EvSelect CommandDone] @ [] @ [EvOutput c, EvWait a b, EvCtx (CommandCtx timeout) d]"
    unfolding w2 by auto
  then show ?thesis
    by (intro exI [of _ CommandDone] exI [of _ "[]"] exI [of _ c] exI [of _ a] exI [of _ b] exI [of _ d]) simp
next
  case ContextDone
  let ?w1 = "w @ [EvSelect ContextDone]"
  obtain te w2 where t: "terminateCommandGroup pf E pid commandTerminateGrace ?w1 = (te, w2)" by fastforce
  obtain es where es: "w2 = ?w1 @ es" "list_all plain_event es" "te = None \<longrightarrow> (\<exists>r. EvSignal pid SIGKILL r \<in> set es)"
    using terminateCommandGroup_events [OF t] by auto
  obtain c a b where w3: "snd (snd (waiter_wait pf E w2)) = w2 @ [EvOutput c, EvWait a b]"
    using waiter_wait_events by blast
  have "\<exists>d. w' = snd (snd (waiter_wait pf E w2)) @ [EvCtx (CommandCtx timeout) d]"
    and "\<exists>e. err = Some e \<and> (te \<noteq> None \<longrightarrow> (\<exists>t e'. e = ATerminate t e'))"
    using assms ContextDone t by (auto simp: finish_command_def ask_ctx_def split_beta Let_def split: option.splits)
  with es w3 show ?thesis
    by (intro exI [of _ ContextDone] exI [of _ es]) auto
qed

lemma quiet_after_waitI:
  "list_all plain_event es \<Longrightarrow> quiet_after_wait (es @ [EvOutput c, EvWait a b, EvCtx s d])"
  by (simp add: quiet_after_wait_def dropWhile_plain)

lemma decimal_3: "decimal 3 = ''3''"
  by code_simp

lemma bindCommandExecutable_event:
  assumes "bindCommandExecutable pf E p w = (r, w')"
  shows "\<exists>ev. w' = w @ [ev] \<and> probe_event ev \<and> (\<forall>path. pf = Linux \<and> r = Inr path \<longrightarrow>
    path = ''/proc/self/fd/3'' \<and> (\<exists>info. ev = EvOpenExecutable p (Inr info) \<and> runnable info))"
proof (cases pf)
  case Linux
  then show ?thesis
    using assms by (auto simp: process_defs probe_event_def Let_def decimal_3 split: sum.splits if_splits)
next
  case OtherOS
  then show ?thesis
    using assms by (auto simp: process_defs probe_event_def Let_def)
qed

lemma runCommand_shape:
  assumes "runCommand pf E L a w = (stats, err, w')"
  obtains (quiet) es where "w' = w @ es" "list_all probe_event es"
    | (failed) ev path r where "w' = w @ [EvCtx (CommandCtx (CommandTimeout L a)) None, ev,
          EvStart path (Command a # Args a) (WorkingDir a) (minimalEnvironment (Env a)) r]" "probe_event ev"
        "pf = Linux \<longrightarrow> path = ''/proc/self/fd/3'' \<and> (\<exists>info. ev = EvOpenExecutable (Command a) (Inr info) \<and> runnable info)"
    | (started) ev path r pid w3 where "w3 = w @ [EvCtx (CommandCtx (CommandTimeout L a)) None, ev,
          EvStart path (Command a # Args a) (WorkingDir a) (minimalEnvironment (Env a)) r]" "probe_event ev"
        "pf = Linux \<longrightarrow> path = ''/proc/self/fd/3'' \<and> (\<exists>info. ev = EvOpenExecutable (Command a) (Inr info) \<and> runnable info)"
        "finish_command pf E (CommandTimeout L a) pid w3 = (stats, err, w')"
proof -
  let ?c = "CommandCtx (CommandTimeout L a)"
  let ?w1 = "w @ [EvCtx ?c (e_ctx E w ?c)]"
  consider "\<not> IsAbs (Command a)" | "IsAbs (Command a)" "e_ctx E w ?c \<noteq> None" | "IsAbs (Command a)" "e_ctx E w ?c = None"
    by blast
  then show ?thesis
  proof cases
    case 1
    then show ?thesis using assms quiet [of "[]"] by (simp add: runCommand_def)
  next
    case 2
    then show ?thesis using assms quiet [of "[EvCtx ?c (e_ctx E w ?c)]"]
      by (auto simp: runCommand_def ask_ctx_def probe_event_def Let_def)
  next
    case 3
    obtain b w2 where b: "bindCommandExecutable pf E (Command a) ?w1 = (b, w2)" by fastforce
    obtain ev where ev: "w2 = ?w1 @ [ev]" "probe_event ev" "\<forall>path. pf = Linux \<and> b = Inr path \<longrightarrow>
        path = ''/proc/self/fd/3'' \<and> (\<exists>info. ev = EvOpenExecutable (Command a) (Inr info) \<and> runnable info)"
      using bindCommandExecutable_event [OF b] by auto
    show ?thesis
    proof (cases b)
      case (Inl e)
      then show ?thesis using assms 3 b ev quiet [of "[EvCtx ?c None, ev]"]
        by (simp add: runCommand_def ask_ctx_def probe_event_def Let_def)
    next
      case (Inr path)
      let ?r = "e_start E w2 path (Command a # Args a) (WorkingDir a) (minimalEnvironment (Env a))"
      let ?st = "EvStart path (Command a # Args a) (WorkingDir a) (minimalEnvironment (Env a)) ?r"
      show ?thesis
      proof (cases ?r)
        case (Inl e)
        then have "w' = w2 @ [?st]" using assms 3 b Inr by (simp add: runCommand_def ask_ctx_def Let_def)
        then show ?thesis using failed [of ev path ?r] ev 3 Inr by simp
      next
        case (Inr pid)
        then have "finish_command pf E (CommandTimeout L a) pid (w2 @ [?st]) = (stats, err, w')"
          using assms 3 b \<open>b = Inr path\<close> by (simp add: runCommand_def ask_ctx_def Let_def)
        then show ?thesis using started [of "w2 @ [?st]" ev path ?r pid] ev 3 \<open>b = Inr path\<close> by simp
      qed
    qed
  qed
qed

definition ex_manager :: Manager where
  "ex_manager = fst (snd (OpenOutputs sim_env (Manager_New ex_gpio) []))"

definition ex_executor :: "(string, nat, nat) Executor" where
  "ex_executor = Executor_New ex_config ex_manager ex_client"

section \<open>Properties\<close>



text \<open>
  C28. The captured output is exact: after any sequence of writes, the buffer holds the first 64 KiB
  of the bytes written, the total is their number (saturating at the largest 64-bit value instead of
  wrapping), and the truncation flag is set exactly when something was cut.
\<close>

theorem boundedOutput_exact:
  assumes "list_all (\<lambda>p. length p < 2 ^ 63) chunks"
  shows "let out = foldl output_Write empty_output chunks; s = concat chunks in
    bo_data out = take 65536 s \<and> unat (Total (snapshot out)) = min (length s) (2 ^ 64 - 1)
    \<and> unat (Captured (snapshot out)) = min (length s) 65536 \<and> (Truncated (snapshot out) \<longleftrightarrow> 65536 < length s)"
proof -
  have "output_rep empty_output []" by (simp add: output_rep_def empty_output_def)
  from output_rep_writes [OF this assms] show ?thesis
    by (simp add: output_rep_def snapshot_def Let_def unat_of_nat)
qed

theorem boundedOutput_exact_witness:
  "bo_data (foldl output_Write empty_output [''ab'', ''c'']) = ''abc''"
  using boundedOutput_exact [of "[''ab'', ''c'']"] by (simp add: Let_def)





end
