(* ===== verification/Entity_Protocol.thy ===== *)
theory Entity_Protocol
  imports Mqtt_Client
begin

section \<open>Topics and payloads of the entities (controller/controller.go)\<close>

text \<open>
  The pure part of the controller: the topics an entity uses, the payloads it understands and
  publishes, and the Home Assistant description of an entity as a JSON object.
\<close>

definition entityTopic :: "Config \<Rightarrow> string \<Rightarrow> string \<Rightarrow> string" where
  "entityTopic cfg entityID suffix = BaseTopic (MQTT cfg) @ ''/'' @ entityID @ ''/'' @ suffix"

definition statePayload :: "bool \<Rightarrow> string" where
  "statePayload state = (if state then ''ON'' else ''OFF'')"

text \<open>The pair is Go's: the state, and whether the payload was understood.\<close>

definition parseSwitchPayload :: "bytes \<Rightarrow> bool \<times> bool" where
  "parseSwitchPayload payload =
     (let s = ToUpper (TrimSpace payload)
      in if s = ''ON'' \<or> s = ''1'' \<or> s = ''TRUE'' then (True, True)
         else if s = ''OFF'' \<or> s = ''0'' \<or> s = ''FALSE'' then (False, True)
         else (False, False))"

definition is_press :: "bytes \<Rightarrow> bool" where
  "is_press payload \<longleftrightarrow> TrimSpace (ToUpper payload) = ''PRESS''"

definition boundedPayload :: "bytes \<Rightarrow> string" where
  "boundedPayload payload = (if int (length payload) \<le> 128 then payload else take 128 payload @ ''...'')"

subsection \<open>The discovery description\<close>

datatype json = JStr string | JNum int | JBool bool | JArr "json list" | JObj "(string \<times> json) list"

definition device_payload :: "Config \<Rightarrow> json gomap" where
  "device_payload cfg =
     [(''identifiers'', JArr [JStr (Dev_ID (Device cfg))]), (''name'', JStr (Dev_Name (Device cfg))),
      (''manufacturer'', JStr (Manufacturer (Device cfg))), (''model'', JStr (Model (Device cfg)))]"

definition base_payload :: "Config \<Rightarrow> EntityConfig \<Rightarrow> json gomap" where
  "base_payload cfg entity =
     [(''name'', JStr (Ent_Name entity)), (''unique_id'', JStr (Dev_ID (Device cfg) @ ''_'' @ Ent_ID entity)),
      (''availability_topic'', JStr (StatusTopic cfg)), (''payload_available'', JStr ''online''),
      (''payload_not_available'', JStr ''offline''), (''device'', JObj (device_payload cfg)),
      (''qos'', JNum (uint (MQTTQoS cfg)))]"

definition discoveryPayload :: "Config \<Rightarrow> EntityConfig \<Rightarrow> json gomap" where
  "discoveryPayload cfg entity =
     (let base = base_payload cfg entity;
          base1 = (if Icon entity \<noteq> [] then put ''icon'' (JStr (Icon entity)) base else base);
          base2 = (if DeviceClass entity \<noteq> [] then put ''device_class'' (JStr (DeviceClass entity)) base1 else base1)
      in if Ent_Type entity = ''switch'' then
           put ''optimistic'' (JBool False) (put ''payload_off'' (JStr ''OFF'') (put ''payload_on'' (JStr ''ON'')
             (put ''state_topic'' (JStr (entityTopic cfg (Ent_ID entity) ''state''))
               (put ''command_topic'' (JStr (entityTopic cfg (Ent_ID entity) ''set'')) base2))))
         else if Ent_Type entity = ''button'' then
           put ''payload_press'' (JStr ''PRESS'')
             (put ''command_topic'' (JStr (entityTopic cfg (Ent_ID entity) ''press'')) base2)
         else if Ent_Type entity = ''binary_sensor'' then
           put ''payload_off'' (JStr ''OFF'') (put ''payload_on'' (JStr ''ON'')
             (put ''state_topic'' (JStr (entityTopic cfg (Ent_ID entity) ''state'')) base2))
         else base2)"

section \<open>Lemmas\<close>

lemma entityTopic_inject:
  assumes "CHR ''/'' \<notin> set i" and "CHR ''/'' \<notin> set j" and "CHR ''/'' \<notin> set s" and "CHR ''/'' \<notin> set t"
  shows "entityTopic cfg i s = entityTopic cfg j t \<longleftrightarrow> i = j \<and> s = t"
proof
  assume "entityTopic cfg i s = entityTopic cfg j t"
  then have "i @ CHR ''/'' # s = j @ CHR ''/'' # t"
    by (simp add: entityTopic_def)
  then show "i = j \<and> s = t" by (rule append_sep_inject) (use assms in auto)
qed simp

lemma parse_statePayload: "parseSwitchPayload (statePayload b) = (b, True)"
proof -
  have "parseSwitchPayload (statePayload True) = (True, True)" by code_simp
  moreover have "parseSwitchPayload (statePayload False) = (False, True)" by code_simp
  ultimately show ?thesis by (cases b) simp_all
qed

lemma wf_discoveryPayload: "wf_map (discoveryPayload cfg entity)"
proof -
  have "wf_map (base_payload cfg entity)"
    by (simp add: wf_map_def base_payload_def)
  then show ?thesis by (simp add: discoveryPayload_def Let_def wf_put)
qed

end
