(* ===== verification/Discovery_State.thy ===== *)
theory Discovery_State
  imports Entity_Protocol
begin

section \<open>The discovery manifest (controller/discovery.go)\<close>

text \<open>
  The private file that records which retained discovery topics the controller owns: its validation,
  the set operations on topics, the exclusive lock, reading it, and replacing it atomically through a
  temporary file. The JSON codec is a parameter (\<open>codec\<close>): what the theorems need of it, that
  decoding what was encoded gives the state back, is a named hypothesis.
\<close>

definition discoveryStateVersion :: int where
  "discoveryStateVersion = 1"

definition maxDiscoveryStateSize :: int where
  "maxDiscoveryStateSize = 64 * 1024"

record discoveryState =
  Version :: int
  OwnerID :: string
  DeviceID :: string
  Topics :: "string list"

definition no_state :: discoveryState where
  "no_state = \<lparr>Version = 0, OwnerID = [], DeviceID = [], Topics = []\<rparr>"

text \<open>
  \<open>json.Marshal\<close> of a payload, \<open>json.MarshalIndent\<close> of a state, and the strict decoder followed by
  the test for trailing data.
\<close>

record codec =
  Marshal :: "json gomap \<Rightarrow> string + bytes"
  MarshalIndent :: "discoveryState \<Rightarrow> string + bytes"
  Decode :: "bytes \<Rightarrow> string + discoveryState"

datatype discovery_error =
    DMarshal string string | DRemove string client_error | DPublish string string client_error
  | DMkdir string string | DResolve string string | DSymlink string | DStatDir string string | DDirPrivate string
  | DOpenLock string string | DStatFile string string | DFilePrivate string | DLock string string
  | DOpenState string string | DDecode string string | DInvalid string
  | DOwner string string string | DEncode string string | DTooLarge string | DWrite string string

subsection \<open>Validation\<close>

definition id_byte :: "char \<Rightarrow> bool" where
  "id_byte c \<longleftrightarrow> \<not> ((c < CHR ''a'' \<or> c > CHR ''z'') \<and> (c < CHR ''0'' \<or> c > CHR ''9''))"

definition validDiscoveryID :: "string \<Rightarrow> bool" where
  "validDiscoveryID v =
     (case v of
        [] \<Rightarrow> False
      | c # cs \<Rightarrow> if \<not> id_byte c then False
                  else list_all (\<lambda>d. id_byte d \<or> d = CHR ''_'' \<or> d = CHR ''-'') cs)"

definition ownedDiscoveryTopic :: "string \<Rightarrow> string \<Rightarrow> bool" where
  "ownedDiscoveryTopic topic deviceID =
     (let parts = Split topic (CHR ''/''); n = length parts
      in if n < 5 \<or> parts ! (n - 1) \<noteq> ''config'' \<or> parts ! (n - 3) \<noteq> deviceID \<or> \<not> validDiscoveryID (parts ! (n - 2))
         then False
         else if \<not> List.member [''switch'', ''button'', ''binary_sensor''] (parts ! (n - 4)) then False
         else (let prefix = Join (take (n - 4) parts) ''/'' in prefix \<noteq> [] \<and> \<not> ContainsAny prefix ''+#''))"

fun validate_topics :: "string \<Rightarrow> string list \<Rightarrow> string list \<Rightarrow> discovery_error option" where
  "validate_topics deviceID seen [] = None"
| "validate_topics deviceID seen (topic # topics) =
     (if \<not> ownedDiscoveryTopic topic deviceID then Some (DInvalid topic)
      else if List.member seen topic then Some (DInvalid topic)
      else validate_topics deviceID (topic # seen) topics)"

definition validateDiscoveryState :: "discoveryState \<Rightarrow> discovery_error option" where
  "validateDiscoveryState st =
     (if Version st = 0 \<and> OwnerID st = [] \<and> DeviceID st = [] \<and> Topics st = [] then None
      else if Version st \<noteq> discoveryStateVersion then Some (DInvalid ''unsupported version'')
      else if OwnerID st = [] then Some (DInvalid ''missing owner_id'')
      else if \<not> validDiscoveryID (DeviceID st) then Some (DInvalid ''invalid device_id'')
      else validate_topics (DeviceID st) [] (Topics st))"

subsection \<open>Sets of topics\<close>

definition unionTopics :: "string list \<Rightarrow> string list \<Rightarrow> string list" where
  "unionTopics xs ys = sort (remdups (xs @ ys))"

definition differenceTopics :: "string list \<Rightarrow> string list \<Rightarrow> string list" where
  "differenceTopics previous desired = sort (filter (\<lambda>t. \<not> List.member desired t) previous)"

subsection \<open>Files\<close>

text \<open>\<open>filepath.Dir\<close>: everything up to the last slash, cleaned.\<close>

definition Dir :: "string \<Rightarrow> string" where
  "Dir path = Clean (rev (dropWhile (\<lambda>c. c \<noteq> CHR ''/'') (rev path)))"

definition validatePrivateDirectory :: "env \<Rightarrow> string \<Rightarrow> trace \<Rightarrow> discovery_error option" where
  "validatePrivateDirectory E path w =
     (let clean = Clean path
      in case e_symlinks E w clean of
           Inl e \<Rightarrow> Some (DResolve clean e)
         | Inr target \<Rightarrow>
             if target \<noteq> clean then Some (DSymlink clean)
             else (case e_lstat E w clean of
                 Inl e \<Rightarrow> Some (DStatDir clean e)
               | Inr info \<Rightarrow>
                   fail_if (fi_kind info \<noteq> Directory \<or> fi_mode info AND 0x12 \<noteq> 0 \<or> fi_uid info \<noteq> e_euid E)
                     (DDirPrivate clean)))"

definition validatePrivateFile :: "env \<Rightarrow> string \<Rightarrow> int \<Rightarrow> trace \<Rightarrow> discovery_error option" where
  "validatePrivateFile E path maxSize w =
     (case e_fstat E w path of
        Inl e \<Rightarrow> Some (DStatFile path e)
      | Inr info \<Rightarrow>
          fail_if (fi_kind info \<noteq> Regular \<or> fi_mode info AND 0x1FF \<noteq> 0x180 \<or> fi_uid info \<noteq> e_euid E
            \<or> maxSize > 0 \<and> fi_size info > maxSize) (DFilePrivate path))"

definition lockDiscoveryState :: "env \<Rightarrow> string \<Rightarrow> trace \<Rightarrow> discovery_error option \<times> trace" where
  "lockDiscoveryState E path w =
     (let dir = Dir path; lockPath = path @ ''.lock'' in
      and_then (disk_step E (DMkdir dir) (MkdirAll dir) w) (\<lambda>w1.
      and_then (validatePrivateDirectory E dir w1, w1) (\<lambda>w2.
      and_then (disk_step E (DOpenLock lockPath) (OpenLock lockPath) w2) (\<lambda>w3.
      and_then (validatePrivateFile E lockPath 0 w3, w3) (\<lambda>w4.
      disk_step E (DLock path) (FlockEx lockPath) w4)))))"

definition unlockDiscoveryState :: "env \<Rightarrow> string \<Rightarrow> trace \<Rightarrow> trace" where
  "unlockDiscoveryState E path w = snd (do_disk E (FlockUn (path @ ''.lock'')) w)"

text \<open>The content as the decoder sees it: at most one byte more than the limit.\<close>

definition manifest_of :: "codec \<Rightarrow> bytes \<Rightarrow> string + discoveryState" where
  "manifest_of C content = Decode C (take (nat (maxDiscoveryStateSize + 1)) content)"

definition loadDiscoveryState :: "env \<Rightarrow> codec \<Rightarrow> string \<Rightarrow> trace \<Rightarrow> discovery_error + discoveryState" where
  "loadDiscoveryState E C path w =
     (case e_open_state E w path of
        Inl None \<Rightarrow> Inr no_state
      | Inl (Some e) \<Rightarrow> Inl (DOpenState path e)
      | Inr content \<Rightarrow>
          (case validatePrivateFile E path maxDiscoveryStateSize w of
             Some e \<Rightarrow> Inl e
           | None \<Rightarrow> (case manifest_of C content of Inl e \<Rightarrow> Inl (DDecode path e) | Inr st \<Rightarrow> Inr st)))"

text \<open>
  The steps on the temporary file: the first that fails ends the write, and the temporary file is
  removed.
\<close>

fun temp_steps :: "env \<Rightarrow> string \<Rightarrow> disk_op list \<Rightarrow> trace \<Rightarrow> discovery_error option \<times> trace" where
  "temp_steps E path [] w = (None, w)"
| "temp_steps E path (d # ds) w =
     (case do_disk E d w of
        (Some e, w1) \<Rightarrow> (Some (DWrite path e), snd (do_disk E RemoveTemp w1))
      | (None, w1) \<Rightarrow> temp_steps E path ds w1)"

definition writeDiscoveryState ::
  "env \<Rightarrow> codec \<Rightarrow> string \<Rightarrow> discoveryState \<Rightarrow> trace \<Rightarrow> discovery_error option \<times> trace" where
  "writeDiscoveryState E C path st w =
     (case MarshalIndent C (st\<lparr>Topics := sort (Topics st)\<rparr>) of
        Inl e \<Rightarrow> (Some (DEncode path e), w)
      | Inr encoded0 \<Rightarrow>
          (let encoded = encoded0 @ [CHR 0x0A]; dir = Dir path
           in if int (length encoded) > maxDiscoveryStateSize then (Some (DTooLarge path), w)
              else and_then (disk_step E (DMkdir dir) (MkdirAll dir) w) (\<lambda>w1.
                   and_then (validatePrivateDirectory E dir w1, w1) (\<lambda>w2.
                   and_then (disk_step E (DWrite path) (CreateTemp dir) w2) (\<lambda>w3.
                   and_then (temp_steps E path
                     [ChmodTemp, WriteTemp encoded, SyncTemp, CloseTemp, RenameTemp path encoded] w3) (\<lambda>w4.
                   and_then (disk_step E (DWrite path) (OpenDir dir) w4) (\<lambda>w5.
                   disk_step E (DWrite path) (SyncDir dir) w5)))))))"

subsection \<open>What holds at every instant\<close>

text \<open>
  A process can stop between any two events. \<open>keeps Q w w'\<close> says that \<open>Q\<close> holds of the trace \<open>w\<close>
  and of every extension up to \<open>w'\<close>.
\<close>

definition keeps :: "(trace \<Rightarrow> bool) \<Rightarrow> trace \<Rightarrow> trace \<Rightarrow> bool" where
  "keeps Q w w' \<longleftrightarrow> (\<exists>es. w' = w @ es \<and> (\<forall>n \<le> length es. Q (w @ take n es)))"

text \<open>
  What the JSON package promises, for the strings \<open>S\<close> it can represent (valid UTF-8): decoding an
  encoded state of the current version gives it back, and everything decoded is representable.
\<close>

definition codec_ok :: "codec \<Rightarrow> string set \<Rightarrow> bool" where
  "codec_ok C S \<longleftrightarrow>
     (\<forall>st b. Version st = discoveryStateVersion \<longrightarrow>
        insert (OwnerID st) (insert (DeviceID st) (set (Topics st))) \<subseteq> S \<longrightarrow> MarshalIndent C st = Inr b
        \<longrightarrow> Decode C (b @ [CHR 0x0A]) = Inr st)
     \<and> (\<forall>b st. Decode C b = Inr st \<longrightarrow> set (Topics st) \<subseteq> S)"

definition written_state :: "discoveryState \<Rightarrow> discoveryState" where
  "written_state st = st\<lparr>Topics := sort (Topics st)\<rparr>"

text \<open>The only disk events of a write that matter for the state file: replacing it by the new content.\<close>

definition replaces :: "string \<Rightarrow> bytes set \<Rightarrow> event \<Rightarrow> bool" where
  "replaces path new e \<longleftrightarrow> is_disk e \<and> (\<forall>p b r. e = EvDisk (RenameTemp p b) r \<longrightarrow> p = path \<and> b \<in> new)"

section \<open>Lemmas\<close>

subsection \<open>Instants\<close>

lemma keeps_refl: "Q w \<Longrightarrow> keeps Q w w"
  by (simp add: keeps_def)

lemma keeps_start: "keeps Q w w' \<Longrightarrow> Q w"
  by (force simp: keeps_def)

lemma keeps_end: "keeps Q w w' \<Longrightarrow> Q w'"
  by (force simp: keeps_def)

lemma keeps_trans [trans]:
  assumes "keeps Q u v" and "keeps Q v w"
  shows "keeps Q u w"
proof -
  obtain as where as: "v = u @ as" "\<forall>n \<le> length as. Q (u @ take n as)" using assms(1) by (auto simp: keeps_def)
  obtain bs where bs: "w = v @ bs" "\<forall>n \<le> length bs. Q (v @ take n bs)" using assms(2) by (auto simp: keeps_def)
  have "Q (u @ take n (as @ bs))" if "n \<le> length (as @ bs)" for n
  proof (cases "n \<le> length as")
    case True
    then show ?thesis using as(2) by simp
  next
    case False
    then have "n - length as \<le> length bs" using that by simp
    with False bs(2) as(1) show ?thesis by simp
  qed
  then show ?thesis unfolding keeps_def using as(1) bs(1) by (intro exI [of _ "as @ bs"]) simp
qed

lemma keeps_extends:
  assumes "extends P w w'" and "Q w" and "\<And>u e. P e \<Longrightarrow> Q u \<Longrightarrow> Q (u @ [e])"
  shows "keeps Q w w'"
proof -
  obtain es where es: "w' = w @ es" "list_all P es" using assms(1) by (rule extendsE)
  have "Q (w @ take n es)" if "n \<le> length es" for n
    using that
  proof (induction n)
    case (Suc n)
    then have "take (Suc n) es = take n es @ [es ! n]" by (simp add: take_Suc_conv_app_nth)
    with Suc es(2) assms(3) [of "es ! n" "w @ take n es"] show ?case by (simp add: list_all_length)
  qed (simp add: assms(2))
  then show ?thesis using es(1) by (auto simp: keeps_def)
qed

lemma keeps_mono: "keeps Q w w' \<Longrightarrow> (\<And>u. Q u \<Longrightarrow> R u) \<Longrightarrow> keeps R w w'"
  by (auto simp: keeps_def)

subsection \<open>Identifiers and topics\<close>

lemma validDiscoveryID_valid_id: "validDiscoveryID s = valid_id s"
proof -
  have "id_byte c = id_start c" for c
    by (auto simp: id_byte_def id_start_def is_digit_def)
  then show ?thesis
    by (cases s) (auto simp: validDiscoveryID_def valid_id_def list_all_iff)
qed

lemma validate_topics_None:
  "validate_topics dev seen ts = None \<longleftrightarrow>
     (\<forall>t \<in> set ts. ownedDiscoveryTopic t dev) \<and> distinct ts \<and> set ts \<inter> set seen = {}"
  by (induction ts arbitrary: seen) (auto simp: List.member_iff)

lemma set_unionTopics [simp]: "set (unionTopics xs ys) = set xs \<union> set ys"
  by (simp add: unionTopics_def)

lemma distinct_unionTopics [simp]: "distinct (unionTopics xs ys)"
  by (simp add: unionTopics_def)

lemma set_differenceTopics [simp]: "set (differenceTopics xs ys) = set xs - set ys"
  by (auto simp: differenceTopics_def List.member_iff)

lemma ownedDiscoveryTopic_config:
  assumes "prefix \<noteq> []" and "CHR ''+'' \<notin> set prefix" and "CHR ''#'' \<notin> set prefix"
    and "ty \<in> {''switch'', ''button'', ''binary_sensor''}" and "valid_id dev" and "valid_id i"
  shows "ownedDiscoveryTopic (prefix @ ''/'' @ ty @ ''/'' @ dev @ ''/'' @ i @ ''/config'') dev"
proof -
  let ?ps = "Split prefix (CHR ''/'')"
  have ty: "CHR ''/'' \<notin> set ty" using assms(4) by auto
  have parts: "Split (prefix @ ''/'' @ ty @ ''/'' @ dev @ ''/'' @ i @ ''/config'') (CHR ''/'') = ?ps @ [ty, dev, i, ''config'']"
    using ty assms(5,6) by (simp add: Split_append_sep)
  have "length ?ps > 0" by simp
  moreover have "Join ?ps ''/'' = prefix" by (rule Join_Split)
  ultimately show ?thesis
    using assms unfolding ownedDiscoveryTopic_def parts Let_def
    by (auto simp: validDiscoveryID_valid_id nth_append List.member_iff Suc_diff_le)
qed

subsection \<open>Writing the file\<close>

lemma temp_steps_ext:
  assumes "P (EvDisk RemoveTemp None)" and "\<And>d r. d \<in> set ds \<union> {RemoveTemp} \<Longrightarrow> P (EvDisk d r)"
  shows "extends P w (snd (temp_steps E path ds w))"
  using assms(2)
proof (induction ds arbitrary: w)
  case (Cons d ds)
  let ?r = "e_disk E w d" and ?w = "w @ [EvDisk d (e_disk E w d)]"
  have one: "extends P w ?w" using Cons.prems by auto
  show ?case
  proof (cases ?r)
    case None
    then have "temp_steps E path (d # ds) w = temp_steps E path ds ?w" by (simp add: do_disk_def)
    with one Cons.IH [of ?w] Cons.prems show ?thesis by (auto intro: extends_trans)
  next
    case (Some e)
    then have "snd (temp_steps E path (d # ds) w) = ?w @ [EvDisk RemoveTemp (e_disk E ?w RemoveTemp)]"
      by (simp add: do_disk_def)
    moreover have "extends P w (?w @ [EvDisk RemoveTemp (e_disk E ?w RemoveTemp)])"
      by (rule extends_snoc [OF one]) (use Cons.prems in simp)
    ultimately show ?thesis by (simp only:)
  qed
qed simp

lemma temp_steps_ok: "temp_steps E path ds w = (None, w') \<Longrightarrow> w' = w @ map (\<lambda>d. EvDisk d None) ds"
proof (induction ds arbitrary: w)
  case (Cons d ds)
  then have "e_disk E w d = None" "temp_steps E path ds (w @ [EvDisk d None]) = (None, w')"
    by (auto simp: do_disk_def split: option.splits)
  from Cons.IH [OF this(2)] show ?case by simp
qed simp

lemma write_ext:
  "extends (replaces path {b @ [CHR 0x0A] | b. MarshalIndent C (written_state st) = Inr b}) w
     (snd (writeDiscoveryState E C path st w))"
proof (cases "MarshalIndent C (written_state st)")
  case (Inl e)
  then show ?thesis by (simp add: writeDiscoveryState_def written_state_def)
next
  case (Inr b)
  have only: "{b @ [CHR 0x0A] | b. MarshalIndent C (written_state st) = Inr b} = {b @ [CHR 0x0A]}"
    using Inr by auto
  let ?ds = "[ChmodTemp, WriteTemp (b @ [CHR 0x0A]), SyncTemp, CloseTemp, RenameTemp path (b @ [CHR 0x0A])]"
  have steps: "extends (replaces path {b @ [CHR 0x0A]}) u (snd (temp_steps E path ?ds u))" for u
    by (intro temp_steps_ext) (auto simp: replaces_def)
  show ?thesis
    using Inr unfolding only unfolding writeDiscoveryState_def written_state_def Let_def
    by (auto intro!: ext_intros steps simp: replaces_def simp del: temp_steps.simps)
qed

lemma write_ok:
  assumes "writeDiscoveryState E C path st w = (None, w')"
  shows "\<exists>b. MarshalIndent C (written_state st) = Inr b \<and> int (length (b @ [CHR 0x0A])) \<le> maxDiscoveryStateSize
    \<and> stored path w' = Some (b @ [CHR 0x0A])"
  using assms
  by (auto simp: writeDiscoveryState_def written_state_def Let_def and_then_None_iff disk_step_None_iff
      stored_def simp del: temp_steps.simps dest!: temp_steps_ok split: sum.splits if_splits)

lemma write_size:
  assumes "MarshalIndent C (written_state st) = Inr b" and "\<not> int (length (b @ [CHR 0x0A])) \<le> maxDiscoveryStateSize"
  shows "writeDiscoveryState E C path st w = (Some (DTooLarge path), w)"
  using assms by (simp add: writeDiscoveryState_def written_state_def)

lemma manifest_of_small: "int (length b) \<le> maxDiscoveryStateSize \<Longrightarrow> manifest_of C b = Decode C b"
  by (simp add: manifest_of_def)

lemma manifest_of_code [code]:
  "manifest_of C content =
     (if int (length content) \<le> maxDiscoveryStateSize then Decode C content
      else Decode C (take (nat (maxDiscoveryStateSize + 1)) content))"
  by (simp add: manifest_of_def)

end
