(* ===== verification/Discovery.thy ===== *)
theory Discovery
  imports Discovery_State
begin

section \<open>Discovery reconciliation (reconcileDiscovery of controller/discovery.go)\<close>

text \<open>
  The controller keeps the retained Home Assistant discovery messages equal to its configuration: it
  records the topics it is about to own, removes the stale ones, publishes the desired ones, and
  records the result. The definitions take the publication routine as an argument \<open>pub\<close>, and the
  lemmas are proved in the locale \<open>publisher\<close> for every routine that keeps its contract.
\<close>

record discoveryPublication =
  dp_entityID :: string
  dp_topic :: string
  dp_payload :: bytes

type_synonym publish_fun = "string \<Rightarrow> bytes \<Rightarrow> u8 \<Rightarrow> bool \<Rightarrow> trace \<Rightarrow> client_error option \<times> trace"

definition discovery_topic :: "Config \<Rightarrow> EntityConfig \<Rightarrow> string" where
  "discovery_topic cfg entity =
     Disc_Prefix (Discovery (MQTT cfg)) @ ''/'' @ Ent_Type entity @ ''/'' @ Dev_ID (Device cfg) @ ''/''
       @ Ent_ID entity @ ''/config''"

fun publications_of :: "codec \<Rightarrow> Config \<Rightarrow> EntityConfig list \<Rightarrow> discovery_error + discoveryPublication list" where
  "publications_of C cfg [] = Inr []"
| "publications_of C cfg (entity # rest) =
     (case Marshal C (discoveryPayload cfg entity) of
        Inl e \<Rightarrow> Inl (DMarshal (Ent_ID entity) e)
      | Inr encoded \<Rightarrow>
          (case publications_of C cfg rest of
             Inl e \<Rightarrow> Inl e
           | Inr ps \<Rightarrow> Inr (\<lparr>dp_entityID = Ent_ID entity, dp_topic = discovery_topic cfg entity, dp_payload = encoded\<rparr> # ps)))"

definition desiredDiscoveryPublications :: "codec \<Rightarrow> Config \<Rightarrow> discovery_error + discoveryPublication list" where
  "desiredDiscoveryPublications C cfg =
     (if \<not> DiscoveryEnabled cfg then Inr [] else publications_of C cfg (Entities cfg))"

definition discoveryQoS :: "Config \<Rightarrow> u8" where
  "discoveryQoS cfg = (if MQTTQoS cfg > 0 then MQTTQoS cfg else 1)"

fun remove_stale :: "publish_fun \<Rightarrow> Config \<Rightarrow> string list \<Rightarrow> trace \<Rightarrow> discovery_error option \<times> trace" where
  "remove_stale pub cfg [] w = (None, w)"
| "remove_stale pub cfg (topic # topics) w =
     and_then (map_prod (map_option (DRemove topic)) id (pub topic [] (discoveryQoS cfg) True w))
       (remove_stale pub cfg topics)"

fun publish_desired :: "publish_fun \<Rightarrow> Config \<Rightarrow> discoveryPublication list \<Rightarrow> trace \<Rightarrow> discovery_error option \<times> trace" where
  "publish_desired pub cfg [] w = (None, w)"
| "publish_desired pub cfg (p # ps) w =
     and_then (map_prod (map_option (DPublish (dp_entityID p) (dp_topic p))) id
         (pub (dp_topic p) (dp_payload p) (discoveryQoS cfg) True w))
       (publish_desired pub cfg ps)"

definition publishDiscoveryChanges ::
  "publish_fun \<Rightarrow> Config \<Rightarrow> string list \<Rightarrow> discoveryPublication list \<Rightarrow> trace \<Rightarrow> discovery_error option \<times> trace" where
  "publishDiscoveryChanges pub cfg stale desired w =
     and_then (remove_stale pub cfg stale w) (publish_desired pub cfg desired)"

definition own_state :: "Config \<Rightarrow> string list \<Rightarrow> discoveryState" where
  "own_state cfg topics = \<lparr>Version = discoveryStateVersion, OwnerID = ClientID (MQTT cfg),
     DeviceID = Dev_ID (Device cfg), Topics = topics\<rparr>"

text \<open>From the previous topics: record the union, publish the changes, record the result.\<close>

definition reconcile_topics ::
  "env \<Rightarrow> codec \<Rightarrow> publish_fun \<Rightarrow> Config \<Rightarrow> string \<Rightarrow> string list \<Rightarrow> discoveryPublication list \<Rightarrow> trace
    \<Rightarrow> discovery_error option \<times> trace" where
  "reconcile_topics E C pub cfg path previous pubs w =
     (let desired = map dp_topic pubs in
      and_then (writeDiscoveryState E C path (own_state cfg (unionTopics previous desired)) w) (\<lambda>w1.
      and_then (publishDiscoveryChanges pub cfg (differenceTopics previous desired) pubs w1) (\<lambda>w2.
      writeDiscoveryState E C path (own_state cfg desired) w2)))"

text \<open>A change of the device identity first removes every topic of the old one and empties the manifest.\<close>

definition reconcile_locked ::
  "env \<Rightarrow> codec \<Rightarrow> publish_fun \<Rightarrow> Config \<Rightarrow> string \<Rightarrow> discoveryPublication list \<Rightarrow> trace \<Rightarrow> discovery_error option \<times> trace" where
  "reconcile_locked E C pub cfg path pubs w =
     (case loadDiscoveryState E C path w of
        Inl e \<Rightarrow> (Some e, w)
      | Inr previous \<Rightarrow>
          and_then (validateDiscoveryState previous, w) (\<lambda>w1.
          if OwnerID previous \<noteq> [] \<and> OwnerID previous \<noteq> ClientID (MQTT cfg)
          then (Some (DOwner path (OwnerID previous) (ClientID (MQTT cfg))), w1)
          else if DeviceID previous \<noteq> [] \<and> DeviceID previous \<noteq> Dev_ID (Device cfg) then
            and_then (publishDiscoveryChanges pub cfg (Topics previous) [] w1) (\<lambda>w2.
            and_then (writeDiscoveryState E C path (own_state cfg []) w2) (\<lambda>w3.
            reconcile_topics E C pub cfg path [] pubs w3))
          else reconcile_topics E C pub cfg path (Topics previous) pubs w1))"

definition reconcileDiscovery ::
  "env \<Rightarrow> codec \<Rightarrow> publish_fun \<Rightarrow> Config \<Rightarrow> trace \<Rightarrow> discovery_error option \<times> trace" where
  "reconcileDiscovery E C pub cfg w =
     (case desiredDiscoveryPublications C cfg of
        Inl e \<Rightarrow> (Some e, w)
      | Inr pubs \<Rightarrow>
          (let path = StateFile (Discovery (MQTT cfg)) in
           if path = [] then publishDiscoveryChanges pub cfg [] pubs w
           else and_then (lockDiscoveryState E path w) (\<lambda>w1.
             (let (e, w2) = reconcile_locked E C pub cfg path pubs w1 in (e, unlockDiscoveryState E path w2)))))"

subsection \<open>The topics the manifest accounts for\<close>

definition tracked :: "codec \<Rightarrow> string \<Rightarrow> trace \<Rightarrow> string set" where
  "tracked C path w =
     (case stored path w of
        None \<Rightarrow> {}
      | Some b \<Rightarrow> (case manifest_of C b of Inl _ \<Rightarrow> {} | Inr st \<Rightarrow> set (Topics st)))"

definition untracked :: "codec \<Rightarrow> string \<Rightarrow> trace \<Rightarrow> string set" where
  "untracked C path w = dom (retained w) - tracked C path w"

text \<open>What reading the state file promises: it returns what was stored last.\<close>

definition file_honest :: "env \<Rightarrow> string \<Rightarrow> bool" where
  "file_honest E path \<longleftrightarrow>
     (\<forall>w. (e_open_state E w path = Inl None \<longrightarrow> stored path w = None)
        \<and> (\<forall>b. e_open_state E w path = Inr b \<longrightarrow> stored path w = Some b))"

subsection \<open>A concrete codec\<close>

text \<open>A simple encoding with the round trip: every byte is prefixed, every string ends with a full stop.\<close>

definition enc_text :: "string \<Rightarrow> string" where
  "enc_text s = concat (map (\<lambda>c. [CHR ''x'', c]) s) @ ''.''"

fun dec_texts :: "string \<Rightarrow> string list \<Rightarrow> string \<Rightarrow> string list option" where
  "dec_texts cur acc (a # c # r) =
     (if a = CHR ''x'' then dec_texts (cur @ [c]) acc r
      else if a = CHR ''.'' then dec_texts [] (acc @ [cur]) (c # r) else None)"
| "dec_texts cur acc [a] = (if a = CHR 0x0A \<and> cur = [] then Some acc else None)"
| "dec_texts cur acc [] = None"

definition ex_codec :: codec where
  "ex_codec = \<lparr>Marshal = (\<lambda>j. Inr ''{}''),
     MarshalIndent = (\<lambda>st. Inr (concat (map enc_text (OwnerID st # DeviceID st # Topics st)))),
     Decode = (\<lambda>b. case dec_texts [] [] b of
        Some (owner # dev # topics) \<Rightarrow> Inr \<lparr>Version = discoveryStateVersion, OwnerID = owner, DeviceID = dev, Topics = topics\<rparr>
      | _ \<Rightarrow> Inl ''syntax'')\<rparr>"

text \<open>A trace after which the state file belongs to another client.\<close>

definition ex_foreign :: trace where
  "ex_foreign = [EvDisk (RenameTemp ''/var/lib/ctl/state.json'' (concat (map enc_text [''other'', ''ctl'']) @ [CHR 0x0A])) None]"

section \<open>Lemmas\<close>

lemma dec_enc_text: "r \<noteq> [] \<Longrightarrow> dec_texts cur acc (enc_text s @ r) = dec_texts [] (acc @ [cur @ s]) r"
  by (induction s arbitrary: cur) (auto simp: enc_text_def neq_Nil_conv)

lemma dec_enc_texts: "dec_texts [] acc (concat (map enc_text ts) @ [CHR 0x0A]) = Some (acc @ ts)"
  by (induction ts arbitrary: acc) (simp_all add: dec_enc_text)

lemma ex_codec_ok: "codec_ok ex_codec UNIV"
proof -
  have "Decode ex_codec (concat (map enc_text (OwnerID st # DeviceID st # Topics st)) @ [CHR 0x0A]) = Inr st"
    if "Version st = discoveryStateVersion" for st
    using that dec_enc_texts [of "[]" "OwnerID st # DeviceID st # Topics st"] by (cases st) (simp add: ex_codec_def)
  then show ?thesis by (auto simp: codec_ok_def ex_codec_def)
qed

subsection \<open>The manifest over time\<close>

lemma tracked_frame: "stored path w' = stored path w \<Longrightarrow> tracked C path w' = tracked C path w"
  by (simp add: tracked_def)

lemma tracked_written:
  assumes "codec_ok C S" and "Version st = discoveryStateVersion" and "insert (OwnerID st) (insert (DeviceID st) (set (Topics st))) \<subseteq> S"
    and "MarshalIndent C (written_state st) = Inr b" and "int (length (b @ [CHR 0x0A])) \<le> maxDiscoveryStateSize"
    and "stored path w = Some (b @ [CHR 0x0A])"
  shows "tracked C path w = set (Topics st)"
proof -
  have "Decode C (b @ [CHR 0x0A]) = Inr (written_state st)"
    using assms(1-4) by (auto simp: codec_ok_def written_state_def)
  then show ?thesis
    using assms(5,6) by (simp add: tracked_def manifest_of_small written_state_def)
qed

lemma own_state_version: "Version (own_state cfg topics) = discoveryStateVersion"
  by (simp add: own_state_def)

text \<open>A write keeps the bound on untracked topics if the new manifest covers what is retained.\<close>

lemma write_keeps:
  assumes codec: "codec_ok C S" "Version st = discoveryStateVersion" "insert (OwnerID st) (insert (DeviceID st) (set (Topics st))) \<subseteq> S"
    and now: "untracked C path w \<subseteq> U" and new: "dom (retained w) - set (Topics st) \<subseteq> U"
  shows "keeps (\<lambda>u. untracked C path u \<subseteq> U) w (snd (writeDiscoveryState E C path st w))"
proof (cases "\<exists>b. MarshalIndent C (written_state st) = Inr b \<and> int (length (b @ [CHR 0x0A])) \<le> maxDiscoveryStateSize")
  case False
  then have "snd (writeDiscoveryState E C path st w) = w"
    by (cases "MarshalIndent C (written_state st)")
      (auto simp: writeDiscoveryState_def written_state_def)
  then show ?thesis using now by (simp add: keeps_refl)
next
  case True
  then obtain b where b: "MarshalIndent C (written_state st) = Inr b" "int (length (b @ [CHR 0x0A])) \<le> maxDiscoveryStateSize"
    by blast
  let ?new = "b @ [CHR 0x0A]"
  define Q where "Q u \<longleftrightarrow> retained u = retained w \<and> stored path u \<in> {stored path w, Some ?new}" for u
  have ext: "extends (replaces path {?new}) w (snd (writeDiscoveryState E C path st w))"
    using write_ext [of path C st w E] b by simp
  have step: "Q (u @ [e])" if "replaces path {?new} e" "Q u" for u e
  proof -
    have "file_event path f e \<in> {f, Some ?new}" for f
      using that(1) by (induction path f e rule: file_event.induct) (auto simp: replaces_def)
    from this [of "stored path u"] have "stored path (u @ [e]) \<in> {stored path u, Some ?new}" by simp
    moreover have "\<not> is_publish e" using that(1) by (cases e) (auto simp: replaces_def)
    ultimately show ?thesis using that(2) by (auto simp: Q_def retain_event_frame)
  qed
  have "keeps Q w (snd (writeDiscoveryState E C path st w))"
    using keeps_extends [where Q = Q, OF ext] step by (simp add: Q_def [of w])
  then show ?thesis
  proof (rule keeps_mono)
    fix u
    assume "Q u"
    then consider "stored path u = stored path w" "retained u = retained w"
      | "stored path u = Some ?new" "retained u = retained w"
      by (auto simp: Q_def)
    then show "untracked C path u \<subseteq> U"
    proof cases
      case 1
      then show ?thesis using now tracked_frame [OF 1(1), of C] by (simp add: untracked_def)
    next
      case 2
      then show ?thesis using new tracked_written [OF codec b] by (simp add: untracked_def)
    qed
  qed
qed

lemma load_tracked:
  assumes "loadDiscoveryState E C path w = Inr previous" and "file_honest E path" and "codec_ok C S"
  shows "tracked C path w = set (Topics previous) \<and> set (Topics previous) \<subseteq> S"
proof (cases "e_open_state E w path")
  case (Inl r)
  then have "r = None" "previous = no_state" "stored path w = None"
    using assms(1,2) by (auto simp: loadDiscoveryState_def file_honest_def split: option.splits)
  then show ?thesis by (simp add: tracked_def no_state_def)
next
  case (Inr b)
  then have "manifest_of C b = Inr previous" "stored path w = Some b"
    using assms(1,2) by (auto simp: loadDiscoveryState_def file_honest_def split: option.splits sum.splits)
  moreover from this(1) have "set (Topics previous) \<subseteq> S"
    using assms(3) by (auto simp: manifest_of_def codec_ok_def)
  ultimately show ?thesis by (simp add: tracked_def)
qed

lemma and_then_keeps:
  assumes "keeps Q w (snd r)" and "fst r = None \<Longrightarrow> keeps Q (snd r) (snd (k (snd r)))"
  shows "keeps Q w (snd (and_then r k))"
  using assms by (cases r; cases "fst r") (auto simp: and_then_def intro: keeps_trans)

lemma is_disk_not_publish: "is_disk e \<Longrightarrow> \<not> is_publish e"
  by (cases e) auto

lemma disk_keeps:
  assumes "extends (replaces path {}) w w'" and "untracked C path w \<subseteq> U"
  shows "keeps (\<lambda>u. untracked C path u \<subseteq> U) w w'"
proof (rule keeps_extends [OF assms(1)])
  show "untracked C path w \<subseteq> U" by (rule assms(2))
  fix u e
  assume e: "replaces path {} e" and u: "untracked C path u \<subseteq> U"
  have "file_event path f e = f" for f
    using e by (induction path f e rule: file_event.induct) (auto simp: replaces_def)
  moreover have "\<not> is_publish e" using e by (cases e) (auto simp: replaces_def)
  ultimately show "untracked C path (u @ [e]) \<subseteq> U"
    using u by (simp add: untracked_def tracked_def retain_event_frame)
qed

lemma lock_ext: "extends (replaces path {}) w (snd (lockDiscoveryState E path w))"
  unfolding lockDiscoveryState_def Let_def by (intro ext_intros) (auto simp: replaces_def)

lemma unlock_ext: "extends (replaces path {}) w (unlockDiscoveryState E path w)"
  unfolding unlockDiscoveryState_def by (intro ext_intros) (auto simp: replaces_def)

lemma publications_of_topics:
  "publications_of C cfg es = Inr ps \<Longrightarrow> map dp_topic ps = map (discovery_topic cfg) es
     \<and> (\<forall>p \<in> set ps. \<exists>e \<in> set es. Marshal C (discoveryPayload cfg e) = Inr (dp_payload p) \<and> dp_topic p = discovery_topic cfg e)"
  by (induction es arbitrary: ps) (auto split: sum.splits)

lemma desired_topics:
  assumes "desiredDiscoveryPublications C cfg = Inr pubs"
  shows "map dp_topic pubs = (if DiscoveryEnabled cfg then map (discovery_topic cfg) (Entities cfg) else [])"
    and "dp_topic ` set pubs = (if DiscoveryEnabled cfg then discovery_topic cfg ` set (Entities cfg) else {})"
proof -
  show *: "map dp_topic pubs = (if DiscoveryEnabled cfg then map (discovery_topic cfg) (Entities cfg) else [])"
    using assms publications_of_topics by (auto simp: desiredDiscoveryPublications_def split: if_splits)
  from arg_cong [OF this, of set] show "dp_topic ` set pubs = (if DiscoveryEnabled cfg then discovery_topic cfg ` set (Entities cfg) else {})"
    by (simp split: if_splits)
qed

subsection \<open>Publishing the changes\<close>

lemma discoveryQoS_pos: "discoveryQoS cfg \<noteq> 0"
  by (auto simp: discoveryQoS_def word_neq_0_conv)

text \<open>The effect of acknowledged publications on the broker.\<close>

definition retain_all :: "discoveryPublication list \<Rightarrow> (string \<rightharpoonup> bytes) \<Rightarrow> (string \<rightharpoonup> bytes)" where
  "retain_all ps m = foldl (\<lambda>m p. retain_effect (dp_topic p) (dp_payload p) m) m ps"

lemma retain_all_dom: "dom (retain_all ps m) \<subseteq> dom m \<union> dp_topic ` set ps"
proof (induction ps arbitrary: m)
  case (Cons p ps)
  have eq: "retain_all (p # ps) m = retain_all ps (retain_effect (dp_topic p) (dp_payload p) m)"
    by (simp add: retain_all_def)
  have "dom (retain_effect (dp_topic p) (dp_payload p) m) \<subseteq> insert (dp_topic p) (dom m)"
    by (auto simp: retain_effect_def split: if_splits)
  then show ?case
    using Cons.IH [of "retain_effect (dp_topic p) (dp_payload p) m"] unfolding eq list.set image_insert by blast
qed (simp add: retain_all_def)

lemma retain_all_map:
  assumes "distinct (map dp_topic ps)" and "\<forall>p \<in> set ps. dp_payload p \<noteq> []"
  shows "retain_all ps m = m ++ map_of (map (\<lambda>p. (dp_topic p, dp_payload p)) ps)"
  using assms
proof (induction ps arbitrary: m)
  case (Cons p ps)
  have "retain_all (p # ps) m = retain_all ps (m(dp_topic p \<mapsto> dp_payload p))"
    using Cons.prems(2) by (simp add: retain_all_def retain_effect_def)
  also have "\<dots> = m(dp_topic p \<mapsto> dp_payload p) ++ map_of (map (\<lambda>p. (dp_topic p, dp_payload p)) ps)"
    using Cons by simp
  also have "\<dots> = m ++ map_of (map (\<lambda>p. (dp_topic p, dp_payload p)) (p # ps))"
    using Cons.prems(1) by (subst map_add_upd_left) (auto simp: dom_map_of_conv_image_fst image_image)
  finally show ?case .
qed (simp add: retain_all_def)

lemma write_retained: "writeDiscoveryState E C path st w = (e, w') \<Longrightarrow> retained w' = retained w"
  using write_ext [of path C st w E] by (intro retained_frame) (auto elim!: extends_mono simp: replaces_def is_disk_not_publish)

lemma dom_removed: "dom (\<lambda>t. if t \<in> D then None else m t) = dom m - D"
  by (auto split: if_splits)

lemma retain_publish_dom:
  "dom (retain_event m (EvPublish t p q True rep tk)) \<subseteq> dom m \<union> (if p = [] then {} else {t})"
  by (cases tk) auto

context publisher
begin

text \<open>The state file is not touched and the bound on untracked topics is kept.\<close>

lemma pub_keeps:
  assumes "p = [] \<or> t \<in> tracked C path w" and "untracked C path w \<subseteq> U" and "stored path w = f"
  shows "keeps (\<lambda>u. untracked C path u \<subseteq> U \<and> stored path u = f) w (snd (pub t p q True w))"
proof (rule keeps_extends)
  define P where "P e \<longleftrightarrow> (\<exists>b. e = EvConnected b) \<or> (\<exists>rep tk. e = EvPublish t p q True rep tk)" for e
  show "extends P w (snd (pub t p q True w))"
    by (rule pub_ext) (auto simp: P_def)
  show "untracked C path w \<subseteq> U \<and> stored path w = f" using assms(2,3) by simp
  fix u e
  assume "P e" and u: "untracked C path u \<subseteq> U \<and> stored path u = f"
  then have same: "stored path (u @ [e]) = f" by (auto simp: P_def)
  have "dom (retained (u @ [e])) \<subseteq> dom (retained u) \<union> (if p = [] then {} else {t})"
    using \<open>P e\<close> retain_publish_dom unfolding P_def by (elim disjE exE) (simp, simp only: retained_snoc)
  moreover have "tracked C path (u @ [e]) = tracked C path u" "tracked C path w = tracked C path u"
    using u assms(3) same by (intro tracked_frame; simp)+
  ultimately have "untracked C path (u @ [e]) \<subseteq> U"
    using u assms(1) unfolding untracked_def by (cases "p = []") (simp_all del: retained_snoc, blast+)
  with same show "untracked C path (u @ [e]) \<subseteq> U \<and> stored path (u @ [e]) = f" by blast
qed

lemma remove_stale_keeps:
  "untracked C path w \<subseteq> U \<Longrightarrow> stored path w = f \<Longrightarrow>
     keeps (\<lambda>u. untracked C path u \<subseteq> U \<and> stored path u = f) w (snd (remove_stale pub cfg ts w))"
proof (induction ts arbitrary: w)
  case (Cons t ts)
  have one: "keeps (\<lambda>u. untracked C path u \<subseteq> U \<and> stored path u = f) w (snd (pub t [] (discoveryQoS cfg) True w))"
    by (rule pub_keeps) (use Cons.prems in auto)
  then show ?case
    using Cons.IH keeps_end [OF one] by (auto intro!: and_then_keeps)
qed (simp add: keeps_refl)

lemma publish_desired_keeps:
  "untracked C path w \<subseteq> U \<Longrightarrow> stored path w = f \<Longrightarrow> dp_topic ` set ps \<subseteq> tracked C path w \<Longrightarrow>
     keeps (\<lambda>u. untracked C path u \<subseteq> U \<and> stored path u = f) w (snd (publish_desired pub cfg ps w))"
proof (induction ps arbitrary: w)
  case (Cons p ps)
  let ?w = "snd (pub (dp_topic p) (dp_payload p) (discoveryQoS cfg) True w)"
  have one: "keeps (\<lambda>u. untracked C path u \<subseteq> U \<and> stored path u = f) w ?w"
    by (rule pub_keeps) (use Cons.prems in auto)
  from keeps_end [OF one] have next_state: "untracked C path ?w \<subseteq> U" "stored path ?w = f" by auto
  then have "tracked C path ?w = tracked C path w"
    using Cons.prems(2) by (intro tracked_frame) simp
  with one next_state Cons show ?case by (auto intro!: and_then_keeps)
qed (simp add: keeps_refl)

lemma changes_keeps:
  assumes "untracked C path w \<subseteq> U" and "dp_topic ` set ps \<subseteq> tracked C path w"
  shows "keeps (\<lambda>u. untracked C path u \<subseteq> U \<and> stored path u = stored path w) w
    (snd (publishDiscoveryChanges pub cfg ts ps w))"
proof -
  let ?w = "snd (remove_stale pub cfg ts w)"
  have one: "keeps (\<lambda>u. untracked C path u \<subseteq> U \<and> stored path u = stored path w) w ?w"
    by (rule remove_stale_keeps [OF assms(1) refl])
  from keeps_end [OF one] have next_state: "untracked C path ?w \<subseteq> U" "stored path ?w = stored path w" by auto
  then have "tracked C path ?w = tracked C path w" by (intro tracked_frame) simp
  with publish_desired_keeps [OF next_state] assms(2) one show ?thesis
    unfolding publishDiscoveryChanges_def by (intro and_then_keeps) auto
qed

text \<open>Acknowledged changes arrived: the stale topics are gone, the desired messages are in place.\<close>

lemma remove_stale_ok:
  "honest \<Longrightarrow> remove_stale pub cfg ts w = (None, w') \<Longrightarrow> retained w' = (\<lambda>t. if t \<in> set ts then None else retained w t)"
proof (induction ts arbitrary: w)
  case (Cons t ts)
  then obtain u where u: "pub t [] (discoveryQoS cfg) True w = (None, u)" "remove_stale pub cfg ts u = (None, w')"
    by (auto simp: and_then_None_iff map_prod_def split: prod.splits)
  have "retained u = (retained w)(t := None)"
    using pub_retained_ok [OF u(1) Cons.prems(1) discoveryQoS_pos] by (simp add: retain_effect_def)
  with Cons.IH [OF Cons.prems(1) u(2)] show ?case by auto
qed auto

lemma publish_desired_ok:
  "honest \<Longrightarrow> publish_desired pub cfg ps w = (None, w') \<Longrightarrow> retained w' = retain_all ps (retained w)"
proof (induction ps arbitrary: w)
  case (Cons p ps)
  then obtain u where u: "pub (dp_topic p) (dp_payload p) (discoveryQoS cfg) True w = (None, u)"
    "publish_desired pub cfg ps u = (None, w')"
    by (auto simp: and_then_None_iff map_prod_def split: prod.splits)
  have "retained u = retain_effect (dp_topic p) (dp_payload p) (retained w)"
    by (rule pub_retained_ok [OF u(1) Cons.prems(1) discoveryQoS_pos])
  with Cons.IH [OF Cons.prems(1) u(2)] show ?case by (simp add: retain_all_def)
qed (simp add: retain_all_def)

lemma changes_ok:
  assumes "honest" and "publishDiscoveryChanges pub cfg ts ps w = (None, w')"
  shows "retained w' = retain_all ps (\<lambda>t. if t \<in> set ts then None else retained w t)"
  using assms remove_stale_ok publish_desired_ok
  by (fastforce simp: publishDiscoveryChanges_def and_then_None_iff)

lemma reconcile_topics_keeps:
  assumes "honest" and codec: "codec_ok C S" and own: "ClientID (MQTT cfg) \<in> S" "Dev_ID (Device cfg) \<in> S"
    and texts: "set previous \<subseteq> S" "dp_topic ` set pubs \<subseteq> S"
    and cover: "tracked C path w \<subseteq> set previous" and now: "untracked C path w \<subseteq> U"
  shows "keeps (\<lambda>u. untracked C path u \<subseteq> U) w (snd (reconcile_topics E C pub cfg path previous pubs w))"
proof -
  let ?desired = "map dp_topic pubs" and ?Q = "\<lambda>u. untracked C path u \<subseteq> U"
  let ?pending = "own_state cfg (unionTopics previous ?desired)"
  have pending: "insert (OwnerID ?pending) (insert (DeviceID ?pending) (set (Topics ?pending))) \<subseteq> S"
    and final: "insert (OwnerID (own_state cfg ?desired)) (insert (DeviceID (own_state cfg ?desired))
      (set (Topics (own_state cfg ?desired)))) \<subseteq> S"
    using own texts by (auto simp: own_state_def)
  have write1: "keeps ?Q w (snd (writeDiscoveryState E C path ?pending w))"
    by (rule write_keeps [OF codec own_state_version pending now]) (use now cover in \<open>auto simp: own_state_def untracked_def\<close>)
  have rest: "keeps ?Q w1 (snd (and_then (publishDiscoveryChanges pub cfg (differenceTopics previous ?desired) pubs w1)
      (\<lambda>w2. writeDiscoveryState E C path (own_state cfg ?desired) w2)))"
    if w1: "writeDiscoveryState E C path ?pending w = (None, w1)" for w1
  proof (rule and_then_keeps)
    let ?changes = "publishDiscoveryChanges pub cfg (differenceTopics previous ?desired) pubs w1"
    obtain b where b: "MarshalIndent C (written_state ?pending) = Inr b"
      "int (length (b @ [CHR 0x0A])) \<le> maxDiscoveryStateSize" "stored path w1 = Some (b @ [CHR 0x0A])"
      using write_ok [OF w1] by blast
    have tr: "tracked C path w1 = set previous \<union> set ?desired"
      using tracked_written [OF codec own_state_version pending b] by (simp add: own_state_def)
    have q1: "untracked C path w1 \<subseteq> U" using keeps_end [OF write1] w1 by simp
    have k: "keeps (\<lambda>u. untracked C path u \<subseteq> U \<and> stored path u = stored path w1) w1 (snd ?changes)"
      by (rule changes_keeps [OF q1]) (use tr in auto)
    then show "keeps ?Q w1 (snd ?changes)" by (rule keeps_mono) blast
    assume "fst ?changes = None"
    then have after: "retained (snd ?changes) = retain_all pubs (\<lambda>t. if t \<in> set (differenceTopics previous ?desired) then None else retained w1 t)"
      using \<open>honest\<close> by (intro changes_ok) (auto simp: prod_eq_iff)
    have "dom (retained (snd ?changes)) \<subseteq> set ?desired \<union> (dom (retained w1) - (set previous - set ?desired))"
      unfolding after
      using retain_all_dom [of pubs "\<lambda>t. if t \<in> set (differenceTopics previous ?desired) then None else retained w1 t"]
      unfolding dom_removed set_differenceTopics set_map by blast
    then have "dom (retained (snd ?changes)) - set ?desired \<subseteq> U"
      using q1 tr unfolding untracked_def by blast
    then show "keeps ?Q (snd ?changes) (snd (writeDiscoveryState E C path (own_state cfg ?desired) (snd ?changes)))"
      using keeps_end [OF k] by (intro write_keeps [OF codec own_state_version final]) (auto simp: own_state_def)
  qed
  show ?thesis
    unfolding reconcile_topics_def Let_def
    by (rule and_then_keeps [OF write1]) (use rest in \<open>auto simp: prod_eq_iff\<close>)
qed

lemma reconcile_locked_keeps:
  assumes "honest" and "file_honest E path" and codec: "codec_ok C S"
    and own: "ClientID (MQTT cfg) \<in> S" "Dev_ID (Device cfg) \<in> S" and texts: "dp_topic ` set pubs \<subseteq> S"
    and now: "untracked C path w \<subseteq> U"
  shows "keeps (\<lambda>u. untracked C path u \<subseteq> U) w (snd (reconcile_locked E C pub cfg path pubs w))"
proof (cases "loadDiscoveryState E C path w")
  case (Inl e)
  then show ?thesis using now by (simp add: reconcile_locked_def keeps_refl)
next
  case (Inr previous)
  let ?Q = "\<lambda>u. untracked C path u \<subseteq> U"
  have tr: "tracked C path w = set (Topics previous)" and pS: "set (Topics previous) \<subseteq> S"
    using load_tracked [OF Inr assms(2) codec] by auto
  have same_device: "keeps ?Q w (snd (reconcile_topics E C pub cfg path (Topics previous) pubs w))"
    by (rule reconcile_topics_keeps [OF assms(1) codec own pS texts _ now]) (simp add: tr)
  let ?changes = "publishDiscoveryChanges pub cfg (Topics previous) [] w"
  let ?empty = "own_state cfg []"
  have k1: "keeps (\<lambda>u. untracked C path u \<subseteq> U \<and> stored path u = stored path w) w (snd ?changes)"
    by (rule changes_keeps [OF now]) simp
  have eS: "insert (OwnerID ?empty) (insert (DeviceID ?empty) (set (Topics ?empty))) \<subseteq> S"
    using own by (simp add: own_state_def)
  have gone: "dom (retained (snd ?changes)) - set (Topics ?empty) \<subseteq> U" if "fst ?changes = None"
  proof -
    have "retained (snd ?changes) = retain_all [] (\<lambda>t. if t \<in> set (Topics previous) then None else retained w t)"
      using that \<open>honest\<close> by (intro changes_ok) (auto simp: prod_eq_iff)
    then show ?thesis using now tr by (auto simp: retain_all_def dom_removed untracked_def own_state_def)
  qed
  have k2: "keeps ?Q (snd ?changes) (snd (writeDiscoveryState E C path ?empty (snd ?changes)))" if "fst ?changes = None"
    by (rule write_keeps [OF codec own_state_version eS _ gone [OF that]]) (use keeps_end [OF k1] in blast)
  have k3: "keeps ?Q w3 (snd (reconcile_topics E C pub cfg path [] pubs w3))"
    if "fst ?changes = None" and w3: "writeDiscoveryState E C path ?empty (snd ?changes) = (None, w3)" for w3
  proof (rule reconcile_topics_keeps [OF assms(1) codec own _ texts])
    obtain b where "MarshalIndent C (written_state ?empty) = Inr b"
      "int (length (b @ [CHR 0x0A])) \<le> maxDiscoveryStateSize" "stored path w3 = Some (b @ [CHR 0x0A])"
      using write_ok [OF w3] by blast
    from tracked_written [OF codec own_state_version eS this] show "tracked C path w3 \<subseteq> set []" by (simp add: own_state_def)
    show "untracked C path w3 \<subseteq> U" using keeps_end [OF k2 [OF that(1)]] w3 by simp
  qed simp
  have new_device: "keeps ?Q w (snd (and_then ?changes (\<lambda>w2. and_then (writeDiscoveryState E C path ?empty w2)
      (\<lambda>w3. reconcile_topics E C pub cfg path [] pubs w3))))"
    using keeps_mono [OF k1, of ?Q] k2 k3 by (intro and_then_keeps) (auto simp: prod_eq_iff)
  show ?thesis
    unfolding reconcile_locked_def Inr sum.case
    by (rule and_then_keeps) (use now same_device new_device in \<open>simp_all add: keeps_refl\<close>)
qed

lemma reconcile_keeps:
  assumes "honest" and "file_honest E path" and "codec_ok C S"
    and "ClientID (MQTT cfg) \<in> S" "Dev_ID (Device cfg) \<in> S" and "discovery_topic cfg ` set (Entities cfg) \<subseteq> S"
    and path: "path = StateFile (Discovery (MQTT cfg))" "path \<noteq> []" and now: "untracked C path w \<subseteq> U"
  shows "keeps (\<lambda>u. untracked C path u \<subseteq> U) w (snd (reconcileDiscovery E C pub cfg w))"
proof (cases "desiredDiscoveryPublications C cfg")
  case (Inl e)
  then show ?thesis using now by (simp add: reconcileDiscovery_def keeps_refl)
next
  case (Inr pubs)
  let ?Q = "\<lambda>u. untracked C path u \<subseteq> U"
  have texts: "dp_topic ` set pubs \<subseteq> S"
    using desired_topics [OF Inr] assms(6) by (auto split: if_splits)
  have lock: "keeps ?Q w (snd (lockDiscoveryState E path w))"
    by (rule disk_keeps [OF lock_ext now])
  have "keeps ?Q w1 (unlockDiscoveryState E path (snd (reconcile_locked E C pub cfg path pubs w1)))" if "?Q w1" for w1
    using reconcile_locked_keeps [OF assms(1-5) texts that] disk_keeps [OF unlock_ext] keeps_end
    by (blast intro: keeps_trans)
  with lock keeps_end [OF lock] show ?thesis
    unfolding reconcileDiscovery_def Inr using path
    by (auto simp: split_beta Let_def intro!: and_then_keeps)
qed

lemma reconcile_topics_ok:
  assumes "honest" and codec: "codec_ok C S" "ClientID (MQTT cfg) \<in> S" "Dev_ID (Device cfg) \<in> S" "dp_topic ` set pubs \<subseteq> S"
    and ok: "reconcile_topics E C pub cfg path previous pubs w = (None, w')"
  shows "tracked C path w' = dp_topic ` set pubs"
    and "retained w' = retain_all pubs (\<lambda>t. if t \<in> set previous - dp_topic ` set pubs then None else retained w t)"
proof -
  let ?desired = "map dp_topic pubs"
  obtain w1 w2 where w1: "writeDiscoveryState E C path (own_state cfg (unionTopics previous ?desired)) w = (None, w1)"
    and w2: "publishDiscoveryChanges pub cfg (differenceTopics previous ?desired) pubs w1 = (None, w2)"
    and w3: "writeDiscoveryState E C path (own_state cfg ?desired) w2 = (None, w')"
    using ok by (auto simp: reconcile_topics_def and_then_None_iff Let_def)
  obtain b where b: "MarshalIndent C (written_state (own_state cfg ?desired)) = Inr b"
    "int (length (b @ [CHR 0x0A])) \<le> maxDiscoveryStateSize" "stored path w' = Some (b @ [CHR 0x0A])"
    using write_ok [OF w3] by blast
  show "tracked C path w' = dp_topic ` set pubs"
    using tracked_written [OF codec(1) own_state_version _ b] codec(2-4) by (simp add: own_state_def)
  show "retained w' = retain_all pubs (\<lambda>t. if t \<in> set previous - dp_topic ` set pubs then None else retained w t)"
    unfolding write_retained [OF w3] changes_ok [OF \<open>honest\<close> w2] write_retained [OF w1] by simp
qed

lemma reconcile_locked_ok:
  assumes "honest" and "file_honest E path" and codec: "codec_ok C S" "ClientID (MQTT cfg) \<in> S" "Dev_ID (Device cfg) \<in> S" "dp_topic ` set pubs \<subseteq> S"
    and good: "distinct (map dp_topic pubs)" "\<forall>p \<in> set pubs. dp_payload p \<noteq> []"
    and ok: "reconcile_locked E C pub cfg path pubs w = (None, w')"
  shows "tracked C path w' = dp_topic ` set pubs"
    and "retained w' = (\<lambda>t. if t \<in> tracked C path w then None else retained w t)
      ++ map_of (map (\<lambda>p. (dp_topic p, dp_payload p)) pubs)"
proof -
  obtain previous where load: "loadDiscoveryState E C path w = Inr previous"
    using ok by (cases "loadDiscoveryState E C path w") (auto simp: reconcile_locked_def)
  have tr: "tracked C path w = set (Topics previous)"
    using load_tracked [OF load assms(2) codec(1)] by blast
  consider (same) "reconcile_topics E C pub cfg path (Topics previous) pubs w = (None, w')"
    | (changed) w2 w3 where "publishDiscoveryChanges pub cfg (Topics previous) [] w = (None, w2)"
      "writeDiscoveryState E C path (own_state cfg []) w2 = (None, w3)" "reconcile_topics E C pub cfg path [] pubs w3 = (None, w')"
    using ok load by (auto simp: reconcile_locked_def and_then_None_iff split: if_splits)
  then have "tracked C path w' = dp_topic ` set pubs \<and> retained w' = (\<lambda>t. if t \<in> tracked C path w then None else retained w t)
      ++ map_of (map (\<lambda>p. (dp_topic p, dp_payload p)) pubs)"
  proof cases
    case same
    have "t \<in> dp_topic ` set pubs \<longleftrightarrow> map_of (map (\<lambda>p. (dp_topic p, dp_payload p)) pubs) t \<noteq> None" for t
      by (auto simp: map_of_eq_None_iff image_image)
    then show ?thesis
      using reconcile_topics_ok [OF assms(1) codec same] retain_all_map [OF good]
      by (auto simp: tr fun_eq_iff map_add_def split: option.split)
  next
    case changed
    have "retained w3 = (\<lambda>t. if t \<in> set (Topics previous) then None else retained w t)"
      using changes_ok [OF assms(1) changed(1)] write_retained [OF changed(2)] by (simp add: retain_all_def)
    then show ?thesis
      using reconcile_topics_ok [OF assms(1) codec changed(3)] retain_all_map [OF good] by (simp add: tr)
  qed
  then show "tracked C path w' = dp_topic ` set pubs"
    and "retained w' = (\<lambda>t. if t \<in> tracked C path w then None else retained w t)
      ++ map_of (map (\<lambda>p. (dp_topic p, dp_payload p)) pubs)"
    by auto
qed

end

subsection \<open>The topics of a valid configuration\<close>

lemma discovery_topic_inject:
  assumes "entity_ok L cfg e" and "entity_ok L cfg f" and "valid_id (Dev_ID (Device cfg))"
    and eq: "discovery_topic cfg e = discovery_topic cfg f"
  shows "Ent_ID e = Ent_ID f"
proof -
  have ty: "CHR ''/'' \<notin> set (Ent_Type e)" "CHR ''/'' \<notin> set (Ent_Type f)"
    and ids: "CHR ''/'' \<notin> set (Ent_ID e)" "CHR ''/'' \<notin> set (Ent_ID f)"
    using assms(1,2) by (auto simp: entity_ok_def)
  let ?rest = "\<lambda>g. Dev_ID (Device cfg) @ CHR ''/'' # Ent_ID g @ CHR ''/'' # ''config''"
  from eq have "Ent_Type e @ CHR ''/'' # ?rest e = Ent_Type f @ CHR ''/'' # ?rest f"
    by (simp add: discovery_topic_def)
  then have "?rest e = ?rest f" using sep_append_inject [OF _ ty] by blast
  then have "Ent_ID e @ CHR ''/'' # ''config'' = Ent_ID f @ CHR ''/'' # ''config''" by simp
  then show ?thesis using sep_append_inject [OF _ ids] by blast
qed

lemma valid_topics:
  assumes valid: "valid_config L cfg" and pubs: "desiredDiscoveryPublications C cfg = Inr pubs"
  shows "distinct (map dp_topic pubs)" and "\<forall>t \<in> dp_topic ` set pubs. ownedDiscoveryTopic t (Dev_ID (Device cfg))"
proof -
  have dev: "valid_id (Dev_ID (Device cfg))" and ok: "\<forall>e \<in> set (Entities cfg). entity_ok L cfg e"
    and dist: "distinct (map Ent_ID (Entities cfg))"
    using valid by (auto simp: valid_config_def)
  have "inj_on (discovery_topic cfg) (set (Entities cfg))"
  proof (rule inj_onI)
    fix e f
    assume ef: "e \<in> set (Entities cfg)" "f \<in> set (Entities cfg)" and "discovery_topic cfg e = discovery_topic cfg f"
    then have "Ent_ID e = Ent_ID f" using discovery_topic_inject [OF _ _ dev] ok by blast
    moreover have "inj_on Ent_ID (set (Entities cfg))" using dist by (simp add: distinct_map)
    ultimately show "e = f" using ef by (auto dest: inj_onD)
  qed
  then show "distinct (map dp_topic pubs)"
    using dist unfolding desired_topics(1) [OF pubs] by (auto simp: distinct_map)
  have "ownedDiscoveryTopic (discovery_topic cfg e) (Dev_ID (Device cfg))"
    if "e \<in> set (Entities cfg)" "DiscoveryEnabled cfg" for e
    unfolding discovery_topic_def
    by (rule ownedDiscoveryTopic_config) (use valid that ok dev in \<open>auto simp: valid_config_def topic_ok_def entity_ok_def\<close>)
  then show "\<forall>t \<in> dp_topic ` set pubs. ownedDiscoveryTopic t (Dev_ID (Device cfg))"
    unfolding desired_topics(2) [OF pubs] by auto
qed

lemma own_state_valid:
  assumes "valid_config L cfg" and "\<forall>t \<in> set topics. ownedDiscoveryTopic t (Dev_ID (Device cfg))" and "distinct topics"
  shows "validateDiscoveryState (written_state (own_state cfg topics)) = None"
  using assms
  by (auto simp: validateDiscoveryState_def written_state_def own_state_def valid_config_def validDiscoveryID_valid_id
      validate_topics_None discoveryStateVersion_def)

lemma previous_topics_owned:
  assumes "validateDiscoveryState st = None" and "DeviceID st \<in> {[], dev}"
  shows "\<forall>t \<in> set (Topics st). ownedDiscoveryTopic t dev"
  using assms
  by (auto simp: validateDiscoveryState_def validDiscoveryID_valid_id validate_topics_None split: if_splits)

lemma sim_file_honest: "file_honest sim_env path"
  by (auto simp: file_honest_def sim_env_def split: option.splits)

lemma sim_broker_acks: "broker_acks sim_env"
  by (simp add: broker_acks_def sim_env_def)

lemma reconcile_split:
  assumes "reconcileDiscovery E C pub cfg w = (None, w')" and "path = StateFile (Discovery (MQTT cfg))" and "path \<noteq> []"
  obtains pubs w1 w2 where "desiredDiscoveryPublications C cfg = Inr pubs" "lockDiscoveryState E path w = (None, w1)"
    "reconcile_locked E C pub cfg path pubs w1 = (None, w2)" "w' = unlockDiscoveryState E path w2"
proof -
  obtain pubs where pubs: "desiredDiscoveryPublications C cfg = Inr pubs"
    using assms(1) by (cases "desiredDiscoveryPublications C cfg") (simp_all add: reconcileDiscovery_def)
  obtain w1 where w1: "lockDiscoveryState E path w = (None, w1)"
    "(let (e, w2) = reconcile_locked E C pub cfg path pubs w1 in (e, unlockDiscoveryState E path w2)) = (None, w')"
    using assms pubs by (auto simp: reconcileDiscovery_def Let_def and_then_None_iff)
  obtain e w2 where "reconcile_locked E C pub cfg path pubs w1 = (e, w2)" by fastforce
  with w1 pubs that show ?thesis by auto
qed

lemma quiet_disk:
  assumes "extends (replaces path {}) w w'"
  shows "retained w' = retained w" and "stored path w' = stored path w"
proof -
  show "retained w' = retained w"
    by (rule retained_frame [OF extends_mono [OF assms]]) (simp add: replaces_def is_disk_not_publish)
  have "file_event path f e = f" if "replaces path {} e" for f e
    using that by (induction path f e rule: file_event.induct) (auto simp: replaces_def)
  with assms show "stored path w' = stored path w"
    unfolding extends_def stored_def using foldl_frame [where f = "file_event path" and P = "replaces path {}"]
    by fastforce
qed

section \<open>Properties\<close>

text \<open>
  C2. Crash safety of reconciliation. The process may stop, or any disk or broker operation may fail,
  between any two events: at every instant of \<open>reconcileDiscovery\<close>, the retained topics that the
  manifest on disk does not account for are among those it did not account for at the start. So a
  later run can always find and remove what an interrupted one published.
\<close>

theorem discovery_crash_safe:
  assumes "broker_acks E" and "file_honest E (StateFile (Discovery (MQTT cfg)))" and "codec_ok C S"
    and "ClientID (MQTT cfg) \<in> S" and "Dev_ID (Device cfg) \<in> S" and "discovery_topic cfg ` set (Entities cfg) \<subseteq> S"
    and "StateFile (Discovery (MQTT cfg)) \<noteq> []"
  shows "keeps (\<lambda>u. untracked C (StateFile (Discovery (MQTT cfg))) u \<subseteq> untracked C (StateFile (Discovery (MQTT cfg))) w)
    w (snd (reconcileDiscovery E C (Publish E cl) cfg w))"
  by (rule client.reconcile_keeps [OF assms(1-6) refl assms(7)]) simp

theorem discovery_crash_safe_witness:
  "keeps (\<lambda>u. untracked ex_codec ''/var/lib/ctl/state.json'' u \<subseteq> untracked ex_codec ''/var/lib/ctl/state.json'' [])
    [] (snd (reconcileDiscovery sim_env ex_codec (Publish sim_env ex_client) ex_config []))"
  using discovery_crash_safe [OF sim_broker_acks sim_file_honest ex_codec_ok, of ex_config "[]" ex_client]
  by (simp add: ex_config_def ex_mqtt_def)

text \<open>
  C8. A successful reconciliation of a valid configuration leaves exactly the right messages: every
  desired topic holds its payload, every other topic the manifest listed is gone, no foreign topic
  has changed, and the manifest lists exactly the desired topics.
\<close>

theorem discovery_converges:
  assumes "broker_acks E" and "file_honest E (StateFile (Discovery (MQTT cfg)))" and "codec_ok C S"
    and "ClientID (MQTT cfg) \<in> S" and "Dev_ID (Device cfg) \<in> S" and "discovery_topic cfg ` set (Entities cfg) \<subseteq> S"
    and path: "path = StateFile (Discovery (MQTT cfg))" "path \<noteq> []"
    and valid: "valid_config L cfg" and "\<forall>j b. Marshal C j = Inr b \<longrightarrow> b \<noteq> []"
    and ok: "reconcileDiscovery E C (Publish E cl) cfg w = (None, w')"
  shows "\<exists>pubs. desiredDiscoveryPublications C cfg = Inr pubs \<and> tracked C path w' = dp_topic ` set pubs
    \<and> retained w' = (\<lambda>t. if t \<in> tracked C path w then None else retained w t)
        ++ map_of (map (\<lambda>p. (dp_topic p, dp_payload p)) pubs)"
proof -
  obtain pubs w1 w2 where pubs: "desiredDiscoveryPublications C cfg = Inr pubs" and w1: "lockDiscoveryState E path w = (None, w1)"
    and w2: "reconcile_locked E C (Publish E cl) cfg path pubs w1 = (None, w2)" and w': "w' = unlockDiscoveryState E path w2"
    using reconcile_split [OF ok path] .
  have texts: "dp_topic ` set pubs \<subseteq> S"
    using desired_topics(2) [OF pubs] assms(6) by (auto split: if_splits)
  have "\<forall>p \<in> set pubs. dp_payload p \<noteq> []"
    using pubs publications_of_topics assms(10)
    by (fastforce simp: desiredDiscoveryPublications_def split: if_splits)
  note result = client.reconcile_locked_ok [OF assms(1) assms(2) [folded path(1)] assms(3-5) texts valid_topics(1) [OF valid pubs] this w2]
  have frame: "retained w1 = retained w" "stored path w1 = stored path w" "retained w' = retained w2" "stored path w' = stored path w2"
    using quiet_disk [OF lock_ext [of path w E]] w1 quiet_disk [OF unlock_ext [of path w2 E]] w' by simp_all
  show ?thesis
    using pubs result unfolding frame(1,3) tracked_frame [OF frame(2)] tracked_frame [OF frame(4)] by blast
qed

theorem discovery_converges_witness:
  "retained (snd (reconcileDiscovery sim_env ex_codec (Publish sim_env ex_client) ex_config []))
     ''homeassistant/switch/ctl/relay/config'' = Some ''{}''"
proof -
  have path: "StateFile (Discovery (MQTT ex_config)) \<noteq> []" by (simp add: ex_config_def ex_mqtt_def)
  have "fst (reconcileDiscovery sim_env ex_codec (Publish sim_env ex_client) ex_config []) = None"
    by code_simp
  then obtain w' where ok: "reconcileDiscovery sim_env ex_codec (Publish sim_env ex_client) ex_config [] = (None, w')"
    by (metis prod.collapse)
  obtain pubs where pubs: "desiredDiscoveryPublications ex_codec ex_config = Inr pubs"
    "retained w' = (\<lambda>t. if t \<in> tracked ex_codec (StateFile (Discovery (MQTT ex_config))) [] then None else retained [] t)
        ++ map_of (map (\<lambda>p. (dp_topic p, dp_payload p)) pubs)"
    using discovery_converges [OF sim_broker_acks sim_file_honest ex_codec_ok _ _ _ refl path ex_valid _ ok]
    by (auto simp: ex_codec_def)
  have "map_option (\<lambda>ps. map_of (map (\<lambda>p. (dp_topic p, dp_payload p)) ps) ''homeassistant/switch/ctl/relay/config'')
    (case desiredDiscoveryPublications ex_codec ex_config of Inl _ \<Rightarrow> None | Inr ps \<Rightarrow> Some ps) = Some (Some ''{}'')"
    by code_simp
  with pubs ok show ?thesis by simp
qed



text \<open>
  C24. A manifest that belongs to another MQTT client is refused before anything is published or
  written: the error names both clients, and neither the broker nor the state file is touched.
\<close>

theorem foreign_manifest_refused:
  assumes "desiredDiscoveryPublications C cfg = Inr pubs" and "path = StateFile (Discovery (MQTT cfg))" and "path \<noteq> []"
    and "lockDiscoveryState E path w = (None, w1)" and "loadDiscoveryState E C path w1 = Inr previous"
    and "validateDiscoveryState previous = None" and "OwnerID previous \<noteq> []" and "OwnerID previous \<noteq> ClientID (MQTT cfg)"
  shows "\<exists>w'. reconcileDiscovery E C pub cfg w = (Some (DOwner path (OwnerID previous) (ClientID (MQTT cfg))), w')
    \<and> retained w' = retained w \<and> stored path w' = stored path w"
proof -
  have "reconcile_locked E C pub cfg path pubs w1 = (Some (DOwner path (OwnerID previous) (ClientID (MQTT cfg))), w1)"
    using assms(5-8) by (simp add: reconcile_locked_def and_then_def)
  then have "reconcileDiscovery E C pub cfg w
    = (Some (DOwner path (OwnerID previous) (ClientID (MQTT cfg))), unlockDiscoveryState E path w1)"
    using assms(1-4) by (simp add: reconcileDiscovery_def and_then_def Let_def)
  then show ?thesis
    using quiet_disk [OF lock_ext [of path w E]] quiet_disk [OF unlock_ext [of path w1 E]] assms(4) by simp
qed

theorem foreign_manifest_refused_witness:
  "\<exists>w'. reconcileDiscovery sim_env ex_codec (Publish sim_env ex_client) ex_config ex_foreign
     = (Some (DOwner ''/var/lib/ctl/state.json'' ''other'' ''ctl''), w') \<and> retained w' = retained ex_foreign"
proof -
  let ?path = "''/var/lib/ctl/state.json''"
  have path: "?path = StateFile (Discovery (MQTT ex_config))" and me: "ClientID (MQTT ex_config) = ''ctl''"
    by (simp_all add: ex_config_def ex_mqtt_def)
  have "\<not> isl (desiredDiscoveryPublications ex_codec ex_config)" by code_simp
  then obtain pubs where pubs: "desiredDiscoveryPublications ex_codec ex_config = Inr pubs"
    by (cases "desiredDiscoveryPublications ex_codec ex_config") auto
  have "fst (lockDiscoveryState sim_env ?path ex_foreign) = None" by code_simp
  then obtain w1 where w1: "lockDiscoveryState sim_env ?path ex_foreign = (None, w1)" by (metis prod.collapse)
  have "loadDiscoveryState sim_env ex_codec ?path (snd (lockDiscoveryState sim_env ?path ex_foreign))
    = Inr \<lparr>Version = 1, OwnerID = ''other'', DeviceID = ''ctl'', Topics = []\<rparr>" by code_simp
  with w1 have load: "loadDiscoveryState sim_env ex_codec ?path w1
    = Inr \<lparr>Version = 1, OwnerID = ''other'', DeviceID = ''ctl'', Topics = []\<rparr>" by simp
  have "validateDiscoveryState \<lparr>Version = 1, OwnerID = ''other'', DeviceID = ''ctl'', Topics = []\<rparr> = None" by code_simp
  from foreign_manifest_refused [OF pubs path _ w1 load this, of "Publish sim_env ex_client"] me show ?thesis
    by auto
qed

end
