(* ===== verification/Duplicate_Filter.thy ===== *)
theory Duplicate_Filter
  imports Rate_Limit
begin

section \<open>Duplicate suppression (acceptMessage and resetDedupe of controller/controller.go)\<close>

text \<open>
  The controller remembers the last 256 QoS 1 and 2 deliveries of a session. The code keeps a map
  from printed keys to generations, a queue of entries, and a 64-bit counter that wraps; a key that
  is recorded again gets a new generation, and the eviction of its older entry must not delete it.
  The abstract view is a window: the list of the last 256 recorded pairs of topic and packet
  identifier.
\<close>

definition DuplicateCacheSize :: nat where
  "DuplicateCacheSize = 256"

record dedupe_state =
  dedupe :: "u64 gomap"
  dedupeOrder :: "(string \<times> u64) list" \<comment> \<open>dedupeEntry: key and generation\<close>
  dedupeSeq :: u64

definition resetDedupe :: dedupe_state where
  "resetDedupe = \<lparr>dedupe = [], dedupeOrder = [], dedupeSeq = 0\<rparr>"

definition dedupe_key :: "string \<Rightarrow> u16 \<Rightarrow> string" where
  "dedupe_key topic messageID = topic @ '':'' @ decimal (unat messageID)"

text \<open>Reading a Go map at a missing key gives zero.\<close>

definition generation_of :: "u64 gomap \<Rightarrow> string \<Rightarrow> u64" where
  "generation_of m k = (case map_of m k of None \<Rightarrow> 0 | Some g \<Rightarrow> g)"

fun evict :: "u64 gomap \<Rightarrow> (string \<times> u64) list \<Rightarrow> u64 gomap \<times> (string \<times> u64) list" where
  "evict m [] = (m, [])"
| "evict m (oldest # order) =
     (if length (oldest # order) > DuplicateCacheSize
      then evict (if generation_of m (fst oldest) = snd oldest then del (fst oldest) m else m) order
      else (m, oldest # order))"

definition dedupe_record :: "string \<Rightarrow> dedupe_state \<Rightarrow> dedupe_state" where
  "dedupe_record key d =
     (let seq = dedupeSeq d + 1;
          (m, order) = evict (put key seq (dedupe d)) (dedupeOrder d @ [(key, seq)])
      in \<lparr>dedupe = m, dedupeOrder = order, dedupeSeq = seq\<rparr>)"

text \<open>The critical section of \<open>acceptMessage\<close>; the result says whether the key was seen.\<close>

definition dedupe_check :: "dedupe_state \<Rightarrow> string \<Rightarrow> u16 \<Rightarrow> bool \<Rightarrow> bool \<times> dedupe_state" where
  "dedupe_check d topic messageID duplicate =
     (let key = dedupe_key topic messageID; seen = (map_of (dedupe d) key \<noteq> None)
      in (seen, if \<not> duplicate \<or> \<not> seen then dedupe_record key d else d))"

subsection \<open>The window\<close>

type_synonym delivery = "string \<times> u16"

definition window_push :: "delivery \<Rightarrow> delivery list \<Rightarrow> delivery list" where
  "window_push x win = (let w = win @ [x] in drop (length w - DuplicateCacheSize) w)"

definition window_check :: "delivery list \<Rightarrow> delivery \<Rightarrow> bool \<Rightarrow> bool \<times> delivery list" where
  "window_check win x duplicate =
     (List.member win x, if \<not> duplicate \<or> \<not> List.member win x then window_push x win else win)"

text \<open>
  A state represents a window: the queue holds the printed keys of the window with consecutive
  generations that end at the counter (also across a wrap), and the map gives each key the
  generation of its last entry.
\<close>

definition entry_key :: "delivery \<Rightarrow> string" where
  "entry_key x = dedupe_key (fst x) (snd x)"

definition generations :: "u64 \<Rightarrow> nat \<Rightarrow> u64 list" where
  "generations seq n = map (\<lambda>i. seq - of_nat (n - 1 - i)) [0..<n]"

definition window_rep :: "dedupe_state \<Rightarrow> delivery list \<Rightarrow> bool" where
  "window_rep d win \<longleftrightarrow>
     length win \<le> DuplicateCacheSize
     \<and> dedupeOrder d = zip (map entry_key win) (generations (dedupeSeq d) (length win))
     \<and> map_of (dedupe d) = map_of (rev (dedupeOrder d))"

text \<open>A sequence of deliveries, each with its DUP flag, and the verdicts.\<close>

fun filter_run :: "('s \<Rightarrow> string \<Rightarrow> u16 \<Rightarrow> bool \<Rightarrow> bool \<times> 's) \<Rightarrow> 's \<Rightarrow> (delivery \<times> bool) list \<Rightarrow> bool list \<times> 's" where
  "filter_run check s [] = ([], s)"
| "filter_run check s (((topic, i), dup) # ms) =
     (let (seen, s1) = check s topic i dup; (vs, s2) = filter_run check s1 ms in ((dup \<and> seen) # vs, s2))"

section \<open>Lemmas\<close>

lemma dedupe_key_inject: "dedupe_key t i = dedupe_key t' i' \<longleftrightarrow> t = t' \<and> i = i'"
  using append_sep_inject [of t "CHR '':''" "decimal (unat i)" t' "decimal (unat i')"]
  by (auto simp: dedupe_key_def word_unat_eq_iff)

lemma inj_entry_key: "inj entry_key"
  by (auto simp: inj_on_def entry_key_def dedupe_key_inject prod_eq_iff)

lemma length_generations [simp]: "length (generations seq n) = n"
  by (simp add: generations_def)

lemma generations_Suc: "generations (seq + 1) (Suc n) = generations seq n @ [seq + 1]"
proof -
  have "seq + 1 - of_nat (n - i) = seq - of_nat (n - 1 - i)" if "i < n" for i
    using that by (simp add: of_nat_diff algebra_simps)
  then show ?thesis by (auto simp: generations_def)
qed

lemma tl_generations: "tl (generations seq (Suc n)) = generations seq n"
proof -
  have "[0..<Suc n] = 0 # map Suc [0..<n]" by (simp add: map_Suc_upt upt_conv_Cons)
  then show ?thesis by (simp add: generations_def comp_def)
qed

lemma generations_distinct:
  assumes "n \<le> 2 ^ 64"
  shows "distinct (generations seq n)"
proof -
  have "inj_on (\<lambda>i. seq - of_nat (n - 1 - i)) {0..<n}"
  proof (rule inj_onI)
    fix i j
    assume ij: "i \<in> {0..<n}" "j \<in> {0..<n}" and eq: "seq - of_nat (n - 1 - i) = seq - of_nat (n - 1 - j)"
    then have "unat (of_nat (n - 1 - i) :: u64) = unat (of_nat (n - 1 - j) :: u64)" by simp
    then have "n - 1 - i = n - 1 - j"
      using ij assms unfolding unat_of_nat by simp
    then show "i = j" using ij by auto
  qed
  then show ?thesis by (simp add: generations_def distinct_map)
qed

lemma evict_small: "length order \<le> DuplicateCacheSize \<Longrightarrow> evict m order = (m, order)"
  by (cases order) auto

lemma map_of_rev_Cons: "map_of (rev (e # rest)) = (\<lambda>k. case map_of (rev rest) k of
    None \<Rightarrow> if k = fst e then Some (snd e) else None | Some g \<Rightarrow> Some g)"
  by (cases e) (auto simp: map_add_def fun_eq_iff split: option.splits)

lemma evict_oldest:
  assumes m: "map_of m = map_of (rev (e # rest))" and fresh: "snd e \<notin> snd ` set rest"
  shows "map_of (if generation_of m (fst e) = snd e then del (fst e) m else m) = map_of (rev rest)"
proof (cases "map_of (rev rest) (fst e)")
  case None
  then have "generation_of m (fst e) = snd e"
    unfolding generation_of_def m map_of_rev_Cons by simp
  then show ?thesis
    using None by (auto simp: m map_of_rev_Cons fun_eq_iff split: option.split simp del: rev.simps)
next
  case (Some g)
  then have "(fst e, g) \<in> set rest" by (auto dest: map_of_SomeD)
  then have "g \<noteq> snd e" using fresh by force
  moreover have "generation_of m (fst e) = g"
    using Some unfolding generation_of_def m map_of_rev_Cons by simp
  ultimately show ?thesis
    using Some by (auto simp: m map_of_rev_Cons fun_eq_iff split: option.split simp del: rev.simps)
qed

lemma window_rep_reset: "window_rep resetDedupe []"
  by (simp add: window_rep_def resetDedupe_def generations_def)

lemma window_rep_seen:
  assumes "window_rep d win"
  shows "map_of (dedupe d) (dedupe_key topic i) \<noteq> None \<longleftrightarrow> List.member win (topic, i)"
proof -
  have "fst ` set (dedupeOrder d) = entry_key ` set win"
    using assms by (simp add: window_rep_def image_set del: set_map flip: set_map)
  then have "dom (map_of (dedupe d)) = entry_key ` set win"
    using assms by (simp add: window_rep_def dom_map_of_conv_image_fst)
  then have "dedupe_key topic i \<in> dom (map_of (dedupe d)) \<longleftrightarrow> entry_key (topic, i) \<in> entry_key ` set win"
    by (simp add: entry_key_def)
  then show ?thesis
    by (simp add: List.member_iff inj_image_mem_iff [OF inj_entry_key] domIff)
qed

lemma window_rep_record:
  assumes "window_rep d win"
  shows "window_rep (dedupe_record (entry_key x) d) (window_push x win)"
proof -
  let ?n = "length win" and ?seq = "dedupeSeq d + 1"
  let ?m = "put (entry_key x) ?seq (dedupe d)" and ?o = "dedupeOrder d @ [(entry_key x, ?seq)]"
  have n: "?n \<le> DuplicateCacheSize" and m: "map_of ?m = map_of (rev ?o)"
    using assms by (simp_all add: window_rep_def)
  have o: "?o = zip (map entry_key (win @ [x])) (generations ?seq (Suc ?n))"
    using assms by (simp add: window_rep_def generations_Suc)
  show ?thesis
  proof (cases "?n = DuplicateCacheSize")
    case False
    then have "evict ?m ?o = (?m, ?o)" "window_push x win = win @ [x]"
      using n o by (auto simp: window_push_def Let_def intro!: evict_small)
    then show ?thesis
      using False n m o by (auto simp: window_rep_def dedupe_record_def Let_def)
  next
    case True
    then obtain y ys where win: "win @ [x] = y # ys" and ys: "length ys = DuplicateCacheSize"
      by (cases win) (auto simp: DuplicateCacheSize_def)
    obtain g gs where gen: "generations ?seq (Suc ?n) = g # gs" and gs: "gs = generations ?seq (length ys)"
      using tl_generations [of ?seq ?n] ys True by (cases "generations ?seq (Suc ?n)") (auto simp: generations_def)
    have split: "?o = (entry_key y, g) # zip (map entry_key ys) gs"
      unfolding o win gen by simp
    have "g \<notin> set gs"
      using generations_distinct [of "Suc ?n" ?seq] True
      unfolding gen by (simp add: DuplicateCacheSize_def)
    then have fresh: "g \<notin> snd ` set (zip (map entry_key ys) gs)"
      by (auto dest: set_zip_rightD)
    define m1 where "m1 = (if generation_of ?m (entry_key y) = g then del (entry_key y) ?m else ?m)"
    have "evict ?m ?o = (m1, zip (map entry_key ys) gs)"
      unfolding split m1_def using ys gs by (simp add: evict_small)
    moreover have "map_of m1 = map_of (rev (zip (map entry_key ys) gs))"
      using evict_oldest [OF m [unfolded split]] fresh unfolding m1_def fst_conv snd_conv by blast
    moreover have "window_push x win = ys"
      using win ys by (simp add: window_push_def Let_def)
    ultimately show ?thesis
      using ys gs by (simp add: window_rep_def dedupe_record_def Let_def)
  qed
qed

section \<open>The contract\<close>

locale duplicate_filter =
  fixes check :: "'s \<Rightarrow> string \<Rightarrow> u16 \<Rightarrow> bool \<Rightarrow> bool \<times> 's"
    and rep :: "'s \<Rightarrow> delivery list \<Rightarrow> bool"
    and init :: 's
  assumes rep_init: "rep init []"
    and rep_check: "rep s win \<Longrightarrow> fst (check s topic i dup) = fst (window_check win (topic, i) dup)
      \<and> rep (snd (check s topic i dup)) (snd (window_check win (topic, i) dup))"
begin

lemma run_refines:
  "rep s win \<Longrightarrow> fst (filter_run check s ms) = fst (filter_run (\<lambda>w t i. window_check w (t, i)) win ms)
     \<and> rep (snd (filter_run check s ms)) (snd (filter_run (\<lambda>w t i. window_check w (t, i)) win ms))"
proof (induction ms arbitrary: s win)
  case (Cons m ms)
  obtain topic i dup where m: "m = ((topic, i), dup)" by (metis prod.collapse)
  show ?case
    using rep_check [OF Cons.prems, of topic i dup]
      Cons.IH [of "snd (check s topic i dup)" "snd (window_check win (topic, i) dup)"]
    by (simp add: m split_beta)
qed simp

end

interpretation dedupe: duplicate_filter dedupe_check window_rep resetDedupe
proof unfold_locales
  fix s win topic i dup
  assume rep: "window_rep s win"
  show "fst (dedupe_check s topic i dup) = fst (window_check win (topic, i) dup)
      \<and> window_rep (snd (dedupe_check s topic i dup)) (snd (window_check win (topic, i) dup))"
    using rep window_rep_seen [OF rep, of topic i] window_rep_record [OF rep, of "(topic, i)"]
    by (auto simp: dedupe_check_def window_check_def Let_def entry_key_def)
qed (rule window_rep_reset)

section \<open>Properties\<close>

text \<open>
  C5. After a reset, over any sequence of deliveries, the map, the queue and the wrapping counter
  give exactly the verdicts of the sliding window: a delivery with the DUP flag is rejected if and
  only if the same topic and packet identifier is among the last 256 recorded deliveries. Evicting
  an old entry never forgets a key that was recorded again since. The cache never holds more than
  256 entries, and a key is in the map exactly when an entry of the queue carries it.
\<close>

theorem dedupe_is_window:
  "fst (filter_run dedupe_check resetDedupe ms) = fst (filter_run (\<lambda>win t i. window_check win (t, i)) [] ms)
   \<and> (let d = snd (filter_run dedupe_check resetDedupe ms) in
      length (dedupeOrder d) \<le> DuplicateCacheSize \<and> dom (map_of (dedupe d)) = fst ` set (dedupeOrder d))"
proof -
  let ?d = "snd (filter_run dedupe_check resetDedupe ms)"
  obtain win where "window_rep ?d win"
    using dedupe.run_refines [OF window_rep_reset] by blast
  then have "length (dedupeOrder ?d) \<le> DuplicateCacheSize" "map_of (dedupe ?d) = map_of (rev (dedupeOrder ?d))"
    by (simp_all add: window_rep_def)
  then show ?thesis
    using dedupe.run_refines [OF window_rep_reset, of ms] by (simp add: Let_def dom_map_of_conv_image_fst [of "rev _"])
qed

end
