(* ===== verification/Bounded_Queue.thy ===== *)
theory Bounded_Queue
  imports Environment
begin

section \<open>Bounded command queues\<close>

text \<open>
  A buffered Go channel of capacity \<open>EntityQueueCapacity\<close> per entity, filled by a non-blocking send
  (\<open>select\<close> with a \<open>default\<close> branch) and emptied by the entity's worker. The locale is the contract
  the controller relies on: what was accepted is received in order, and the bound is kept.
\<close>

definition EntityQueueCapacity :: nat where
  "EntityQueueCapacity = 32"

definition chan_send :: "'a \<Rightarrow> 'a list \<Rightarrow> 'a list option" where
  "chan_send x q = (if length q < EntityQueueCapacity then Some (q @ [x]) else None)"

definition chan_recv :: "'a list \<Rightarrow> ('a \<times> 'a list) option" where
  "chan_recv q = (case q of [] \<Rightarrow> None | x # xs \<Rightarrow> Some (x, xs))"

locale bounded_fifo =
  fixes send :: "'a \<Rightarrow> 'q \<Rightarrow> 'q option"
    and recv :: "'q \<Rightarrow> ('a \<times> 'q) option"
    and contents :: "'q \<Rightarrow> 'a list"
    and cap :: nat
  assumes send_Some: "send x q = Some q' \<Longrightarrow> contents q' = contents q @ [x] \<and> length (contents q) < cap"
    and send_None: "send x q = None \<Longrightarrow> cap \<le> length (contents q)"
    and recv_Some: "recv q = Some (x, q') \<Longrightarrow> contents q = x # contents q'"
    and recv_None: "recv q = None \<Longrightarrow> contents q = []"
begin

text \<open>Accepted commands are the received ones followed by the pending ones.\<close>

definition in_order :: "'a list \<Rightarrow> 'a list \<Rightarrow> 'q \<Rightarrow> bool" where
  "in_order accepted received q \<longleftrightarrow> accepted = received @ contents q \<and> length (contents q) \<le> cap"

lemma in_order_send: "in_order as rs q \<Longrightarrow> send x q = Some q' \<Longrightarrow> in_order (as @ [x]) rs q'"
  using send_Some [of x q q'] by (simp add: in_order_def)

lemma in_order_recv: "in_order as rs q \<Longrightarrow> recv q = Some (x, q') \<Longrightarrow> in_order as (rs @ [x]) q'"
  using recv_Some [of q x q'] by (simp add: in_order_def)

lemma refused_only_when_full: "in_order as rs q \<Longrightarrow> send x q = None \<longleftrightarrow> length (contents q) = cap"
  using send_Some [of x q] send_None [of x q] by (cases "send x q") (auto simp: in_order_def)

end

interpretation chan: bounded_fifo chan_send chan_recv "\<lambda>q. q" EntityQueueCapacity
  by unfold_locales (auto simp: chan_send_def chan_recv_def split: if_splits list.splits)

end
