(* ===== verification/Controller.thy ===== *)
theory Controller
  imports Action_Executor Discovery Duplicate_Filter Bounded_Queue
begin

section \<open>The entity controller (controller/controller.go)\<close>

text \<open>
  The controller receives commands from the client's callbacks, filters them (shutdown, retained
  messages, duplicates), queues them per entity, and runs one worker per switch and button. The GPIO
  manager and the MQTT client are arguments of the operations that use them; the context is the
  environment's answer, overridden by the controller's own cancellation. A nil dereference sets
  \<open>c_panicked\<close>.
\<close>

record entityCommand =
  ec_entity :: EntityConfig
  ec_message :: Message

record switchRuntime =
  sw_state :: bool
  sw_queue :: "entityCommand list"
  sw_overflow :: overflowLog
  sw_current :: "entityCommand option" \<comment> \<open>the command the worker has received\<close>

record buttonRuntime =
  bt_queue :: "entityCommand list"
  bt_overflow :: overflowLog
  bt_current :: "entityCommand option"

record Controller =
  c_cfg :: Config
  c_cancelled :: bool
  c_wg :: nat
  c_accepting :: bool
  c_dedupe :: dedupe_state
  c_rejectedLog :: overflowLog
  switches :: "switchRuntime gomap"
  buttons :: "buttonRuntime gomap"
  binaryByInput :: "EntityConfig list gomap"
  c_panicked :: bool

text \<open>The closures handed to the client.\<close>

datatype message_handler = SwitchHandler EntityConfig | ButtonHandler EntityConfig
datatype session_handler = ResetDedupe
datatype connect_handler = Announce

type_synonym app_client = "(message_handler, session_handler, connect_handler) Client"

subsection \<open>Construction\<close>

definition new_controller :: "Config \<Rightarrow> Controller" where
  "new_controller cfg = \<lparr>c_cfg = cfg, c_cancelled = False, c_wg = 0, c_accepting = True, c_dedupe = resetDedupe,
     c_rejectedLog = new_overflowLog, switches = [], buttons = [], binaryByInput = [], c_panicked = False\<rparr>"

definition add_entity :: "Controller \<Rightarrow> EntityConfig \<Rightarrow> Controller" where
  "add_entity c entity =
     (if Ent_Type entity = ''switch'' then
        (let initial = (case InitialState entity of None \<Rightarrow> False | Some b \<Rightarrow> b)
         in c\<lparr>switches := put (Ent_ID entity)
                \<lparr>sw_state = initial, sw_queue = [], sw_overflow = new_overflowLog, sw_current = None\<rparr> (switches c),
              c_wg := c_wg c + 1\<rparr>)
      else if Ent_Type entity = ''button'' then
        c\<lparr>buttons := put (Ent_ID entity) \<lparr>bt_queue = [], bt_overflow = new_overflowLog, bt_current = None\<rparr> (buttons c),
          c_wg := c_wg c + 1\<rparr>
      else if Ent_Type entity = ''binary_sensor'' then
        (let name = Source_GPIO (Source entity);
             known = (case map_of (binaryByInput c) name of None \<Rightarrow> [] | Some es \<Rightarrow> es)
         in c\<lparr>binaryByInput := put name (known @ [entity]) (binaryByInput c)\<rparr>)
      else c)"

definition Controller_New :: "Config \<Rightarrow> Controller" where
  "Controller_New cfg = foldl add_entity (new_controller cfg) (Entities cfg)"

subsection \<open>Registration\<close>

fun register_entities ::
  "env \<Rightarrow> Config \<Rightarrow> EntityConfig list \<Rightarrow> app_client \<Rightarrow> trace \<Rightarrow> client_error option \<times> app_client \<times> trace" where
  "register_entities E cfg [] cl w = (None, cl, w)"
| "register_entities E cfg (entity # rest) cl w =
     (if Ent_Type entity = ''switch'' then
        (case RegisterSubscription E (entityTopic cfg (Ent_ID entity) ''set'') (SwitchHandler entity) cl w of
           (Some e, cl1, w1) \<Rightarrow> (Some e, cl1, w1)
         | (None, cl1, w1) \<Rightarrow> register_entities E cfg rest cl1 w1)
      else if Ent_Type entity = ''button'' then
        (case RegisterSubscription E (entityTopic cfg (Ent_ID entity) ''press'') (ButtonHandler entity) cl w of
           (Some e, cl1, w1) \<Rightarrow> (Some e, cl1, w1)
         | (None, cl1, w1) \<Rightarrow> register_entities E cfg rest cl1 w1)
      else register_entities E cfg rest cl w)"

definition Register ::
  "env \<Rightarrow> Controller \<Rightarrow> app_client \<Rightarrow> trace \<Rightarrow> client_error option \<times> app_client \<times> trace" where
  "Register E c cl w =
     (case register_entities E (c_cfg c) (Entities (c_cfg c)) cl w of
        (Some e, cl1, w1) \<Rightarrow> (Some e, cl1, w1)
      | (None, cl1, w1) \<Rightarrow> (None, AddConnectHandler Announce (AddSessionHandler ResetDedupe cl1), w1))"

subsection \<open>Accepting and queueing\<close>

definition ctx_Err :: "env \<Rightarrow> Controller \<Rightarrow> trace \<Rightarrow> ctx_error option \<times> trace" where
  "ctx_Err E c w = (if c_cancelled c then (Some Canceled, w @ [EvCtx ServiceCtx (Some Canceled)]) else ask_ctx E ServiceCtx w)"

definition beginCallback :: "env \<Rightarrow> Controller \<Rightarrow> trace \<Rightarrow> bool \<times> Controller \<times> trace" where
  "beginCallback E c w =
     (if \<not> c_accepting c then (False, c, w)
      else (let (err, w1) = ctx_Err E c w
            in if err \<noteq> None then (False, c, w1) else (True, c\<lparr>c_wg := c_wg c + 1\<rparr>, w1)))"

definition callback_Done :: "Controller \<Rightarrow> Controller" where
  "callback_Done c = c\<lparr>c_wg := c_wg c - 1\<rparr>"

definition reject :: "env \<Rightarrow> string \<Rightarrow> Controller \<Rightarrow> trace \<Rightarrow> Controller \<times> trace" where
  "reject E msg c w =
     (let (now, w1) = ask_now E w; (_, l) = recordRejection msg (c_rejectedLog c) now in (c\<lparr>c_rejectedLog := l\<rparr>, w1))"

definition acceptMessage :: "env \<Rightarrow> EntityConfig \<Rightarrow> Message \<Rightarrow> Controller \<Rightarrow> trace \<Rightarrow> bool \<times> Controller \<times> trace" where
  "acceptMessage E entity message c w =
     (if \<not> c_accepting c then (False, c, w)
      else (let (err, w1) = ctx_Err E c w
            in if err \<noteq> None then (False, c, w1)
               else if M_Retained message then
                 (let (c1, w2) = reject E (''reject retained MQTT control for '' @ Ent_ID entity @ '' payload=''
                        @ boundedPayload (M_Payload message)) c w1
                  in (False, c1, w2))
               else if M_QoS message > 0 then
                 (let (seen, d) = dedupe_check (c_dedupe c) (M_Topic message) (M_MessageID message) (M_Duplicate message);
                      c1 = c\<lparr>c_dedupe := d\<rparr>
                  in if M_Duplicate message \<and> seen
                     then (let (c2, w2) = reject E (''reject duplicate MQTT control for '' @ Ent_ID entity @ '' qos=''
                             @ decimal (unat (M_QoS message)) @ '' message_id='' @ decimal (unat (M_MessageID message))) c1 w1 in (False, c2, w2))
                     else (True, c1, w1))
               else (True, c, w1)))"

text \<open>What happened to a command: queued, dropped because the queue is full, or not accepted.\<close>

datatype fate = Queued | Overflowed | Refused

definition enqueueSwitch :: "env \<Rightarrow> EntityConfig \<Rightarrow> Message \<Rightarrow> Controller \<Rightarrow> trace \<Rightarrow> fate \<times> Controller \<times> trace" where
  "enqueueSwitch E entity message c w =
     (let (ok, c1, w1) = acceptMessage E entity message c w
      in if \<not> ok then (Refused, c1, w1)
         else (case map_of (switches c1) (Ent_ID entity) of
             None \<Rightarrow> (Refused, c1\<lparr>c_panicked := True\<rparr>, w1)
           | Some rt \<Rightarrow>
               (case chan_send \<lparr>ec_entity = entity, ec_message = message\<rparr> (sw_queue rt) of
                  Some q \<Rightarrow> (Queued, c1\<lparr>switches := put (Ent_ID entity) (rt\<lparr>sw_queue := q\<rparr>) (switches c1)\<rparr>, w1)
                | None \<Rightarrow>
                    (let (now, w2) = ask_now E w1; (_, l) = record_overflow ''switch'' (Ent_ID entity) (sw_overflow rt) now
                     in (Overflowed, c1\<lparr>switches := put (Ent_ID entity) (rt\<lparr>sw_overflow := l\<rparr>) (switches c1)\<rparr>, w2)))))"

definition enqueueButton :: "env \<Rightarrow> EntityConfig \<Rightarrow> Message \<Rightarrow> Controller \<Rightarrow> trace \<Rightarrow> fate \<times> Controller \<times> trace" where
  "enqueueButton E entity message c w =
     (let (ok, c1, w1) = acceptMessage E entity message c w
      in if \<not> ok then (Refused, c1, w1)
         else (case map_of (buttons c1) (Ent_ID entity) of
             None \<Rightarrow> (Refused, c1\<lparr>c_panicked := True\<rparr>, w1)
           | Some rt \<Rightarrow>
               (case chan_send \<lparr>ec_entity = entity, ec_message = message\<rparr> (bt_queue rt) of
                  Some q \<Rightarrow> (Queued, c1\<lparr>buttons := put (Ent_ID entity) (rt\<lparr>bt_queue := q\<rparr>) (buttons c1)\<rparr>, w1)
                | None \<Rightarrow>
                    (let (now, w2) = ask_now E w1; (_, l) = record_overflow ''button'' (Ent_ID entity) (bt_overflow rt) now
                     in (Overflowed, c1\<lparr>buttons := put (Ent_ID entity) (rt\<lparr>bt_overflow := l\<rparr>) (buttons c1)\<rparr>, w2)))))"

subsection \<open>States\<close>

datatype state_error = StateGpio manager_error | UnsupportedState string

definition switchStateLocked ::
  "env \<Rightarrow> Manager \<Rightarrow> EntityConfig \<Rightarrow> switchRuntime \<Rightarrow> trace \<Rightarrow> (state_error + bool) \<times> trace" where
  "switchStateLocked E m entity rt w =
     (if State_Type (State entity) = ''memory'' then (Inr (sw_state rt), w)
      else if State_Type (State entity) = ''gpio'' then
        map_prod (map_sum StateGpio id) id (OutputState E m (State_GPIO (State entity)) w)
      else (Inl (UnsupportedState (State_Type (State entity))), w))"

definition publishState ::
  "env \<Rightarrow> ('h, 's, 'k) Client \<Rightarrow> Config \<Rightarrow> EntityConfig \<Rightarrow> bool \<Rightarrow> trace \<Rightarrow> client_error option \<times> trace" where
  "publishState E cl cfg entity st w =
     Publish E cl (entityTopic cfg (Ent_ID entity) ''state'') (statePayload st) (MQTTQoS cfg) True w"

text \<open>Read the state and publish it; an error of either is logged.\<close>

definition report_state ::
  "env \<Rightarrow> Manager \<Rightarrow> ('h, 's, 'k) Client \<Rightarrow> Config \<Rightarrow> EntityConfig \<Rightarrow> switchRuntime \<Rightarrow> trace \<Rightarrow> trace" where
  "report_state E m cl cfg entity rt w =
     (case switchStateLocked E m entity rt w of
        (Inl e, w1) \<Rightarrow> w1
      | (Inr st, w1) \<Rightarrow> snd (publishState E cl cfg entity st w1))"

subsection \<open>Handling commands\<close>

definition handleSwitch ::
  "platform \<Rightarrow> env \<Rightarrow> stdlib \<Rightarrow> Manager \<Rightarrow> ('h, 's, 'k) Client \<Rightarrow> EntityConfig \<Rightarrow> bytes \<Rightarrow> Controller \<Rightarrow> trace \<Rightarrow> Controller \<times> trace" where
  "handleSwitch pf E L m cl entity payload c w =
     (let (desired, ok) = parseSwitchPayload payload in
      if \<not> ok then reject E (''switch '' @ Ent_ID entity @ '' received invalid payload '' @ boundedPayload (TrimSpace payload)) c w
      else (case map_of (switches c) (Ent_ID entity) of
          None \<Rightarrow> (c\<lparr>c_panicked := True\<rparr>, w)
        | Some rt \<Rightarrow>
            (case Execute pf E L (Executor_New (c_cfg c) m cl) (if desired then On entity else Off entity) w of
               (Panic, w1) \<Rightarrow> (c\<lparr>c_panicked := True\<rparr>, w1)
             | (Err e, w1) \<Rightarrow> (c, report_state E m cl (c_cfg c) entity rt w1)
             | (Ok, w1) \<Rightarrow>
                 (let rt1 = (if State_Type (State entity) = ''memory'' then rt\<lparr>sw_state := desired\<rparr> else rt)
                  in (c\<lparr>switches := put (Ent_ID entity) rt1 (switches c)\<rparr>, report_state E m cl (c_cfg c) entity rt1 w1)))))"

definition handleButton ::
  "platform \<Rightarrow> env \<Rightarrow> stdlib \<Rightarrow> Manager \<Rightarrow> ('h, 's, 'k) Client \<Rightarrow> EntityConfig \<Rightarrow> bytes \<Rightarrow> Controller \<Rightarrow> trace \<Rightarrow> Controller \<times> trace" where
  "handleButton pf E L m cl entity payload c w =
     (if \<not> is_press payload
      then reject E (''button '' @ Ent_ID entity @ '' received invalid payload '' @ boundedPayload (TrimSpace payload)) c w
      else (case map_of (buttons c) (Ent_ID entity) of
          None \<Rightarrow> (c\<lparr>c_panicked := True\<rparr>, w)
        | Some rt \<Rightarrow>
            (case Execute pf E L (Executor_New (c_cfg c) m cl) (Press entity) w of
               (Panic, w1) \<Rightarrow> (c\<lparr>c_panicked := True\<rparr>, w1)
             | (_, w1) \<Rightarrow> (c, w1))))"

subsection \<open>Workers\<close>

text \<open>
  One round of a worker: receive a command unless the context is done (the result says whether one
  was received), then, as a second step, test the context again and handle it.
\<close>

definition switch_receive :: "env \<Rightarrow> string \<Rightarrow> Controller \<Rightarrow> trace \<Rightarrow> entityCommand option \<times> Controller \<times> trace" where
  "switch_receive E i c w =
     (case map_of (switches c) i of
        None \<Rightarrow> (None, c, w)
      | Some rt \<Rightarrow>
          if sw_current rt \<noteq> None then (None, c, w)
          else (let (err, w1) = ctx_Err E c w
                in if err \<noteq> None then (None, c, w1)
                   else (case chan_recv (sw_queue rt) of
                       None \<Rightarrow> (None, c, w1)
                     | Some (cmd, q) \<Rightarrow>
                         (Some cmd, c\<lparr>switches := put i (rt\<lparr>sw_queue := q, sw_current := Some cmd\<rparr>) (switches c)\<rparr>, w1))))"

definition switch_handle ::
  "platform \<Rightarrow> env \<Rightarrow> stdlib \<Rightarrow> Manager \<Rightarrow> ('h, 's, 'k) Client \<Rightarrow> string \<Rightarrow> Controller \<Rightarrow> trace \<Rightarrow> Controller \<times> trace" where
  "switch_handle pf E L m cl i c w =
     (case map_of (switches c) i of
        None \<Rightarrow> (c, w)
      | Some rt \<Rightarrow>
          (case sw_current rt of
             None \<Rightarrow> (c, w)
           | Some cmd \<Rightarrow>
               (let c1 = c\<lparr>switches := put i (rt\<lparr>sw_current := None\<rparr>) (switches c)\<rparr>; (err, w1) = ctx_Err E c w
                in if err \<noteq> None then (c1, w1)
                   else handleSwitch pf E L m cl (ec_entity cmd) (M_Payload (ec_message cmd)) c1 w1)))"

definition button_receive :: "env \<Rightarrow> string \<Rightarrow> Controller \<Rightarrow> trace \<Rightarrow> entityCommand option \<times> Controller \<times> trace" where
  "button_receive E i c w =
     (case map_of (buttons c) i of
        None \<Rightarrow> (None, c, w)
      | Some rt \<Rightarrow>
          if bt_current rt \<noteq> None then (None, c, w)
          else (let (err, w1) = ctx_Err E c w
                in if err \<noteq> None then (None, c, w1)
                   else (case chan_recv (bt_queue rt) of
                       None \<Rightarrow> (None, c, w1)
                     | Some (cmd, q) \<Rightarrow>
                         (Some cmd, c\<lparr>buttons := put i (rt\<lparr>bt_queue := q, bt_current := Some cmd\<rparr>) (buttons c)\<rparr>, w1))))"

definition button_handle ::
  "platform \<Rightarrow> env \<Rightarrow> stdlib \<Rightarrow> Manager \<Rightarrow> ('h, 's, 'k) Client \<Rightarrow> string \<Rightarrow> Controller \<Rightarrow> trace \<Rightarrow> Controller \<times> trace" where
  "button_handle pf E L m cl i c w =
     (case map_of (buttons c) i of
        None \<Rightarrow> (c, w)
      | Some rt \<Rightarrow>
          (case bt_current rt of
             None \<Rightarrow> (c, w)
           | Some cmd \<Rightarrow>
               (let c1 = c\<lparr>buttons := put i (rt\<lparr>bt_current := None\<rparr>) (buttons c)\<rparr>; (err, w1) = ctx_Err E c w
                in if err \<noteq> None then (c1, w1)
                   else handleButton pf E L m cl (ec_entity cmd) (M_Payload (ec_message cmd)) c1 w1)))"

subsection \<open>Events, announcements, shutdown\<close>

fun publish_states :: "env \<Rightarrow> ('h, 's, 'k) Client \<Rightarrow> Config \<Rightarrow> EntityConfig list \<Rightarrow> bool \<Rightarrow> trace \<Rightarrow> trace" where
  "publish_states E cl cfg [] st w = w"
| "publish_states E cl cfg (e # es) st w = publish_states E cl cfg es st (snd (publishState E cl cfg e st w))"

definition HandleGPIOInput ::
  "env \<Rightarrow> ('h, 's, 'k) Client \<Rightarrow> string \<Rightarrow> bool \<Rightarrow> Controller \<Rightarrow> trace \<Rightarrow> Controller \<times> trace" where
  "HandleGPIOInput E cl name st c w =
     (let (ok, c1, w1) = beginCallback E c w
      in if \<not> ok then (c1, w1)
         else (let entities = (case map_of (binaryByInput c1) name of None \<Rightarrow> [] | Some es \<Rightarrow> es)
               in (callback_Done c1, publish_states E cl (c_cfg c1) entities st w1)))"

fun publish_all ::
  "env \<Rightarrow> Manager \<Rightarrow> ('h, 's, 'k) Client \<Rightarrow> Controller \<Rightarrow> EntityConfig list \<Rightarrow> trace \<Rightarrow> bool \<times> trace" where
  "publish_all E m cl c [] w = (True, w)"
| "publish_all E m cl c (entity # rest) w =
     (if Ent_Type entity = ''switch'' then
        (case map_of (switches c) (Ent_ID entity) of
           None \<Rightarrow> (False, w)
         | Some rt \<Rightarrow> publish_all E m cl c rest (report_state E m cl (c_cfg c) entity rt w))
      else if Ent_Type entity = ''binary_sensor'' then
        (case InputState E m (Source_GPIO (Source entity)) w of
           (Inl e, w1) \<Rightarrow> publish_all E m cl c rest w1
         | (Inr st, w1) \<Rightarrow> publish_all E m cl c rest (snd (publishState E cl (c_cfg c) entity st w1)))
      else publish_all E m cl c rest w)"

definition PublishAllStates ::
  "env \<Rightarrow> Manager \<Rightarrow> ('h, 's, 'k) Client \<Rightarrow> Controller \<Rightarrow> trace \<Rightarrow> Controller \<times> trace" where
  "PublishAllStates E m cl c w =
     (let (ok, w1) = publish_all E m cl c (Entities (c_cfg c)) w in (if ok then c else c\<lparr>c_panicked := True\<rparr>, w1))"

definition PublishDiscovery ::
  "env \<Rightarrow> codec \<Rightarrow> ('h, 's, 'k) Client \<Rightarrow> Controller \<Rightarrow> trace \<Rightarrow> discovery_error option \<times> trace" where
  "PublishDiscovery E C cl c w = reconcileDiscovery E C (Publish E cl) (c_cfg c) w"

text \<open>Running the closures the client holds.\<close>

definition deliver :: "env \<Rightarrow> message_handler \<Rightarrow> Message \<Rightarrow> Controller \<Rightarrow> trace \<Rightarrow> fate \<times> Controller \<times> trace" where
  "deliver E h message c w =
     (case h of SwitchHandler e \<Rightarrow> enqueueSwitch E e message c w | ButtonHandler e \<Rightarrow> enqueueButton E e message c w)"

definition run_message :: "env \<Rightarrow> message_handler \<Rightarrow> Message \<Rightarrow> Controller \<Rightarrow> trace \<Rightarrow> Controller \<times> trace" where
  "run_message E h message c w = snd (deliver E h message c w)"

definition run_session :: "session_handler \<Rightarrow> Controller \<Rightarrow> trace \<Rightarrow> Controller \<times> trace" where
  "run_session h c w = (c\<lparr>c_dedupe := resetDedupe\<rparr>, w)"

definition run_connect ::
  "env \<Rightarrow> codec \<Rightarrow> Manager \<Rightarrow> app_client \<Rightarrow> connect_handler \<Rightarrow> Controller \<Rightarrow> trace \<Rightarrow> Controller \<times> trace" where
  "run_connect E C m cl h c w =
     (let (ok, c1, w1) = beginCallback E c w
      in if \<not> ok then (c1, w1)
         else (let (_, w2) = PublishDiscovery E C cl c1 w1; (c2, w3) = PublishAllStates E m cl c1 w2 in (callback_Done c2, w3)))"

definition Shutdown :: "env \<Rightarrow> duration \<Rightarrow> Controller \<Rightarrow> trace \<Rightarrow> duration option \<times> Controller \<times> trace" where
  "Shutdown E timeout c w =
     (let c1 = c\<lparr>c_accepting := False, c_cancelled := True\<rparr>; finished = e_callbacks E w; w1 = w @ [EvCallbacks finished]
      in (if finished then None else Some timeout, c1, w1))"

end
