(* ===== verification/Controller_Runs.thy ===== *)
theory Controller_Runs
  imports Controller
begin

section \<open>Runs of the controller\<close>

text \<open>
  The goroutines of the controller interleave: the transport delivers messages and reports new
  sessions, each worker receives and handles commands, GPIO edges arrive, the service shuts down.
  A run is a sequence of such steps in any order, with any manager and client and with any events
  of other components in between; it carries the list of what was observed. The invariants below
  hold of every run, by rule induction.
\<close>

type_synonym worker = "bool \<times> string" \<comment> \<open>a switch (True) or button, and its identifier\<close>

fun handler_entity :: "message_handler \<Rightarrow> EntityConfig" where
  "handler_entity (SwitchHandler e) = e"
| "handler_entity (ButtonHandler e) = e"

fun handler_worker :: "message_handler \<Rightarrow> worker" where
  "handler_worker (SwitchHandler e) = (True, Ent_ID e)"
| "handler_worker (ButtonHandler e) = (False, Ent_ID e)"

definition registered :: "Config \<Rightarrow> message_handler \<Rightarrow> bool" where
  "registered cfg h \<longleftrightarrow> handler_entity h \<in> set (Entities cfg)
     \<and> Ent_Type (handler_entity h) = (if fst (handler_worker h) then ''switch'' else ''button'')"

definition queue_of :: "Controller \<Rightarrow> worker \<Rightarrow> entityCommand list option" where
  "queue_of c k = (if fst k then map_option sw_queue (map_of (switches c) (snd k))
     else map_option bt_queue (map_of (buttons c) (snd k)))"

definition current_of :: "Controller \<Rightarrow> worker \<Rightarrow> entityCommand option" where
  "current_of c k = (if fst k then Option.bind (map_of (switches c) (snd k)) sw_current
     else Option.bind (map_of (buttons c) (snd k)) bt_current)"

definition receive :: "env \<Rightarrow> worker \<Rightarrow> Controller \<Rightarrow> trace \<Rightarrow> entityCommand option \<times> Controller \<times> trace" where
  "receive E k c w = (if fst k then switch_receive E (snd k) c w else button_receive E (snd k) c w)"

definition handle ::
  "platform \<Rightarrow> env \<Rightarrow> stdlib \<Rightarrow> Manager \<Rightarrow> app_client \<Rightarrow> worker \<Rightarrow> Controller \<Rightarrow> trace \<Rightarrow> Controller \<times> trace" where
  "handle pf E L m cl k c w =
     (if fst k then switch_handle pf E L m cl (snd k) c w else button_handle pf E L m cl (snd k) c w)"

datatype observation =
    Delivered message_handler Message fate
  | Took worker "entityCommand option"
  | Worked worker "entityCommand option" trace
  | NewSession | Input string bool trace | Announced trace | Stopped | Elsewhere trace

inductive run :: "platform \<Rightarrow> env \<Rightarrow> stdlib \<Rightarrow> codec \<Rightarrow> Config \<Rightarrow> observation list \<Rightarrow> Controller \<Rightarrow> trace \<Rightarrow> bool"
  for pf E L C cfg where
  start: "run pf E L C cfg [] (Controller_New cfg) w"
| message: "run pf E L C cfg os c w \<Longrightarrow> registered cfg h \<Longrightarrow> deliver E h msg c w = (f, c', w')
    \<Longrightarrow> run pf E L C cfg (os @ [Delivered h msg f]) c' w'"
| take_one: "run pf E L C cfg os c w \<Longrightarrow> receive E k c w = (r, c', w') \<Longrightarrow> run pf E L C cfg (os @ [Took k r]) c' w'"
| work: "run pf E L C cfg os c w \<Longrightarrow> handle pf E L m cl k c w = (c', w')
    \<Longrightarrow> run pf E L C cfg (os @ [Worked k (current_of c k) (drop (length w) w')]) c' w'"
| session: "run pf E L C cfg os c w \<Longrightarrow> run_session h c w = (c', w') \<Longrightarrow> run pf E L C cfg (os @ [NewSession]) c' w'"
| edge: "run pf E L C cfg os c w \<Longrightarrow> HandleGPIOInput E (cl :: app_client) name st c w = (c', w')
    \<Longrightarrow> run pf E L C cfg (os @ [Input name st (drop (length w) w')]) c' w'"
| announce: "run pf E L C cfg os c w \<Longrightarrow> run_connect E C m cl h c w = (c', w')
    \<Longrightarrow> run pf E L C cfg (os @ [Announced (drop (length w) w')]) c' w'"
| stop: "run pf E L C cfg os c w \<Longrightarrow> Shutdown E timeout c w = (e, c', w') \<Longrightarrow> run pf E L C cfg (os @ [Stopped]) c' w'"
| elsewhere: "run pf E L C cfg os c w \<Longrightarrow> run pf E L C cfg (os @ [Elsewhere es]) c (w @ es)"

text \<open>What a worker was given, took, and finished with, in order.\<close>

fun queued_by :: "worker \<Rightarrow> observation \<Rightarrow> entityCommand list" where
  "queued_by k (Delivered h m Queued) =
     (if handler_worker h = k then [\<lparr>ec_entity = handler_entity h, ec_message = m\<rparr>] else [])"
| "queued_by k ob = []"

fun taken_by :: "worker \<Rightarrow> observation \<Rightarrow> entityCommand list" where
  "taken_by k (Took j (Some cmd)) = (if j = k then [cmd] else [])"
| "taken_by k ob = []"

fun worked_by :: "worker \<Rightarrow> observation \<Rightarrow> entityCommand list" where
  "worked_by k (Worked j (Some cmd) es) = (if j = k then [cmd] else [])"
| "worked_by k ob = []"

definition accepted :: "worker \<Rightarrow> observation list \<Rightarrow> entityCommand list" where
  "accepted k os = concat (map (queued_by k) os)"

definition received :: "worker \<Rightarrow> observation list \<Rightarrow> entityCommand list" where
  "received k os = concat (map (taken_by k) os)"

definition handled :: "worker \<Rightarrow> observation list \<Rightarrow> entityCommand list" where
  "handled k os = concat (map (worked_by k) os)"

text \<open>The deliveries remembered since the last session began.\<close>

fun window_after :: "delivery list \<Rightarrow> observation \<Rightarrow> delivery list" where
  "window_after win (Delivered h m f) =
     (if f \<noteq> Refused \<and> M_QoS m > 0 then window_push (M_Topic m, M_MessageID m) win else win)"
| "window_after win NewSession = []"
| "window_after win ob = win"

definition window :: "observation list \<Rightarrow> delivery list" where
  "window os = foldl window_after [] os"

section \<open>Lemmas\<close>

named_theorems ctl_simps \<open>frame equations of the controller's operations\<close>

text \<open>Statements about all workers are kept as they are, not split into kind and identifier.\<close>

declare split_paired_All [simp del] split_paired_Ex [simp del]

lemmas command_simps = accepted_def received_def handled_def

text \<open>Everything but the duplicate filter and the rejection log is unchanged.\<close>

definition only_filter :: "Controller \<Rightarrow> Controller \<Rightarrow> bool" where
  "only_filter c c' \<longleftrightarrow> c_cfg c' = c_cfg c \<and> c_cancelled c' = c_cancelled c \<and> c_accepting c' = c_accepting c
     \<and> switches c' = switches c \<and> buttons c' = buttons c \<and> binaryByInput c' = binaryByInput c
     \<and> c_panicked c' = c_panicked c"

lemma only_filter_queues: "only_filter c c' \<Longrightarrow> queue_of c' = queue_of c \<and> current_of c' = current_of c"
  by (auto simp: only_filter_def queue_of_def current_of_def fun_eq_iff)

subsection \<open>Accepting\<close>

lemma reject_frame: "only_filter c (fst (reject E msg c w)) \<and> c_dedupe (fst (reject E msg c w)) = c_dedupe c"
  by (simp add: reject_def only_filter_def split_beta Let_def)

lemma acceptMessage_frame: "only_filter c (fst (snd (acceptMessage E e m c w)))"
  using reject_frame by (auto simp: acceptMessage_def only_filter_def split_beta Let_def)

lemma acceptMessage_window:
  assumes "acceptMessage E e m c w = (ok, c1, w1)" and "window_rep (c_dedupe c) win"
  shows "(ok \<longleftrightarrow> c_accepting c \<and> fst (ctx_Err E c w) = None \<and> \<not> M_Retained m
      \<and> \<not> (M_QoS m > 0 \<and> M_Duplicate m \<and> List.member win (M_Topic m, M_MessageID m)))
    \<and> window_rep (c_dedupe c1) (if ok \<and> M_QoS m > 0 then window_push (M_Topic m, M_MessageID m) win else win)"
  using assms dedupe.rep_check [OF assms(2), of "M_Topic m" "M_MessageID m" "M_Duplicate m"]
  by (auto simp: acceptMessage_def reject_def window_check_def split_beta Let_def split: if_splits)


subsection \<open>Queues\<close>

lemma queue_of_put [ctl_simps]:
  "queue_of (c\<lparr>switches := put i rt (switches c)\<rparr>) = (queue_of c)((True, i) \<mapsto> sw_queue rt)"
  "queue_of (c\<lparr>buttons := put i bt (buttons c)\<rparr>) = (queue_of c)((False, i) \<mapsto> bt_queue bt)"
  "current_of (c\<lparr>switches := put i rt (switches c)\<rparr>) = (current_of c)((True, i) := sw_current rt)"
  "current_of (c\<lparr>buttons := put i bt (buttons c)\<rparr>) = (current_of c)((False, i) := bt_current bt)"
  by (auto simp: queue_of_def current_of_def fun_eq_iff)

lemma queue_of_other [ctl_simps]:
  "queue_of (c\<lparr>c_panicked := b\<rparr>) = queue_of c" "current_of (c\<lparr>c_panicked := b\<rparr>) = current_of c"
  "queue_of (c\<lparr>c_wg := n\<rparr>) = queue_of c" "current_of (c\<lparr>c_wg := n\<rparr>) = current_of c"
  "queue_of (c\<lparr>c_dedupe := d\<rparr>) = queue_of c" "current_of (c\<lparr>c_dedupe := d\<rparr>) = current_of c"
  "queue_of (c\<lparr>c_accepting := b, c_cancelled := b'\<rparr>) = queue_of c"
  "current_of (c\<lparr>c_accepting := b, c_cancelled := b'\<rparr>) = current_of c"
  by (auto simp: queue_of_def current_of_def fun_eq_iff)

lemma map_of_queue [simp]:
  "map_of (switches c) i = Some rt \<Longrightarrow> queue_of c (True, i) = Some (sw_queue rt) \<and> current_of c (True, i) = sw_current rt"
  "map_of (buttons c) i = Some bt \<Longrightarrow> queue_of c (False, i) = Some (bt_queue bt) \<and> current_of c (False, i) = bt_current bt"
  "map_of (switches c) i = None \<Longrightarrow> queue_of c (True, i) = None \<and> current_of c (True, i) = None"
  "map_of (buttons c) i = None \<Longrightarrow> queue_of c (False, i) = None \<and> current_of c (False, i) = None"
  by (simp_all add: queue_of_def current_of_def)

text \<open>What a delivery does to the queues, by its fate.\<close>

fun queue_effect :: "worker \<Rightarrow> entityCommand \<Rightarrow> fate \<Rightarrow> (worker \<rightharpoonup> entityCommand list) \<Rightarrow> (worker \<rightharpoonup> entityCommand list) \<Rightarrow> bool" where
  "queue_effect k cmd Queued Q Q' \<longleftrightarrow> (\<exists>q q'. Q k = Some q \<and> chan_send cmd q = Some q' \<and> Q' = Q(k \<mapsto> q'))"
| "queue_effect k cmd Overflowed Q Q' \<longleftrightarrow> (\<exists>q. Q k = Some q \<and> chan_send cmd q = None) \<and> Q' = Q"
| "queue_effect k cmd Refused Q Q' \<longleftrightarrow> Q' = Q"

definition same_flags :: "Controller \<Rightarrow> Controller \<Rightarrow> bool" where
  "same_flags c c' \<longleftrightarrow> c_cfg c' = c_cfg c \<and> c_cancelled c' = c_cancelled c \<and> c_accepting c' = c_accepting c
     \<and> binaryByInput c' = binaryByInput c"

lemma only_filter_flags: "only_filter c c' \<Longrightarrow> same_flags c c' \<and> c_panicked c' = c_panicked c"
  by (simp add: only_filter_def same_flags_def)

definition delivery_effect ::
  "worker \<Rightarrow> entityCommand \<Rightarrow> bool \<Rightarrow> Controller \<Rightarrow> Controller \<Rightarrow> fate \<times> Controller \<times> trace \<Rightarrow> bool" where
  "delivery_effect k cmd ok c1 c r \<longleftrightarrow> (let f = fst r; c' = fst (snd r) in
     queue_effect k cmd f (queue_of c) (queue_of c') \<and> current_of c' = current_of c
     \<and> same_flags c c' \<and> c_dedupe c' = c_dedupe c1
     \<and> (f = Refused \<longleftrightarrow> \<not> (ok \<and> queue_of c k \<noteq> None))
     \<and> (c_panicked c' \<longleftrightarrow> c_panicked c \<or> ok \<and> queue_of c k = None))"

lemma enqueueSwitch_effect:
  fixes e m
  defines "cmd \<equiv> \<lparr>ec_entity = e, ec_message = m\<rparr>"
  assumes "acceptMessage E e m c w = (ok, c1, w1)"
  shows "delivery_effect (True, Ent_ID e) cmd ok c1 c (enqueueSwitch E e m c w)"
proof -
  have frame: "only_filter c c1" using acceptMessage_frame [of c E e m w] assms(2) by simp
  note same = only_filter_queues [OF frame] only_filter_flags [OF frame]
  show ?thesis
  proof (cases "map_of (switches c1) (Ent_ID e)")
    case None
    then have "queue_of c (True, Ent_ID e) = None" using map_of_queue(3) [of c1] same by simp
    then show ?thesis
      using same None
      by (simp add: enqueueSwitch_def delivery_effect_def ctl_simps same_flags_def assms(2))
  next
    case (Some rt)
    have q: "queue_of c (True, Ent_ID e) = Some (sw_queue rt)" "current_of c (True, Ent_ID e) = sw_current rt"
      using map_of_queue(1) [OF Some] same by simp_all
    note idem = fun_upd_idem [of "queue_of c", OF q(1)] fun_upd_idem [of "current_of c", OF q(2)]
    show ?thesis
      using same Some q
      by (cases "chan_send cmd (sw_queue rt)")
        (simp_all add: enqueueSwitch_def delivery_effect_def ctl_simps same_flags_def assms(2) idem split_beta Let_def
          flip: cmd_def)
  qed
qed

lemma enqueueButton_effect:
  fixes e m
  defines "cmd \<equiv> \<lparr>ec_entity = e, ec_message = m\<rparr>"
  assumes "acceptMessage E e m c w = (ok, c1, w1)"
  shows "delivery_effect (False, Ent_ID e) cmd ok c1 c (enqueueButton E e m c w)"
proof -
  have frame: "only_filter c c1" using acceptMessage_frame [of c E e m w] assms(2) by simp
  note same = only_filter_queues [OF frame] only_filter_flags [OF frame]
  show ?thesis
  proof (cases "map_of (buttons c1) (Ent_ID e)")
    case None
    then have "queue_of c (False, Ent_ID e) = None" using map_of_queue(4) [of c1] same by simp
    then show ?thesis
      using same None
      by (simp add: enqueueButton_def delivery_effect_def ctl_simps same_flags_def assms(2))
  next
    case (Some rt)
    have q: "queue_of c (False, Ent_ID e) = Some (bt_queue rt)" "current_of c (False, Ent_ID e) = bt_current rt"
      using map_of_queue(2) [OF Some] same by simp_all
    note idem = fun_upd_idem [of "queue_of c", OF q(1)] fun_upd_idem [of "current_of c", OF q(2)]
    show ?thesis
      using same Some q
      by (cases "chan_send cmd (bt_queue rt)")
        (simp_all add: enqueueButton_def delivery_effect_def ctl_simps same_flags_def assms(2) idem split_beta Let_def
          flip: cmd_def)
  qed
qed

lemma deliver_effect:
  assumes "acceptMessage E (handler_entity h) m c w = (ok, c1, w1)"
  shows "delivery_effect (handler_worker h) \<lparr>ec_entity = handler_entity h, ec_message = m\<rparr> ok c1 c (deliver E h m c w)"
  using assms enqueueSwitch_effect enqueueButton_effect by (cases h) (simp_all add: deliver_def)

lemma deliver_frame:
  assumes "deliver E h m c w = (f, c', w')"
  shows "queue_effect (handler_worker h) \<lparr>ec_entity = handler_entity h, ec_message = m\<rparr> f (queue_of c) (queue_of c')"
    and "current_of c' = current_of c" and "same_flags c c'"
  using deliver_effect [of E h m c w] assms
  by (cases "acceptMessage E (handler_entity h) m c w"; auto simp: delivery_effect_def Let_def)+

subsection \<open>Workers\<close>

text \<open>What a worker's round does: take the oldest command, or finish the one it holds.\<close>

definition untouched :: "Controller \<Rightarrow> Controller \<Rightarrow> bool" where
  "untouched c c' \<longleftrightarrow> same_flags c c' \<and> c_dedupe c' = c_dedupe c"

lemma untouched_refl [simp]: "untouched c c"
  by (simp add: untouched_def same_flags_def)

lemma untouched_simps [simp]:
  "untouched c (c'\<lparr>switches := s\<rparr>) = untouched c c'" "untouched c (c'\<lparr>buttons := b\<rparr>) = untouched c c'"
  "untouched c (c'\<lparr>c_panicked := p\<rparr>) = untouched c c'"
  by (simp_all add: untouched_def same_flags_def)

lemma receive_effect:
  assumes "receive E k c w = (r, c', w')"
  shows "untouched c c' \<and> c_panicked c' = c_panicked c \<and> dom (queue_of c') = dom (queue_of c)"
    and "r = None \<Longrightarrow> queue_of c' = queue_of c \<and> current_of c' = current_of c"
    and "r = Some cmd \<Longrightarrow> (\<exists>q q'. queue_of c k = Some q \<and> chan_recv q = Some (cmd, q') \<and> queue_of c' = (queue_of c)(k \<mapsto> q'))
      \<and> current_of c k = None \<and> current_of c' = (current_of c)(k \<mapsto> cmd) \<and> fst (ctx_Err E c w) = None"
proof -
  obtain b i where k: "k = (b, i)" by (cases k)
  have "(untouched c c' \<and> c_panicked c' = c_panicked c \<and> dom (queue_of c') = dom (queue_of c))
    \<and> (r = None \<longrightarrow> queue_of c' = queue_of c \<and> current_of c' = current_of c)
    \<and> (r = Some cmd \<longrightarrow> (\<exists>q q'. queue_of c k = Some q \<and> chan_recv q = Some (cmd, q') \<and> queue_of c' = (queue_of c)(k \<mapsto> q'))
      \<and> current_of c k = None \<and> current_of c' = (current_of c)(k \<mapsto> cmd) \<and> fst (ctx_Err E c w) = None)"
  proof (cases b)
    case True
    then show ?thesis
      using assms unfolding k receive_def
      by (auto simp: switch_receive_def ctl_simps split_beta Let_def split: option.splits if_splits prod.splits)
  next
    case False
    then show ?thesis
      using assms unfolding k receive_def
      by (auto simp: button_receive_def ctl_simps split_beta Let_def split: option.splits if_splits prod.splits)
  qed
  then show "untouched c c' \<and> c_panicked c' = c_panicked c \<and> dom (queue_of c') = dom (queue_of c)"
    and "r = None \<Longrightarrow> queue_of c' = queue_of c \<and> current_of c' = current_of c"
    and "r = Some cmd \<Longrightarrow> (\<exists>q q'. queue_of c k = Some q \<and> chan_recv q = Some (cmd, q') \<and> queue_of c' = (queue_of c)(k \<mapsto> q'))
      \<and> current_of c k = None \<and> current_of c' = (current_of c)(k \<mapsto> cmd) \<and> fst (ctx_Err E c w) = None"
    by simp_all
qed

text \<open>Handling a command leaves every queue alone.\<close>

definition same_queues :: "Controller \<Rightarrow> Controller \<Rightarrow> bool" where
  "same_queues c c' \<longleftrightarrow> queue_of c' = queue_of c \<and> current_of c' = current_of c \<and> untouched c c'"

lemma same_queues_refl [simp]: "same_queues c c"
  by (simp add: same_queues_def)

lemma same_queues_panic [simp]: "same_queues c (c\<lparr>c_panicked := b\<rparr>)"
  by (simp add: same_queues_def ctl_simps)

lemma same_queues_reject [simp]: "same_queues c (fst (reject E msg c w))"
  using reject_frame [of c E msg w] only_filter_queues [of c "fst (reject E msg c w)"]
    only_filter_flags [of c "fst (reject E msg c w)"]
  by (simp add: same_queues_def untouched_def)

lemma same_queues_put_switch:
  assumes "map_of (switches c) i = Some rt" and "sw_queue rt' = sw_queue rt" and "sw_current rt' = sw_current rt"
  shows "same_queues c (c\<lparr>switches := put i rt' (switches c)\<rparr>)"
  using map_of_queue(1) [OF assms(1)] assms(2,3)
  by (simp add: same_queues_def ctl_simps fun_upd_idem)

lemma handleSwitch_frame: "same_queues c (fst (handleSwitch pf E L m cl e p c w))"
  by (auto simp: handleSwitch_def split_beta Let_def intro: same_queues_put_switch split: option.split outcome.split)

lemma handleButton_frame: "same_queues c (fst (handleButton pf E L m cl e p c w))"
  by (auto simp: handleButton_def split_beta Let_def split: option.split outcome.split)

definition finish ::
  "platform \<Rightarrow> env \<Rightarrow> stdlib \<Rightarrow> Manager \<Rightarrow> app_client \<Rightarrow> bool \<Rightarrow> entityCommand \<Rightarrow> Controller \<Rightarrow> trace \<Rightarrow> Controller \<times> trace" where
  "finish pf E L m cl b cmd c w =
     (if b then handleSwitch pf E L m cl (ec_entity cmd) (M_Payload (ec_message cmd)) c w
      else handleButton pf E L m cl (ec_entity cmd) (M_Payload (ec_message cmd)) c w)"

lemma finish_frame: "same_queues c (fst (finish pf E L m cl b cmd c w))"
  by (simp add: finish_def handleSwitch_frame handleButton_frame)

lemma handle_None: "current_of c k = None \<Longrightarrow> handle pf E L m cl k c w = (c, w)"
proof (cases k)
  case (Pair b i)
  assume "current_of c k = None"
  then show ?thesis
    unfolding Pair by (cases b; cases "map_of (switches c) i"; cases "map_of (buttons c) i")
      (simp_all add: handle_def switch_handle_def button_handle_def)
qed

lemma handle_Some:
  assumes "current_of c k = Some cmd"
  obtains c1 where "queue_of c1 = queue_of c" and "current_of c1 = (current_of c)(k := None)" and "untouched c c1"
    and "c_panicked c1 = c_panicked c"
    and "handle pf E L m cl k c w = (let (err, w1) = ctx_Err E c w in
      if err \<noteq> None then (c1, w1) else finish pf E L m cl (fst k) cmd c1 w1)"
proof (cases k)
  case (Pair b i)
  show thesis
  proof (cases b)
    case True
    then obtain rt where rt: "map_of (switches c) i = Some rt" "sw_current rt = Some cmd"
      using assms Pair by (auto simp: current_of_def bind_eq_Some_conv)
    show thesis
      using map_of_queue(1) [OF rt(1)] rt
      by (intro that [of "c\<lparr>switches := put i (rt\<lparr>sw_current := None\<rparr>) (switches c)\<rparr>"])
        (simp_all add: ctl_simps fun_upd_idem handle_def switch_handle_def finish_def split_beta Let_def Pair True)
  next
    case False
    then obtain rt where rt: "map_of (buttons c) i = Some rt" "bt_current rt = Some cmd"
      using assms Pair by (auto simp: current_of_def bind_eq_Some_conv)
    show thesis
      using map_of_queue(2) [OF rt(1)] rt
      by (intro that [of "c\<lparr>buttons := put i (rt\<lparr>bt_current := None\<rparr>) (buttons c)\<rparr>"])
        (simp_all add: ctl_simps fun_upd_idem handle_def button_handle_def finish_def split_beta Let_def Pair False)
  qed
qed

lemma handle_effect:
  "queue_of (fst (handle pf E L m cl k c w)) = queue_of c
   \<and> current_of (fst (handle pf E L m cl k c w)) = (current_of c)(k := None)
   \<and> untouched c (fst (handle pf E L m cl k c w))"
proof (cases "current_of c k")
  case None
  then show ?thesis by (simp add: handle_None fun_upd_idem)
next
  case (Some cmd)
  then obtain c1 where c1: "queue_of c1 = queue_of c" "current_of c1 = (current_of c)(k := None)" "untouched c c1"
    and h: "handle pf E L m cl k c w = (let (err, w1) = ctx_Err E c w in
      if err \<noteq> None then (c1, w1) else finish pf E L m cl (fst k) cmd c1 w1)"
    by (rule handle_Some [where pf = pf and E = E and L = L and m = m and cl = cl and w = w])
  show ?thesis
    using c1 finish_frame [of c1 pf E L m cl "fst k" cmd "snd (ctx_Err E c w)"]
    by (simp add: h split_beta Let_def same_queues_def untouched_def same_flags_def)
qed

subsection \<open>The other steps\<close>

lemma beginCallback_frame:
  assumes "beginCallback E c w = (ok, c1, w1)"
  shows "c1 = (if ok then c\<lparr>c_wg := Suc (c_wg c)\<rparr> else c)"
    and "ok \<longleftrightarrow> c_accepting c \<and> fst (ctx_Err E c w) = None" and "c_accepting c \<Longrightarrow> w1 = snd (ctx_Err E c w)"
  using assms by (auto simp: beginCallback_def split_beta Let_def split: if_splits)

lemma callback_Done_begin [simp]:
  "callback_Done (c\<lparr>c_wg := Suc (c_wg c)\<rparr>) = c"
  "callback_Done (c\<lparr>c_wg := Suc (c_wg c), c_panicked := b\<rparr>) = c\<lparr>c_panicked := b\<rparr>"
  by (simp_all add: callback_Done_def)

lemma HandleGPIOInput_frame: "fst (HandleGPIOInput E cl name st c w) = c"
proof -
  obtain ok c1 w1 where b: "beginCallback E c w = (ok, c1, w1)" by (cases "beginCallback E c w")
  show ?thesis
    unfolding HandleGPIOInput_def b beginCallback_frame(1) [OF b] by (cases ok) (simp_all add: Let_def)
qed

lemma run_connect_frame:
  "fst (run_connect E C m cl h c w) = c \<or> fst (run_connect E C m cl h c w) = c\<lparr>c_panicked := True\<rparr>"
proof -
  obtain ok c1 w1 where b: "beginCallback E c w = (ok, c1, w1)" by (cases "beginCallback E c w")
  show ?thesis
    unfolding run_connect_def b beginCallback_frame(1) [OF b] PublishAllStates_def
    by (cases ok) (simp_all add: split_beta Let_def)
qed

lemma Shutdown_frame: "fst (snd (Shutdown E timeout c w)) = c\<lparr>c_accepting := False, c_cancelled := True\<rparr>"
  by (simp add: Shutdown_def Let_def)

subsection \<open>Invariants of runs\<close>

lemma accepted_snoc [simp]:
  "accepted k (os @ [ob]) = accepted k os @ queued_by k ob" "received k (os @ [ob]) = received k os @ taken_by k ob"
  "handled k (os @ [ob]) = handled k os @ worked_by k ob" "window (os @ [ob]) = window_after (window os) ob"
  by (simp_all add: command_simps window_def)

text \<open>The runtimes: one per switch and button, with nothing in the queues, and the sensors of an input.\<close>

definition fresh_from :: "Controller \<Rightarrow> Controller \<Rightarrow> bool" where
  "fresh_from c c' \<longleftrightarrow> c_cfg c' = c_cfg c \<and> c_cancelled c' = c_cancelled c \<and> c_accepting c' = c_accepting c
     \<and> c_dedupe c' = c_dedupe c \<and> c_panicked c' = c_panicked c"

definition sensors_of :: "Controller \<Rightarrow> string \<Rightarrow> EntityConfig list" where
  "sensors_of c name = (case map_of (binaryByInput c) name of None \<Rightarrow> [] | Some es \<Rightarrow> es)"

lemma add_entity_queues:
  "queue_of (add_entity c e) = (if Ent_Type e = ''switch'' then (queue_of c)((True, Ent_ID e) \<mapsto> [])
     else if Ent_Type e = ''button'' then (queue_of c)((False, Ent_ID e) \<mapsto> []) else queue_of c)"
  "current_of (add_entity c e) = (if Ent_Type e = ''switch'' then (current_of c)((True, Ent_ID e) := None)
     else if Ent_Type e = ''button'' then (current_of c)((False, Ent_ID e) := None) else current_of c)"
  "fresh_from c (add_entity c e)"
  "sensors_of (add_entity c e) name = sensors_of c name
     @ filter (\<lambda>e. Ent_Type e = ''binary_sensor'' \<and> Source_GPIO (Source e) = name) [e]"
  by (auto simp: add_entity_def queue_of_def current_of_def fun_eq_iff fresh_from_def sensors_of_def Let_def
      split: option.split)

lemma foldl_add_entity:
  "dom (queue_of (foldl add_entity c es)) = dom (queue_of c)
       \<union> {(b, i). \<exists>e \<in> set es. Ent_ID e = i \<and> Ent_Type e = (if b then ''switch'' else ''button'')}
   \<and> (ran (queue_of c) \<subseteq> {[]} \<longrightarrow> ran (queue_of (foldl add_entity c es)) \<subseteq> {[]})
   \<and> ((\<forall>k. current_of c k = None) \<longrightarrow> (\<forall>k. current_of (foldl add_entity c es) k = None))
   \<and> fresh_from c (foldl add_entity c es)
   \<and> sensors_of (foldl add_entity c es) name = sensors_of c name
        @ filter (\<lambda>e. Ent_Type e = ''binary_sensor'' \<and> Source_GPIO (Source e) = name) es"
proof (induction es arbitrary: c)
  case (Cons e es)
  have u: "fresh_from c c2" if "fresh_from (add_entity c e) c2" for c2
    using that add_entity_queues(3) [of c e] by (simp add: fresh_from_def)
  have d: "dom (queue_of (add_entity c e)) = dom (queue_of c)
       \<union> {(b, i). Ent_ID e = i \<and> Ent_Type e = (if b then ''switch'' else ''button'')}"
    by (auto simp: add_entity_queues(1) split: if_splits)
  have r: "ran (queue_of c) \<subseteq> {[]} \<longrightarrow> ran (queue_of (add_entity c e)) \<subseteq> {[]}"
    by (auto simp: add_entity_queues(1) ran_def split: if_splits)
  show ?case
  proof -
    have "(\<forall>k. current_of c k = None) \<longrightarrow> (\<forall>k. current_of (add_entity c e) k = None)"
      by (simp add: add_entity_queues(2))
    then show ?thesis
      using Cons.IH [of "add_entity c e"] d r u add_entity_queues(4) [of c e name] by auto
  qed
qed (simp add: fresh_from_def)

lemma Controller_New_queues:
  shows "dom (queue_of (Controller_New cfg)) = {k. \<exists>h. registered cfg h \<and> handler_worker h = k}"
    and "queue_of (Controller_New cfg) k = Some q \<Longrightarrow> q = []" and "current_of (Controller_New cfg) k = None"
    and "fresh_from (new_controller cfg) (Controller_New cfg)"
    and "sensors_of (Controller_New cfg) name
      = filter (\<lambda>e. Ent_Type e = ''binary_sensor'' \<and> Source_GPIO (Source e) = name) (Entities cfg)"
proof -
  have empty: "queue_of (new_controller cfg) = Map.empty" "current_of (new_controller cfg) = (\<lambda>k. None)"
    "sensors_of (new_controller cfg) name = []"
    by (auto simp: queue_of_def current_of_def sensors_of_def new_controller_def fun_eq_iff)
  note f = foldl_add_entity [of "new_controller cfg" "Entities cfg" name, folded Controller_New_def, unfolded empty]
  have eq: "(\<exists>h. registered cfg h \<and> handler_worker h = (b, i))
      \<longleftrightarrow> (\<exists>e \<in> set (Entities cfg). Ent_ID e = i \<and> Ent_Type e = (if b then ''switch'' else ''button''))" for b i
    by (cases b) (force simp: registered_def elim: handler_worker.elims
        intro: exI [of _ "SwitchHandler _"] exI [of _ "ButtonHandler _"])+
  have "dom (queue_of (Controller_New cfg))
      = {(b, i). \<exists>e \<in> set (Entities cfg). Ent_ID e = i \<and> Ent_Type e = (if b then ''switch'' else ''button'')}"
    using f by simp
  also have "\<dots> = {k. \<exists>h. registered cfg h \<and> handler_worker h = k}"
    unfolding eq [symmetric] by (simp add: set_eq_iff)
  finally show "dom (queue_of (Controller_New cfg)) = {k. \<exists>h. registered cfg h \<and> handler_worker h = k}" .
  show "queue_of (Controller_New cfg) k = Some q \<Longrightarrow> q = []" and "current_of (Controller_New cfg) k = None"
    and "fresh_from (new_controller cfg) (Controller_New cfg)"
    and "sensors_of (Controller_New cfg) name
      = filter (\<lambda>e. Ent_Type e = ''binary_sensor'' \<and> Source_GPIO (Source e) = name) (Entities cfg)"
    using f ranI [of "queue_of (Controller_New cfg)" k] by auto
qed


lemma chan_in_order_empty [simp]: "chan.in_order [] [] []"
  by (simp add: chan.in_order_def)

lemma fifo_step:
  assumes "\<forall>k q. Q k = Some q \<longrightarrow> chan.in_order (A k) (R k) q"
  shows "queue_effect j cmd f Q Q' \<Longrightarrow> Q' k = Some q
      \<Longrightarrow> chan.in_order (A k @ (if f = Queued \<and> j = k then [cmd] else [])) (R k) q"
    and "Q j = Some q0 \<Longrightarrow> chan_recv q0 = Some (cmd, q1) \<Longrightarrow> (Q(j \<mapsto> q1)) k = Some q
      \<Longrightarrow> chan.in_order (A k) (R k @ (if j = k then [cmd] else [])) q"
proof -
  assume "queue_effect j cmd f Q Q'" and "Q' k = Some q"
  then show "chan.in_order (A k @ (if f = Queued \<and> j = k then [cmd] else [])) (R k) q"
    using assms by (cases f; cases "j = k") (auto intro: chan.in_order_send [rotated])
next
  assume "Q j = Some q0" and "chan_recv q0 = Some (cmd, q1)" and "(Q(j \<mapsto> q1)) k = Some q"
  then show "chan.in_order (A k) (R k @ (if j = k then [cmd] else [])) q"
    using assms by (cases "j = k") (auto intro: chan.in_order_recv [rotated])
qed

lemma queued_by_Delivered:
  "queued_by k (Delivered h m f)
     = (if f = Queued \<and> handler_worker h = k then [\<lparr>ec_entity = handler_entity h, ec_message = m\<rparr>] else [])"
  by (cases f) simp_all

lemma run_frames:
  "run pf E L C cfg os c w \<Longrightarrow> c_cfg c = cfg \<and> binaryByInput c = binaryByInput (Controller_New cfg) \<and> dom (queue_of c) = {k. \<exists>h. registered cfg h \<and> handler_worker h = k}
     \<and> window_rep (c_dedupe c) (window os)
     \<and> (\<forall>k q. queue_of c k = Some q \<longrightarrow> chan.in_order (accepted k os) (received k os) q)
     \<and> (\<forall>k. handled k os @ (case current_of c k of None \<Rightarrow> [] | Some cmd \<Rightarrow> [cmd]) = received k os)"
proof (induction rule: run.induct)
  case (start w)
  then show ?case
    using Controller_New_queues [of cfg] window_rep_reset
    by (auto simp: command_simps window_def fresh_from_def new_controller_def
        dest: Controller_New_queues(2))
next
  case (message os c w h msg f c' w')
  obtain ok c1 w1 where a: "acceptMessage E (handler_entity h) msg c w = (ok, c1, w1)"
    by (cases "acceptMessage E (handler_entity h) msg c w")
  have "handler_worker h \<in> dom (queue_of c)" using message.IH message.hyps(2) by blast
  then have ok: "f \<noteq> Refused \<longleftrightarrow> ok" and d: "c_dedupe c' = c_dedupe c1"
    using deliver_effect [OF a] message.hyps(3) by (auto simp: delivery_effect_def)
  have "window_rep (c_dedupe c') (window (os @ [Delivered h msg f]))"
    using acceptMessage_window [OF a, of "window os", THEN conjunct2] message.IH by (simp add: d ok)
  moreover have "dom (queue_of c') = dom (queue_of c)"
    using deliver_frame(1) [OF message.hyps(3)] by (cases f) (auto split: if_splits)
  moreover have "\<forall>k q. queue_of c' k = Some q \<longrightarrow>
      chan.in_order (accepted k (os @ [Delivered h msg f])) (received k (os @ [Delivered h msg f])) q"
  proof (intro allI impI)
    fix k q
    assume "queue_of c' k = Some q"
    with fifo_step(1) [of "queue_of c" "\<lambda>k. accepted k os" "\<lambda>k. received k os", OF _ deliver_frame(1) [OF message.hyps(3)]]
    show "chan.in_order (accepted k (os @ [Delivered h msg f])) (received k (os @ [Delivered h msg f])) q"
      using message.IH unfolding accepted_snoc queued_by_Delivered taken_by.simps append_Nil2 by blast
  qed
  ultimately show ?case
    using message.IH deliver_frame(2,3) [OF message.hyps(3)] by (simp add: same_flags_def del: accepted_snoc(1,4))
next
  case (take_one os c w k r c' w')
  note r = receive_effect [OF take_one.hyps(2)]
  show ?case
  proof (cases r)
    case None
    then show ?thesis using take_one.IH r(1,2) by (auto simp: untouched_def same_flags_def)
  next
    case (Some cmd)
    obtain q0 q1 where q: "queue_of c k = Some q0" "chan_recv q0 = Some (cmd, q1)" "queue_of c' = (queue_of c)(k \<mapsto> q1)"
      and cur: "current_of c k = None" "current_of c' = (current_of c)(k \<mapsto> cmd)"
      using r(3) [OF Some] by blast
    have "\<forall>k' q. queue_of c' k' = Some q \<longrightarrow> chan.in_order (accepted k' (os @ [Took k r])) (received k' (os @ [Took k r])) q"
    proof (intro allI impI)
      fix k' q
      assume "queue_of c' k' = Some q"
      with fifo_step(2) [of "queue_of c" "\<lambda>k. accepted k os" "\<lambda>k. received k os", OF _ q(1,2)]
      show "chan.in_order (accepted k' (os @ [Took k r])) (received k' (os @ [Took k r])) q"
        using take_one.IH unfolding q(3) Some accepted_snoc queued_by.simps taken_by.simps append_Nil2 by blast
    qed
    moreover have "handled k os = received k os"
      using take_one.IH cur(1) by (metis (no_types, lifting) append_Nil2 option.simps(4))
    ultimately show ?thesis
      using take_one.IH r(1) cur by (simp add: untouched_def same_flags_def Some del: accepted_snoc(1))
  qed
next
  case (work os c w m cl k c' w')
  have "handled k os @ (case current_of c k of None \<Rightarrow> [] | Some cmd \<Rightarrow> [cmd]) = received k os"
    using work.IH by blast
  then show ?case
    using work handle_effect [of pf E L m cl k c w]
    by (cases "current_of c k") (simp_all add: untouched_def same_flags_def)
next
  case (session os c w h c' w')
  then have "c' = c\<lparr>c_dedupe := resetDedupe\<rparr>" by (simp add: run_session_def)
  then show ?case using session.IH window_rep_reset by (simp add: ctl_simps)
next
  case (edge os c w cl name st c' w')
  then show ?case using HandleGPIOInput_frame [of E cl name st c w] by simp
next
  case (announce os c w m cl h c' w')
  then have "c' = c \<or> c' = c\<lparr>c_panicked := True\<rparr>" using run_connect_frame [of E C m cl h c w] by simp
  then show ?case using announce.IH by (elim disjE) (simp_all add: ctl_simps)
next
  case (stop os c w timeout e c' w')
  then show ?case using Shutdown_frame [of E timeout c w] by (simp add: ctl_simps)
qed simp


text \<open>Commands held by a worker come from a registered handler of that worker.\<close>

definition from_config :: "Config \<Rightarrow> worker \<Rightarrow> entityCommand \<Rightarrow> bool" where
  "from_config cfg k cmd \<longleftrightarrow> (\<exists>h. registered cfg h \<and> handler_worker h = k \<and> ec_entity cmd = handler_entity h)"

lemma run_from_config:
  "run pf E L C cfg os c w \<Longrightarrow> \<forall>k. list_all (from_config cfg k) (accepted k os)"
  by (induction rule: run.induct) (auto simp: command_simps queued_by_Delivered from_config_def)

lemma current_from_config:
  assumes "run pf E L C cfg os c w" and "current_of c k = Some cmd"
  shows "from_config cfg k cmd"
proof -
  obtain q where q: "queue_of c k = Some q"
    using assms(2) by (auto simp: queue_of_def current_of_def bind_eq_Some_conv split: if_splits)
  have "chan.in_order (accepted k os) (received k os) q" using run_frames [OF assms(1)] q by blast
  moreover have "handled k os @ (case current_of c k of None \<Rightarrow> [] | Some cmd \<Rightarrow> [cmd]) = received k os"
    using run_frames [OF assms(1)] by blast
  ultimately have "accepted k os = handled k os @ [cmd] @ q"
    by (simp add: chan.in_order_def assms(2) flip: append_assoc)
  then show ?thesis using run_from_config [OF assms(1), THEN spec, of k] by simp
qed

subsection \<open>Nothing panics\<close>

lemma entity_actions_ok:
  assumes "valid_config L cfg" and "registered cfg h" and "e = handler_entity h"
  shows "fst (handler_worker h) \<Longrightarrow> \<forall>a \<in> set (On e). action_ok L cfg a"
    and "fst (handler_worker h) \<Longrightarrow> \<forall>a \<in> set (Off e). action_ok L cfg a"
    and "\<not> fst (handler_worker h) \<Longrightarrow> \<forall>a \<in> set (Press e). action_ok L cfg a"
  using assms by (auto simp: valid_config_def entity_ok_def registered_def)

lemma finish_no_panic:
  assumes "valid_config L cfg" and "from_config cfg k cmd" and "queue_of c k \<noteq> None"
  shows "c_panicked (fst (finish pf E L m cl (fst k) cmd c w)) = c_panicked c"
proof -
  obtain h where h: "registered cfg h" "handler_worker h = k" "ec_entity cmd = handler_entity h"
    using assms(2) by (auto simp: from_config_def)
  note acts = entity_actions_ok [OF assms(1) h(1) refl, folded h(3), unfolded h(2)]
  have rej: "c_panicked (fst (reject E msg c w)) = c_panicked c" for msg
    using reject_frame [of c E msg w] by (simp add: only_filter_def)
  show ?thesis
  proof (cases "fst k")
    case True
    then have k: "k = (True, Ent_ID (ec_entity cmd))" using h(2,3) by (cases h) auto
    obtain rt where rt: "map_of (switches c) (Ent_ID (ec_entity cmd)) = Some rt"
      using assms(3) unfolding k by (auto simp: queue_of_def)
    have ex: "fst (Execute pf E L x (if d then On (ec_entity cmd) else Off (ec_entity cmd)) w) \<noteq> Panic"
      for x :: "(message_handler, session_handler, connect_handler) Executor" and d
      unfolding Execute_def using acts(1,2) [OF True] by (intro execute_from_no_panic [of _ L cfg]) simp
    have "c_panicked (fst (handleSwitch pf E L m cl (ec_entity cmd) p c w)) = c_panicked c" for p
    proof (cases "snd (parseSwitchPayload p)")
      case True
      then show ?thesis
        using ex [of "Executor_New (c_cfg c) m cl" "fst (parseSwitchPayload p)"]
        by (cases "fst (parseSwitchPayload p)") (simp_all add: handleSwitch_def rt split_beta Let_def split: outcome.split)
    qed (simp add: handleSwitch_def rej split_beta Let_def)
    then show ?thesis by (simp add: finish_def True)
  next
    case False
    then have k: "k = (False, Ent_ID (ec_entity cmd))" using h(2,3) by (cases h) auto
    obtain rt where rt: "map_of (buttons c) (Ent_ID (ec_entity cmd)) = Some rt"
      using assms(3) unfolding k by (auto simp: queue_of_def)
    have ex: "fst (Execute pf E L x (Press (ec_entity cmd)) w) \<noteq> Panic"
      for x :: "(message_handler, session_handler, connect_handler) Executor"
      unfolding Execute_def using acts(3) [OF False] by (rule execute_from_no_panic)
    show ?thesis
      using ex [of "Executor_New (c_cfg c) m cl"]
      by (simp add: finish_def False handleButton_def rt rej split_beta split: outcome.split)
  qed
qed

lemma publish_all_ok:
  "\<forall>e \<in> set es. Ent_Type e = ''switch'' \<longrightarrow> map_of (switches c) (Ent_ID e) \<noteq> None
     \<Longrightarrow> fst (publish_all E m cl c es w)"
  by (induction es arbitrary: w) (auto split: option.split sum.split prod.split)

lemma run_no_panic:
  assumes "run pf E L C cfg os c w" and "valid_config L cfg"
  shows "\<not> c_panicked c"
  using assms(1)
proof (induction rule: run.induct)
  case (start w)
  then show ?case using Controller_New_queues(4) [of cfg] by (simp add: fresh_from_def new_controller_def)
next
  case (message os c w h msg f c' w')
  obtain ok c1 w1 where a: "acceptMessage E (handler_entity h) msg c w = (ok, c1, w1)"
    by (cases "acceptMessage E (handler_entity h) msg c w")
  have "handler_worker h \<in> dom (queue_of c)" using run_frames [OF message.hyps(1)] message.hyps(2) by blast
  then show ?case
    using deliver_effect [OF a] message.hyps(3) message.IH by (auto simp: delivery_effect_def)
next
  case (take_one os c w k r c' w')
  then show ?case using receive_effect(1) by simp
next
  case (work os c w m cl k c' w')
  show ?case
  proof (cases "current_of c k")
    case None
    then show ?thesis using work by (simp add: handle_None)
  next
    case (Some cmd)
    note cmd = current_from_config [OF work.hyps(1) Some]
    have q: "queue_of c k \<noteq> None"
      using Some by (auto simp: queue_of_def current_of_def bind_eq_Some_conv split: if_splits)
    obtain c1 where c1: "queue_of c1 = queue_of c" "c_panicked c1 = c_panicked c"
      and h: "handle pf E L m cl k c w = (let (err, w1) = ctx_Err E c w in
        if err \<noteq> None then (c1, w1) else finish pf E L m cl (fst k) cmd c1 w1)"
      using Some by (rule handle_Some [where pf = pf and E = E and L = L and m = m and cl = cl and w = w])
    show ?thesis
      using work finish_no_panic [OF assms(2) cmd, of c1 pf E m cl "snd (ctx_Err E c w)"] q c1
      by (auto simp: h split_beta Let_def split: if_splits)
  qed
next
  case (session os c w h c' w')
  then show ?case by (auto simp: run_session_def)
next
  case (edge os c w cl name st c' w')
  then show ?case using HandleGPIOInput_frame [of E cl name st c w] by simp
next
  case (announce os c w m cl h c' w')
  note f = run_frames [OF announce.hyps(1)]
  have "map_of (switches c) (Ent_ID e) \<noteq> None" if "e \<in> set (Entities cfg)" "Ent_Type e = ''switch''" for e
  proof -
    have "(True, Ent_ID e) \<in> dom (queue_of c)"
      using f that by (auto simp: registered_def intro!: exI [of _ "SwitchHandler e"])
    then show ?thesis by (auto simp: queue_of_def)
  qed
  then have "fst (publish_all E m cl c1 (Entities cfg) w1)" if "switches c1 = switches c" for c1 w1
    using publish_all_ok that by metis
  moreover obtain ok c1 w1 where b: "beginCallback E c w = (ok, c1, w1)" by (cases "beginCallback E c w")
  ultimately show ?case
    using announce f beginCallback_frame(1) [OF b]
    by (cases ok) (auto simp: run_connect_def b PublishAllStates_def split_beta Let_def)
next
  case (stop os c w timeout e c' w')
  then show ?case using Shutdown_frame [of E timeout c w] by simp
qed

subsection \<open>After shutdown\<close>

fun is_ctx :: "event \<Rightarrow> bool" where
  "is_ctx (EvCtx s r) = True"
| "is_ctx e = False"

text \<open>
  An observation of a controller that only winds down: messages are refused, workers take nothing and
  drop what they hold after a look at the context, edges and connections cause no event.
\<close>

fun quiet :: "observation \<Rightarrow> bool" where
  "quiet (Delivered h m f) = (f = Refused)"
| "quiet (Took k r) = (r = None)"
| "quiet (Worked k cmd es) = list_all is_ctx es"
| "quiet (Input name st es) = (es = [])"
| "quiet (Announced es) = (es = [])"
| "quiet ob = True"

lemma ctx_Err_cancelled: "c_cancelled c \<Longrightarrow> ctx_Err E c w = (Some Canceled, w @ [EvCtx ServiceCtx (Some Canceled)])"
  by (simp add: ctx_Err_def)

lemma handle_cancelled:
  assumes "c_cancelled c" and "handle pf E L m cl k c w = (c', w')"
  shows "list_all is_ctx (drop (length w) w')"
proof (cases "current_of c k")
  case None
  then show ?thesis using assms by (simp add: handle_None)
next
  case (Some cmd)
  then obtain c1 where "handle pf E L m cl k c w = (let (err, w1) = ctx_Err E c w in
      if err \<noteq> None then (c1, w1) else finish pf E L m cl (fst k) cmd c1 w1)"
    by (rule handle_Some [where pf = pf and E = E and L = L and m = m and cl = cl and w = w])
  then show ?thesis using assms(2) by (auto simp: ctx_Err_cancelled [OF assms(1)])
qed

lemma deliver_refused: "\<not> c_accepting c \<Longrightarrow> deliver E h m c w = (f, c', w') \<Longrightarrow> f = Refused"
  by (cases h) (auto simp: deliver_def enqueueSwitch_def enqueueButton_def acceptMessage_def)

lemma closed_begin: "\<not> c_accepting c \<Longrightarrow> beginCallback E c w = (False, c, w)"
  by (simp add: beginCallback_def)

text \<open>Both flags stay as shutdown left them, and every step from there is quiet.\<close>

lemma stopped_flags:
  "run pf E L C cfg os c w \<Longrightarrow> Stopped \<in> set os \<Longrightarrow> c_cancelled c \<and> \<not> c_accepting c"
proof (induction rule: run.induct)
  case (message os c w h msg f c' w')
  then show ?case using deliver_frame(3) [OF message.hyps(3)] by (simp add: same_flags_def)
next
  case (take_one os c w k r c' w')
  then show ?case using receive_effect(1) [OF take_one.hyps(2)] by (simp add: untouched_def same_flags_def)
next
  case (work os c w m cl k c' w')
  then show ?case using handle_effect [of pf E L m cl k c w] by (simp add: untouched_def same_flags_def)
next
  case (edge os c w cl name st c' w')
  then show ?case using HandleGPIOInput_frame [of E cl name st c w] by simp
next
  case (announce os c w m cl h c' w')
  then show ?case using run_connect_frame [of E C m cl h c w] by auto
next
  case (stop os c w timeout e c' w')
  then show ?case using Shutdown_frame [of E timeout c w] by simp
qed (auto simp: run_session_def)

lemma snoc_after_stop:
  assumes "os @ [ob] = os1 @ Stopped # os2"
  obtains "os2 = []" | os3 where "os2 = os3 @ [ob]" "os = os1 @ Stopped # os3"
  using assms by (cases os2 rule: rev_cases) auto

lemma run_quiet:
  "run pf E L C cfg os c w \<Longrightarrow> os = os1 @ Stopped # os2 \<Longrightarrow> list_all quiet os2"
proof (induction arbitrary: os2 rule: run.induct)
  case (message os c w h msg f c' w')
  from message.prems show ?case
    by (rule snoc_after_stop)
      (use message.IH stopped_flags [OF message.hyps(1)] deliver_refused [OF _ message.hyps(3)] in auto)
next
  case (take_one os c w k r c' w')
  from take_one.prems show ?case
  proof (rule snoc_after_stop)
    fix os3
    assume os: "os2 = os3 @ [Took k r]" "os = os1 @ Stopped # os3"
    then have "fst (ctx_Err E c w) \<noteq> None"
      using stopped_flags [OF take_one.hyps(1)] by (simp add: ctx_Err_cancelled)
    then have "r = None" using receive_effect(3) [OF take_one.hyps(2)] by (cases r) auto
    then show ?thesis using take_one.IH os by simp
  qed simp
next
  case (work os c w m cl k c' w')
  from work.prems show ?case
    by (rule snoc_after_stop)
      (use work.IH stopped_flags [OF work.hyps(1)] handle_cancelled [OF _ work.hyps(2)] in auto)
next
  case (session os c w h c' w')
  from session.prems show ?case by (rule snoc_after_stop) (use session.IH in auto)
next
  case (edge os c w cl name st c' w')
  from edge.prems show ?case
    by (rule snoc_after_stop)
      (use edge.IH edge.hyps(2) stopped_flags [OF edge.hyps(1)] in \<open>auto simp: HandleGPIOInput_def closed_begin\<close>)
next
  case (announce os c w m cl h c' w')
  from announce.prems show ?case
    by (rule snoc_after_stop)
      (use announce.IH announce.hyps(2) stopped_flags [OF announce.hyps(1)] in \<open>auto simp: run_connect_def closed_begin\<close>)
next
  case (stop os c w timeout e c' w')
  from stop.prems show ?case by (rule snoc_after_stop) (use stop.IH in auto)
next
  case (elsewhere os c w es)
  from elsewhere.prems show ?case by (rule snoc_after_stop) (use elsewhere.IH in auto)
qed simp

end
