(* ===== verification/Controller_Properties.thy ===== *)
theory Controller_Properties
  imports Controller_Runs
begin

section \<open>Correctness of the controller\<close>

text \<open>
  Properties of every run (order of commands, the fate of a message, absence of panics, shutdown),
  of registration, and of the published states. The concrete run of the instances fills the queue
  of the example configuration's relay.
\<close>

subsection \<open>A concrete run\<close>

definition ex_on :: "u8 \<Rightarrow> u16 \<Rightarrow> Message" where
  "ex_on q i = \<lparr>M_Topic = ''ctl/relay/set'', M_Payload = ''on'', M_Retained = False, M_Duplicate = False, M_QoS = q,
     M_MessageID = i\<rparr>"

fun deliver_all ::
  "env \<Rightarrow> message_handler \<Rightarrow> Message list \<Rightarrow> Controller \<Rightarrow> trace \<Rightarrow> fate list \<times> Controller \<times> trace" where
  "deliver_all E h [] c w = ([], c, w)"
| "deliver_all E h (m # ms) c w =
     (let (f, c1, w1) = deliver E h m c w; (fs, c2, w2) = deliver_all E h ms c1 w1 in (f # fs, c2, w2))"

definition ex_messages :: "Message list" where
  "ex_messages = map (\<lambda>i. ex_on 0 0) [1..32] @ [ex_on 1 7]"

definition ex_full :: "fate list \<times> Controller \<times> trace" where
  "ex_full = deliver_all sim_env (SwitchHandler ex_switch) ex_messages (Controller_New ex_config) []"

definition ex_observed :: "observation list" where
  "ex_observed = map2 (Delivered (SwitchHandler ex_switch)) ex_messages (fst ex_full)"

lemma run_deliver_all:
  assumes "run pf E L C cfg os c w" and "registered cfg h"
  shows "run pf E L C cfg (os @ map2 (Delivered h) ms (fst (deliver_all E h ms c w)))
    (fst (snd (deliver_all E h ms c w))) (snd (snd (deliver_all E h ms c w)))"
  using assms(1)
proof (induction ms arbitrary: os c w)
  case (Cons m ms)
  obtain f c1 w1 where d: "deliver E h m c w = (f, c1, w1)" by (cases "deliver E h m c w")
  have "run pf E L C cfg (os @ [Delivered h m f]) c1 w1"
    using Cons.prems assms(2) d by (rule run.message)
  from Cons.IH [OF this] show ?case by (simp add: d split_beta Let_def)
qed simp

lemma ex_registered: "registered ex_config (SwitchHandler ex_switch)"
  by code_simp

lemma ex_run: "run Linux sim_env ex_stdlib ex_codec ex_config ex_observed (fst (snd ex_full)) (snd (snd ex_full))"
  using run_deliver_all [OF run.start [of Linux sim_env ex_stdlib ex_codec ex_config "[]"] ex_registered, of ex_messages]
  by (simp add: ex_observed_def ex_full_def)

lemma ex_fates: "fst ex_full = replicate 32 Queued @ [Overflowed]"
  by code_simp

definition ex_c :: Controller where "ex_c = fst (snd ex_full)"
definition ex_w :: trace where "ex_w = snd (snd ex_full)"

lemmas ex_run_c = ex_run [folded ex_c_def ex_w_def]

lemma ex_relay_queue: "map_option (\<lambda>q. int (length q)) (queue_of ex_c (True, ''relay'')) = Some 32"
proof -
  have "(True, ''relay'') \<in> dom (queue_of ex_c)"
    using run_frames [OF ex_run_c] ex_registered by (auto intro!: exI [of _ "SwitchHandler ex_switch"] simp: ex_defs)
  then obtain q where q: "queue_of ex_c (True, ''relay'') = Some q" by auto
  then have "chan.in_order (accepted (True, ''relay'') ex_observed) (received (True, ''relay'') ex_observed) q"
    using run_frames [OF ex_run_c] by blast
  moreover have "received (True, ''relay'') ex_observed = []"
    by (auto simp: received_def ex_observed_def set_zip)
  moreover have "length (accepted (True, ''relay'') ex_observed) = 32"
    unfolding ex_observed_def ex_fates by code_simp
  ultimately show ?thesis using q by (simp add: chan.in_order_def)
qed

subsection \<open>Commands\<close>

text \<open>
  C1. Accepted commands are processed first in, first out. At any moment of any run, for every switch
  and button, the commands accepted so far are, in this order, those its worker has finished, the
  one it holds, and those still queued; and the queue never holds more than 32. No command is lost,
  duplicated or overtaken between acceptance and its worker, whatever the interleaving.
\<close>

theorem commands_fifo:
  assumes "run pf E L C cfg os c w" and "queue_of c k = Some q"
  shows "accepted k os = handled k os @ (case current_of c k of None \<Rightarrow> [] | Some cmd \<Rightarrow> [cmd]) @ q
    \<and> length q \<le> EntityQueueCapacity"
proof -
  have "chan.in_order (accepted k os) (received k os) q" using run_frames [OF assms(1)] assms(2) by blast
  moreover have "handled k os @ (case current_of c k of None \<Rightarrow> [] | Some cmd \<Rightarrow> [cmd]) = received k os"
    using run_frames [OF assms(1)] by blast
  ultimately show ?thesis by (simp add: chan.in_order_def flip: append_assoc)
qed

theorem commands_fifo_witness:
  "\<exists>q. queue_of ex_c (True, ''relay'') = Some q \<and> length q \<le> EntityQueueCapacity
     \<and> accepted (True, ''relay'') ex_observed = handled (True, ''relay'') ex_observed
          @ (case current_of ex_c (True, ''relay'') of None \<Rightarrow> [] | Some cmd \<Rightarrow> [cmd]) @ q"
proof -
  obtain q where "queue_of ex_c (True, ''relay'') = Some q" using ex_relay_queue by auto
  with commands_fifo [OF ex_run_c this] show ?thesis by blast
qed

text \<open>
  C4. The fate of a message, in any reachable state: it is refused exactly when the controller is
  shutting down or its context is done, when it is retained, or when it is a QoS 1 or 2
  retransmission (DUP) of a delivery among the last 256 remembered since the session began;
  otherwise it is queued if fewer than 32 commands wait, and dropped if not.
\<close>

theorem delivery_fate:
  assumes "run pf E L C cfg os c w" and "registered cfg h" and "deliver E h m c w = (f, c', w')"
  shows "\<exists>q. queue_of c (handler_worker h) = Some q \<and>
    f = (if c_accepting c \<and> fst (ctx_Err E c w) = None \<and> \<not> M_Retained m
            \<and> \<not> (M_QoS m > 0 \<and> M_Duplicate m \<and> List.member (window os) (M_Topic m, M_MessageID m))
         then (if length q < EntityQueueCapacity then Queued else Overflowed) else Refused)"
proof -
  obtain ok c1 w1 where a: "acceptMessage E (handler_entity h) m c w = (ok, c1, w1)"
    by (cases "acceptMessage E (handler_entity h) m c w")
  have "handler_worker h \<in> dom (queue_of c)" using run_frames [OF assms(1)] assms(2) by blast
  then obtain q where q: "queue_of c (handler_worker h) = Some q" by auto
  have ok: "ok \<longleftrightarrow> c_accepting c \<and> fst (ctx_Err E c w) = None \<and> \<not> M_Retained m
      \<and> \<not> (M_QoS m > 0 \<and> M_Duplicate m \<and> List.member (window os) (M_Topic m, M_MessageID m))"
    using acceptMessage_window [OF a] run_frames [OF assms(1)] by blast
  have "f = (if ok then (if length q < EntityQueueCapacity then Queued else Overflowed) else Refused)"
    using deliver_effect [OF a] assms(3) q
    by (cases f) (auto simp: delivery_effect_def chan_send_def split: if_splits)
  with q show ?thesis unfolding ok by blast
qed

theorem delivery_fate_witness:
  "\<exists>q. queue_of ex_c (True, ''relay'') = Some q
     \<and> fst (deliver sim_env (SwitchHandler ex_switch) (ex_on 0 0) ex_c ex_w)
       = (if c_accepting ex_c \<and> fst (ctx_Err sim_env ex_c ex_w) = None
          then (if length q < EntityQueueCapacity then Queued else Overflowed) else Refused)"
proof -
  obtain f c' w' where "deliver sim_env (SwitchHandler ex_switch) (ex_on 0 0) ex_c ex_w = (f, c', w')"
    by (cases "deliver sim_env (SwitchHandler ex_switch) (ex_on 0 0) ex_c ex_w")
  from delivery_fate [OF ex_run_c ex_registered this] this show ?thesis
    by (simp add: ex_on_def ex_switch_def ex_entity_def)
qed

text \<open>
  C38. A command that is dropped because its queue is full is still remembered by the duplicate filter:
  if the broker retransmits it, with the DUP flag, after the worker has made room, and no other
  message has arrived in between, the retransmission is refused. (The documentation speaks of
  retransmissions that were already accepted.)
\<close>

theorem overflow_retransmission_refused:
  assumes "run pf E L C cfg (os @ Delivered h m Overflowed # os2) c w" and "registered cfg h" and "M_QoS m > 0"
    and "list_all (\<lambda>ob. \<exists>k r cmd es. ob = Took k r \<or> ob = Worked k cmd es) os2"
    and "deliver E h (m\<lparr>M_Duplicate := True\<rparr>) c w = (f, c', w')"
  shows "f = Refused"
proof -
  have "window (os @ Delivered h m Overflowed # os2) = foldl window_after (window (os @ [Delivered h m Overflowed])) os2"
    by (simp add: window_def)
  also have "\<dots> = window (os @ [Delivered h m Overflowed])"
    using assms(4) by (induction os2 rule: rev_induct) auto
  finally have win: "List.member (window (os @ Delivered h m Overflowed # os2)) (M_Topic m, M_MessageID m)"
    using assms(3) by (auto simp: window_push_def DuplicateCacheSize_def Let_def List.member_iff)
  obtain ok c1 w1 where a: "acceptMessage E (handler_entity h) (m\<lparr>M_Duplicate := True\<rparr>) c w = (ok, c1, w1)"
    by (cases "acceptMessage E (handler_entity h) (m\<lparr>M_Duplicate := True\<rparr>) c w")
  have "\<not> ok" using acceptMessage_window [OF a] run_frames [OF assms(1)] win assms(3) by auto
  then show ?thesis using deliver_effect [OF a] assms(5) by (simp add: delivery_effect_def)
qed

theorem overflow_retransmission_refused_witness:
  "fst (deliver sim_env (SwitchHandler ex_switch) ((ex_on 1 7)\<lparr>M_Duplicate := True\<rparr>) ex_c ex_w) = Refused"
proof -
  have os: "ex_observed = map2 (Delivered (SwitchHandler ex_switch)) (map (\<lambda>i. ex_on 0 0) [1..32]) (replicate 32 Queued)
      @ Delivered (SwitchHandler ex_switch) (ex_on 1 7) Overflowed # []"
    unfolding ex_observed_def ex_fates ex_messages_def by (simp add: zip_append)
  obtain f c' w' where d: "deliver sim_env (SwitchHandler ex_switch) ((ex_on 1 7)\<lparr>M_Duplicate := True\<rparr>) ex_c ex_w = (f, c', w')"
    by (cases "deliver sim_env (SwitchHandler ex_switch) ((ex_on 1 7)\<lparr>M_Duplicate := True\<rparr>) ex_c ex_w")
  have "f = Refused"
    by (rule overflow_retransmission_refused [OF ex_run_c [unfolded os] ex_registered _ _ d]) (simp_all add: ex_on_def)
  then show ?thesis by (simp add: d)
qed



end
