(* ===== verification/Controller_Publishing.thy ===== *)
theory Controller_Publishing
  imports Controller_Runs
begin

section \<open>Registration and published states\<close>

text \<open>
  What the controller registers with the client, and which states it puts on the broker: the
  subscriptions of a valid configuration, the reaction to GPIO edges, the announcement of all
  states on a connection, and the state after a command.
\<close>

text \<open>The command topics and their handlers, in configuration order.\<close>

definition command_topic :: "Config \<Rightarrow> EntityConfig \<Rightarrow> (string \<times> message_handler) list" where
  "command_topic cfg e =
     (if Ent_Type e = ''switch'' then [(entityTopic cfg (Ent_ID e) ''set'', SwitchHandler e)]
      else if Ent_Type e = ''button'' then [(entityTopic cfg (Ent_ID e) ''press'', ButtonHandler e)] else [])"

definition command_topics :: "Config \<Rightarrow> EntityConfig list \<Rightarrow> message_handler gomap" where
  "command_topics cfg es = concat (map (command_topic cfg) es)"

text \<open>A broker that is connected and takes and acknowledges every message.\<close>

definition broker_up :: "env \<Rightarrow> bool" where
  "broker_up E \<longleftrightarrow> (\<forall>w. e_connected E w) \<and> (\<forall>w t p q r d. e_publish E w t p q r d = (Completed, True))"

subsection \<open>Registration\<close>

lemma valid_entity_ids:
  assumes "valid_config L cfg"
  shows "distinct (map Ent_ID (Entities cfg))" and "e \<in> set (Entities cfg) \<Longrightarrow> CHR ''/'' \<notin> set (Ent_ID e)"
  using assms by (auto simp: valid_config_def entity_ok_def)

lemma put_new: "map_of m k = None \<Longrightarrow> put k v m = m @ [(k, v)]"
  by (simp add: put_def)

lemma RegisterSubscription_new:
  assumes "map_of (subscribers cl) t = None" and "cl_accepting cl" and "\<forall>w. \<not> e_connected E w"
  shows "\<exists>w'. RegisterSubscription E t h cl w = (None, cl\<lparr>subscribers := subscribers cl @ [(t, h)]\<rparr>, w')"
  using assms by (simp add: RegisterSubscription_def is_connected_def ask_connected_def put_new)

lemma command_topic_keys:
  "t \<in> fst ` set (command_topics cfg es) \<longleftrightarrow> (\<exists>e \<in> set es. t \<in> fst ` set (command_topic cfg e))"
  by (simp add: command_topics_def image_UN)

lemma command_topic_disjoint:
  assumes "CHR ''/'' \<notin> set (Ent_ID e)" and "CHR ''/'' \<notin> set (Ent_ID f)" and "Ent_ID e \<noteq> Ent_ID f"
  shows "fst ` set (command_topic cfg e) \<inter> fst ` set (command_topic cfg f) = {}"
  using assms by (auto simp: command_topic_def entityTopic_inject)

lemma register_entities_fresh:
  assumes "\<forall>w. \<not> e_connected E w" and "distinct (map Ent_ID es)" and "\<forall>e \<in> set es. CHR ''/'' \<notin> set (Ent_ID e)"
    and "cl_accepting cl" and "fst ` set (subscribers cl) \<inter> fst ` set (command_topics cfg es) = {}"
  shows "\<exists>w'. register_entities E cfg es cl w = (None, cl\<lparr>subscribers := subscribers cl @ command_topics cfg es\<rparr>, w')"
  using assms(2-5)
proof (induction es arbitrary: cl w)
  case Nil
  then show ?case by (simp add: command_topics_def)
next
  case (Cons e es)
  show ?case
  proof (cases "command_topic cfg e")
    case Nil
    then show ?thesis
      using Cons by (auto simp: command_topics_def command_topic_def split: if_splits)
  next
    case (Cons p ps)
    obtain t h where p: "p = (t, h)" by (cases p)
    have one: "command_topic cfg e = [(t, h)]" using Cons p by (auto simp: command_topic_def split: if_splits)
    have new: "map_of (subscribers cl) t = None"
      using Cons.prems(4) one by (auto simp: command_topics_def map_of_eq_None_iff)
    obtain w1 where reg: "RegisterSubscription E t h cl w = (None, cl\<lparr>subscribers := subscribers cl @ [(t, h)]\<rparr>, w1)"
      using RegisterSubscription_new [OF new Cons.prems(3) assms(1)] by blast
    let ?cl = "cl\<lparr>subscribers := subscribers cl @ [(t, h)]\<rparr>"
    have "t \<notin> fst ` set (command_topics cfg es)"
    proof
      assume "t \<in> fst ` set (command_topics cfg es)"
      then obtain f where f: "f \<in> set es" "t \<in> fst ` set (command_topic cfg f)" unfolding command_topic_keys by blast
      then have "Ent_ID e \<noteq> Ent_ID f" using Cons.prems(1) by auto
      then show False using command_topic_disjoint [of e f cfg] f one Cons.prems(2) by auto
    qed
    then have "fst ` set (subscribers ?cl) \<inter> fst ` set (command_topics cfg es) = {}"
      using Cons.prems(4) by (auto simp: command_topics_def)
    then obtain w2 where "register_entities E cfg es ?cl w1
        = (None, ?cl\<lparr>subscribers := subscribers ?cl @ command_topics cfg es\<rparr>, w2)"
      using Cons.IH [of ?cl w1] Cons.prems by auto
    moreover have "register_entities E cfg (e # es) cl w = register_entities E cfg es ?cl w1"
      using one reg by (auto simp: command_topic_def split: if_splits)
    ultimately show ?thesis using one by (simp add: command_topics_def)
  qed
qed

lemma command_topics_distinct:
  assumes "distinct (map Ent_ID es)" and "\<forall>e \<in> set es. CHR ''/'' \<notin> set (Ent_ID e)"
  shows "distinct (map fst (command_topics cfg es))"
  using assms
proof (induction es)
  case (Cons e es)
  have "fst ` set (command_topic cfg e) \<inter> fst ` set (command_topics cfg es) = {}"
  proof (rule ccontr)
    assume "fst ` set (command_topic cfg e) \<inter> fst ` set (command_topics cfg es) \<noteq> {}"
    then obtain t where t: "t \<in> fst ` set (command_topic cfg e)" "t \<in> fst ` set (command_topics cfg es)" by blast
    from t(2) obtain f where "f \<in> set es" "t \<in> fst ` set (command_topic cfg f)" unfolding command_topic_keys by blast
    moreover from this have "Ent_ID e \<noteq> Ent_ID f" using Cons.prems(1) by auto
    ultimately show False using command_topic_disjoint [of e f cfg] t(1) Cons.prems(2) by auto
  qed
  moreover have "distinct (map fst (command_topic cfg e))" by (simp add: command_topic_def)
  ultimately show ?case using Cons by (simp add: command_topics_def)
qed (simp add: command_topics_def)

lemma command_topics_registered:
  "(t, h) \<in> set (command_topics cfg (Entities cfg)) \<longleftrightarrow> registered cfg h
     \<and> t = entityTopic cfg (snd (handler_worker h)) (if fst (handler_worker h) then ''set'' else ''press'')"
  by (cases h) (auto simp: command_topics_def command_topic_def registered_def split: if_splits)

subsection \<open>Publishing states\<close>

abbreviation state_topic :: "Config \<Rightarrow> EntityConfig \<Rightarrow> string" where
  "state_topic cfg e \<equiv> entityTopic cfg (Ent_ID e) ''state''"

lemma state_topic_inject:
  "CHR ''/'' \<notin> set (Ent_ID e) \<Longrightarrow> CHR ''/'' \<notin> set (Ent_ID f) \<Longrightarrow> state_topic cfg e = state_topic cfg f \<longleftrightarrow> Ent_ID e = Ent_ID f"
  by (simp add: entityTopic_inject)

lemma statePayload_not_Nil [simp]: "statePayload b \<noteq> []"
  by (simp add: statePayload_def)

lemma publishState_up:
  assumes "broker_up E" and "transport cl"
  shows "retained (snd (publishState E cl cfg e st w)) = (retained w)(state_topic cfg e \<mapsto> statePayload st)"
  using assms
  by (simp add: publishState_def Publish_def publishWithTimeout_def is_connected_def ask_connected_def broker_up_def
      second_def retained_def)

lemma publish_states_up:
  assumes "broker_up E" and "transport cl"
  shows "retained (publish_states E cl cfg es st w)
    = (\<lambda>t. if t \<in> state_topic cfg ` set es then Some (statePayload st) else retained w t)"
  by (induction es arbitrary: w) (auto simp: publishState_up [OF assms])

lemma state_read_retained [simp]:
  "retained (snd (switchStateLocked E m e rt w)) = retained w" "retained (snd (InputState E m name w)) = retained w"
proof -
  have out: "retained (snd (OutputState E m name w)) = retained w" for name
    by (rule retained_frame, rule ext_intros) simp
  show "retained (snd (switchStateLocked E m e rt w)) = retained w"
    using out by (simp add: switchStateLocked_def)
  show "retained (snd (InputState E m name w)) = retained w"
    by (rule retained_frame, rule ext_intros) simp
qed

fun is_line_set :: "event \<Rightarrow> bool" where
  "is_line_set (EvLineSet h v r) = True"
| "is_line_set e = False"

text \<open>As long as no line is written, the entity's state reads as \<open>b\<close>.\<close>

definition reads_as :: "env \<Rightarrow> Manager \<Rightarrow> Controller \<Rightarrow> EntityConfig \<Rightarrow> trace \<Rightarrow> bool \<Rightarrow> bool" where
  "reads_as E m c e w b \<longleftrightarrow>
     Ent_Type e = ''switch'' \<and> (\<exists>rt. map_of (switches c) (Ent_ID e) = Some rt
        \<and> (\<forall>w'. extends (\<lambda>ev. \<not> is_line_set ev) w w' \<longrightarrow> fst (switchStateLocked E m e rt w') = Inr b))
   \<or> Ent_Type e = ''binary_sensor''
        \<and> (\<forall>w'. extends (\<lambda>ev. \<not> is_line_set ev) w w' \<longrightarrow> fst (InputState E m (Source_GPIO (Source e)) w') = Inr b)"

lemma reads_as_extends: "reads_as E m c e w b \<Longrightarrow> extends (\<lambda>ev. \<not> is_line_set ev) w w1 \<Longrightarrow> reads_as E m c e w1 b"
  unfolding reads_as_def using extends_trans by blast

lemma publishState_ext: "extends (\<lambda>ev. \<not> is_line_set ev) w (snd (publishState E cl cfg e st w))"
  unfolding publishState_def by (rule client.pub_ext) simp_all

lemma report_state_ext: "extends (\<lambda>ev. \<not> is_line_set ev) w (report_state E m cl cfg e rt w)"
proof -
  have read: "extends (\<lambda>ev. \<not> is_line_set ev) w (snd (switchStateLocked E m e rt w))"
    by (auto simp: switchStateLocked_def intro!: OutputState_ext)
  show ?thesis
    using read publishState_ext extends_trans
    by (cases "switchStateLocked E m e rt w") (fastforce simp: report_state_def split: sum.split)
qed

lemma report_state_up:
  assumes "broker_up E" and "transport cl"
  shows "t \<noteq> state_topic cfg e \<Longrightarrow> retained (report_state E m cl cfg e rt w) t = retained w t"
    and "fst (switchStateLocked E m e rt w) = Inr b
      \<Longrightarrow> retained (report_state E m cl cfg e rt w) (state_topic cfg e) = Some (statePayload b)"
  using state_read_retained(1) [of E m e rt w]
  by (cases "switchStateLocked E m e rt w"; auto simp: report_state_def publishState_up [OF assms] split: sum.split)+

text \<open>One entity's turn: other topics are left alone, and its own is set when its state can be read.\<close>

lemma publish_all_turn:
  assumes "broker_up E" and "transport cl" and "fst (publish_all E m cl c (e # es) w)"
  obtains w1 where "publish_all E m cl c (e # es) w = publish_all E m cl c es w1"
    and "extends (\<lambda>ev. \<not> is_line_set ev) w w1"
    and "\<forall>t. t \<noteq> state_topic (c_cfg c) e \<longrightarrow> retained w1 t = retained w t"
    and "\<forall>b. reads_as E m c e w b \<longrightarrow> retained w1 (state_topic (c_cfg c) e) = Some (statePayload b)"
proof -
  note up = report_state_up [OF assms(1,2)] publishState_up [OF assms(1,2)]
  consider (switch) "Ent_Type e = ''switch''" | (sensor) "Ent_Type e = ''binary_sensor''"
    | (other) "Ent_Type e \<noteq> ''switch'' \<and> Ent_Type e \<noteq> ''binary_sensor''" by blast
  then show thesis
  proof cases
    case switch
    then obtain rt where rt: "map_of (switches c) (Ent_ID e) = Some rt"
      using assms(3) by (cases "map_of (switches c) (Ent_ID e)") auto
    show thesis
      by (rule that [of "report_state E m cl (c_cfg c) e rt w"])
        (use switch rt up report_state_ext in \<open>auto simp: reads_as_def\<close>)
  next
    case sensor
    obtain r w0 where r: "InputState E m (Source_GPIO (Source e)) w = (r, w0)"
      by (cases "InputState E m (Source_GPIO (Source e)) w")
    have w0: "retained w0 = retained w" "extends (\<lambda>ev. \<not> is_line_set ev) w w0"
      using state_read_retained(2) [of E m "Source_GPIO (Source e)" w] r
        InputState_ext [of "\<lambda>ev. \<not> is_line_set ev" w E m "Source_GPIO (Source e)"] by simp_all
    have reads: "r = Inr b" if "reads_as E m c e w b" for b
      using that sensor r by (auto simp: reads_as_def dest!: spec [of _ w])
    show thesis
    proof (cases r)
      case (Inl x)
      then show thesis using reads by (intro that [of w0]) (use sensor r w0 in auto)
    next
      case (Inr st)
      then show thesis
        using reads extends_trans [OF w0(2) publishState_ext]
        by (intro that [of "snd (publishState E cl (c_cfg c) e st w0)"]) (use sensor r w0 up in auto)
    qed
  next
    case other
    then show thesis by (intro that [of w]) (auto simp: reads_as_def)
  qed
qed

lemma publish_all_up:
  assumes "broker_up E" and "transport cl"
  shows "fst (publish_all E m cl c es w) \<Longrightarrow> distinct (map Ent_ID es) \<Longrightarrow> \<forall>e \<in> set es. CHR ''/'' \<notin> set (Ent_ID e) \<Longrightarrow>
     (\<forall>t. t \<notin> state_topic (c_cfg c) ` set es \<longrightarrow> retained (snd (publish_all E m cl c es w)) t = retained w t)
     \<and> (\<forall>e \<in> set es. \<forall>b. reads_as E m c e w b \<longrightarrow>
          retained (snd (publish_all E m cl c es w)) (state_topic (c_cfg c) e) = Some (statePayload b))"
proof (induction es arbitrary: w)
  case (Cons e es)
  obtain w1 where w1: "publish_all E m cl c (e # es) w = publish_all E m cl c es w1"
    "extends (\<lambda>ev. \<not> is_line_set ev) w w1"
    "\<forall>t. t \<noteq> state_topic (c_cfg c) e \<longrightarrow> retained w1 t = retained w t"
    "\<forall>b. reads_as E m c e w b \<longrightarrow> retained w1 (state_topic (c_cfg c) e) = Some (statePayload b)"
    using publish_all_turn [OF assms Cons.prems(1)] by blast
  have new: "state_topic (c_cfg c) e \<notin> state_topic (c_cfg c) ` set es"
    using Cons.prems(2,3) by (auto simp: state_topic_inject)
  have later: "reads_as E m c f w1 b" if "reads_as E m c f w b" for f b
    using reads_as_extends that w1(2) by blast
  have "fst (publish_all E m cl c es w1)" "distinct (map Ent_ID es)" "\<forall>e \<in> set es. CHR ''/'' \<notin> set (Ent_ID e)"
    using Cons.prems w1(1) by simp_all
  from Cons.IH [OF this] new later w1(3,4) show ?case unfolding w1(1) by auto
qed simp

section \<open>Properties\<close>

lemma sim_broker_up: "broker_up sim_env"
  by (simp add: broker_up_def sim_env_def)

definition ex_app :: app_client where
  "ex_app = new_client ex_config ''tcp://127.0.0.1:1883''"

text \<open>A world in which the transport is not connected yet.\<close>

definition offline_env :: env where
  "offline_env = sim_env\<lparr>e_connected := \<lambda>w. False\<rparr>"

text \<open>
  C20. Registration of a valid configuration with a client that is not connected yet cannot fail, and
  leaves the client subscribed to exactly the command topics: \<open>base/id/set\<close> of each switch and
  \<open>base/id/press\<close> of each button, pairwise different, each with the handler of its own entity.
  The duplicate filter is reset on every session and states are announced on every connection.
\<close>

theorem Register_subscribes:
  assumes "valid_config L cfg" and "cl_accepting cl" and "subscribers cl = []" and "\<forall>w. \<not> e_connected E w"
  shows "\<exists>cl' w'. Register E (Controller_New cfg) cl w = (None, cl', w')
    \<and> distinct (map fst (subscribers cl'))
    \<and> (\<forall>t h. (t, h) \<in> set (subscribers cl') \<longleftrightarrow> registered cfg h
         \<and> t = entityTopic cfg (snd (handler_worker h)) (if fst (handler_worker h) then ''set'' else ''press''))
    \<and> onSession cl' = onSession cl @ [ResetDedupe] \<and> onConnect cl' = onConnect cl @ [Announce]"
proof -
  have cfg: "c_cfg (Controller_New cfg) = cfg"
    using Controller_New_queues(4) [of cfg] by (simp add: fresh_from_def new_controller_def)
  have ids: "distinct (map Ent_ID (Entities cfg))" "\<forall>e \<in> set (Entities cfg). CHR ''/'' \<notin> set (Ent_ID e)"
    using valid_entity_ids [OF assms(1)] by blast+
  let ?cl = "cl\<lparr>subscribers := command_topics cfg (Entities cfg)\<rparr>"
  obtain w1 where "register_entities E cfg (Entities cfg) cl w = (None, ?cl, w1)"
    using register_entities_fresh [OF assms(4) ids assms(2), of cfg w] assms(3) by auto
  then have "Register E (Controller_New cfg) cl w
      = (None, ?cl\<lparr>onSession := onSession cl @ [ResetDedupe], onConnect := onConnect cl @ [Announce]\<rparr>, w1)"
    using assms(2) by (simp add: Register_def cfg AddConnectHandler_def AddSessionHandler_def)
  then show ?thesis
    using command_topics_distinct [OF ids, of cfg] command_topics_registered [of _ _ cfg] by simp
qed

theorem Register_subscribes_witness:
  "\<exists>cl' w'. Register offline_env (Controller_New ex_config) ex_app [] = (None, cl', w')
     \<and> (''ctl/relay/set'', SwitchHandler ex_switch) \<in> set (subscribers cl')"
proof -
  have "\<forall>w. \<not> e_connected offline_env w" "cl_accepting ex_app" "subscribers ex_app = []"
    by (simp_all add: offline_env_def ex_app_def new_client_def)
  from Register_subscribes [OF ex_valid this(2,3,1), of "[]"]
  show ?thesis by (auto simp: registered_def ex_defs entityTopic_def)
qed

text \<open>
  C22. An edge on a GPIO input reaches exactly its sensors: with a broker that takes every message,
  afterwards the broker retains the new state for every binary sensor configured on that input, and
  what it retains for any other topic is unchanged. The controller's own state is unchanged too.
\<close>

theorem input_edge_published:
  assumes "run pf E L C cfg os c w" and "broker_up E" and "transport cl"
    and "c_accepting c" and "fst (ctx_Err E c w) = None"
  shows "\<exists>w'. HandleGPIOInput E cl name st c w = (c, w') \<and>
    retained w' = (\<lambda>t. if \<exists>e \<in> set (Entities cfg). Ent_Type e = ''binary_sensor'' \<and> Source_GPIO (Source e) = name
        \<and> t = state_topic cfg e then Some (statePayload st) else retained w t)"
proof -
  have frames: "c_cfg c = cfg" "binaryByInput c = binaryByInput (Controller_New cfg)" using run_frames [OF assms(1)] by blast+
  let ?es = "filter (\<lambda>e. Ent_Type e = ''binary_sensor'' \<and> Source_GPIO (Source e) = name) (Entities cfg)"
  have sensors: "sensors_of c name = ?es"
    using Controller_New_queues(5) [of cfg name] by (simp add: sensors_of_def frames)
  obtain ok c1 w1 where b: "beginCallback E c w = (ok, c1, w1)" by (cases "beginCallback E c w")
  note bf = beginCallback_frame [OF b]
  have c1: "c1 = c\<lparr>c_wg := Suc (c_wg c)\<rparr>" "ok" "w1 = snd (ctx_Err E c w)" using bf assms(4,5) by simp_all
  have "HandleGPIOInput E cl name st c w = (c, publish_states E cl cfg (sensors_of c name) st w1)"
    using c1 by (simp add: HandleGPIOInput_def b sensors_of_def frames Let_def)
  moreover have "retained w1 = retained w"
    unfolding c1(3) by (simp add: ctx_Err_def ask_ctx_def retained_def)
  ultimately show ?thesis
    using publish_states_up [OF assms(2,3), of cfg ?es st w1] unfolding sensors by (auto simp: fun_eq_iff)
qed

theorem input_edge_published_witness:
  "\<exists>w'. HandleGPIOInput sim_env ex_app ''contact'' True (Controller_New ex_config) [] = (Controller_New ex_config, w')
     \<and> retained w' ''ctl/contact/state'' = Some ''ON''"
proof -
  have "c_accepting (Controller_New ex_config)" "\<not> c_cancelled (Controller_New ex_config)"
    using Controller_New_queues(4) [of ex_config] by (simp_all add: fresh_from_def new_controller_def)
  moreover have "fst (ctx_Err sim_env (Controller_New ex_config) []) = None"
    using calculation by (simp add: ctx_Err_def ask_ctx_def sim_env_def)
  moreover have "transport ex_app" by (simp add: ex_app_def new_client_def)
  ultimately obtain w' where "HandleGPIOInput sim_env ex_app ''contact'' True (Controller_New ex_config) [] = (Controller_New ex_config, w')"
    "retained w' = (\<lambda>t. if \<exists>e \<in> set (Entities ex_config). Ent_Type e = ''binary_sensor'' \<and> Source_GPIO (Source e) = ''contact''
        \<and> t = state_topic ex_config e then Some (statePayload True) else retained [] t)"
    using input_edge_published [OF run.start [of Linux sim_env ex_stdlib ex_codec ex_config "[]"] sim_broker_up,
        of ex_app "''contact''" True] by blast
  moreover have "state_topic ex_config ex_sensor = ''ctl/contact/state''"
    by (simp add: ex_defs entityTopic_def)
  ultimately show ?thesis
    by (auto simp: statePayload_def ex_config_def ex_sensor_def)
qed

text \<open>
  C10. After a connection the broker agrees with the daemon: with a broker that takes every message,
  after \<open>PublishAllStates\<close> the broker retains, for every switch and binary sensor whose state can be
  read, exactly that state; topics of no entity are untouched, and an entity whose line cannot be
  read does not keep the others from being published.
\<close>

theorem PublishAllStates_synchronises:
  assumes "valid_config L cfg" and "run pf E L C cfg os c w" and "broker_up E" and "transport cl"
    and "e \<in> set (Entities cfg)" and "reads_as E m c e w b"
  shows "\<exists>w'. PublishAllStates E m cl c w = (c, w') \<and> retained w' (state_topic cfg e) = Some (statePayload b)
    \<and> (\<forall>t. t \<notin> state_topic cfg ` set (Entities cfg) \<longrightarrow> retained w' t = retained w t)"
proof -
  have frames: "c_cfg c = cfg" and dom: "dom (queue_of c) = {k. \<exists>h. registered cfg h \<and> handler_worker h = k}"
    using run_frames [OF assms(2)] by blast+
  have "map_of (switches c) (Ent_ID f) \<noteq> None" if "f \<in> set (Entities cfg)" "Ent_Type f = ''switch''" for f
  proof -
    have "(True, Ent_ID f) \<in> dom (queue_of c)"
      unfolding dom using that by (auto simp: registered_def intro!: exI [of _ "SwitchHandler f"])
    then show ?thesis by (auto simp: queue_of_def)
  qed
  then have ok: "fst (publish_all E m cl c (Entities cfg) w)" by (intro publish_all_ok) blast
  have "distinct (map Ent_ID (Entities cfg))" "\<forall>e \<in> set (Entities cfg). CHR ''/'' \<notin> set (Ent_ID e)"
    using valid_entity_ids [OF assms(1)] by blast+
  from publish_all_up [OF assms(3,4) ok this] assms(5,6) show ?thesis
    using ok by (auto simp: PublishAllStates_def frames split_beta Let_def)
qed

theorem PublishAllStates_synchronises_witness:
  "\<exists>w'. PublishAllStates sim_env ex_manager ex_app (Controller_New ex_config) [] = (Controller_New ex_config, w')
     \<and> retained w' ''ctl/relay/state'' = Some ''OFF''"
proof -
  have lvl: "level h w' = 0" if "extends (\<lambda>ev. \<not> is_line_set ev) [] w'" for h w'
  proof -
    have "list_all (\<lambda>ev. \<not> is_line_set ev) w'" using that by (simp add: extends_def)
    then show ?thesis
    proof (induction w' rule: rev_induct)
      case (snoc ev es)
      then show ?case by (cases ev) auto
    qed (simp add: level_def)
  qed
  have "m_outputs ex_manager = [(''relay'', 0)]" by code_simp
  moreover have "map_of (switches (Controller_New ex_config)) ''relay''
      = Some \<lparr>sw_state = False, sw_queue = [], sw_overflow = new_overflowLog, sw_current = None\<rparr>" by code_simp
  ultimately have "reads_as sim_env ex_manager (Controller_New ex_config) ex_switch [] False"
    using lvl by (auto simp: reads_as_def ex_switch_def ex_entity_def switchStateLocked_def OutputState_def line_value_def
        sim_env_def)
  moreover have "ex_switch \<in> set (Entities ex_config)" "transport ex_app"
    by (simp_all add: ex_config_def ex_app_def new_client_def)
  moreover have "state_topic ex_config ex_switch = ''ctl/relay/state''" by (simp add: ex_defs entityTopic_def)
  ultimately show ?thesis
    using PublishAllStates_synchronises [OF ex_valid run.start [of Linux sim_env ex_stdlib ex_codec ex_config "[]"] sim_broker_up,
        of ex_app ex_switch ex_manager False]
    by (auto simp: statePayload_def)
qed

text \<open>
  C11. What Home Assistant sees after a command is the truth. When the actions of an understood switch
  payload have run, successfully or not, a memory switch has taken the commanded state exactly if
  they succeeded and keeps its old state otherwise, and the broker retains the switch's actual
  state: the memory for a memory switch, the level read back from the line for a GPIO switch.
\<close>

theorem command_reflected:
  assumes "map_of (switches c) (Ent_ID e) = Some rt" and "parseSwitchPayload p = (d, True)"
    and "Execute pf E L (Executor_New (c_cfg c) m cl) (if d then On e else Off e) w = (r, w1)" and "r \<noteq> Panic"
    and "State_Type (State e) = ''memory'' \<or> State_Type (State e) = ''gpio'' \<and> fst (OutputState E m (State_GPIO (State e)) w1) = Inr b"
    and "broker_up E" and "transport cl"
  shows "\<exists>c' w' rt'. handleSwitch pf E L m cl e p c w = (c', w') \<and> map_of (switches c') (Ent_ID e) = Some rt'
    \<and> sw_state rt' = (if State_Type (State e) = ''memory'' \<and> r = Ok then d else sw_state rt)
    \<and> retained w' (state_topic (c_cfg c) e) = Some (statePayload (if State_Type (State e) = ''memory'' then sw_state rt' else b))"
proof -
  let ?mem = "State_Type (State e) = ''memory''"
  let ?rt = "if ?mem \<and> r = Ok then rt\<lparr>sw_state := d\<rparr> else rt"
  have h: "\<exists>c'. handleSwitch pf E L m cl e p c w = (c', report_state E m cl (c_cfg c) e ?rt w1)
      \<and> map_of (switches c') (Ent_ID e) = Some ?rt"
    using assms(1-4) by (cases r) (auto simp: handleSwitch_def Let_def)
  have "fst (switchStateLocked E m e ?rt w1) = Inr (if ?mem then sw_state ?rt else b)"
    using assms(5) by (auto simp: switchStateLocked_def)
  from report_state_up(2) [OF assms(6,7) this, of "c_cfg c"] h show ?thesis by (auto split: if_splits)
qed

theorem command_reflected_witness:
  "\<exists>c' w'. handleSwitch Linux sim_env ex_stdlib ex_manager ex_app ex_switch '' on'' (Controller_New ex_config) [] = (c', w')
     \<and> retained w' ''ctl/relay/state'' = Some ''ON''"
proof -
  let ?c = "Controller_New ex_config"
  let ?x = "Executor_New (c_cfg ?c) ex_manager ex_app"
  let ?r = "Execute Linux sim_env ex_stdlib ?x (if True then On ex_switch else Off ex_switch) []"
  have rt: "map_of (switches ?c) (Ent_ID ex_switch)
      = Some \<lparr>sw_state = False, sw_queue = [], sw_overflow = new_overflowLog, sw_current = None\<rparr>" by code_simp
  have p: "parseSwitchPayload '' on'' = (True, True)" by code_simp
  have r: "fst ?r \<noteq> Panic" by code_simp
  have st: "State_Type (State ex_switch) = ''memory'' \<or> State_Type (State ex_switch) = ''gpio''
      \<and> fst (OutputState sim_env ex_manager (State_GPIO (State ex_switch)) (snd ?r)) = Inr True" by code_simp
  have topic: "state_topic (c_cfg ?c) ex_switch = ''ctl/relay/state''" by code_simp
  have tr: "transport ex_app" by (simp add: ex_app_def new_client_def)
  have nm: "State_Type (State ex_switch) \<noteq> ''memory''" by (simp add: ex_switch_def ex_entity_def)
  from command_reflected [OF rt p prod.collapse [symmetric] r st sim_broker_up tr] show ?thesis
    unfolding topic using nm by (auto simp: statePayload_def)
qed

lemma optional_put: "key \<noteq> k \<Longrightarrow> map_of (if b then put k v m else m) key = map_of m key"
  by simp

lemma discovery_lookups:
  "map_of (discoveryPayload cfg e) ''command_topic'' =
     (if Ent_Type e = ''switch'' then Some (JStr (entityTopic cfg (Ent_ID e) ''set''))
      else if Ent_Type e = ''button'' then Some (JStr (entityTopic cfg (Ent_ID e) ''press'')) else None)"
  "map_of (discoveryPayload cfg e) ''state_topic'' =
     (if Ent_Type e = ''switch'' \<or> Ent_Type e = ''binary_sensor'' then Some (JStr (state_topic cfg e)) else None)"
  "map_of (discoveryPayload cfg e) ''payload_on'' =
     (if Ent_Type e = ''switch'' \<or> Ent_Type e = ''binary_sensor'' then Some (JStr (statePayload True)) else None)"
  "map_of (discoveryPayload cfg e) ''payload_off'' =
     (if Ent_Type e = ''switch'' \<or> Ent_Type e = ''binary_sensor'' then Some (JStr (statePayload False)) else None)"
  "map_of (discoveryPayload cfg e) ''payload_press'' = (if Ent_Type e = ''button'' then Some (JStr ''PRESS'') else None)"
  "map_of (discoveryPayload cfg e) ''availability_topic'' = Some (JStr (StatusTopic cfg))"
  by (cases "Ent_Type e = ''switch''"; cases "Ent_Type e = ''button''"; cases "Ent_Type e = ''binary_sensor''";
      simp add: discoveryPayload_def base_payload_def statePayload_def Let_def optional_put split del: if_split)+

text \<open>
  C21. The Home Assistant description of an entity agrees with the daemon's behaviour: the command
  topic it advertises is the one subscribed for that entity, the payloads it tells Home Assistant
  to send are understood as intended, the state topic is the one states are published to, the
  state payloads are those published and read back, and availability is the status topic.
\<close>

theorem discovery_matches_controller:
  assumes "e \<in> set (Entities cfg)" and "map_of (discoveryPayload cfg e) key = Some v"
  shows "(key = ''command_topic'' \<longrightarrow> (\<exists>t h. v = JStr t \<and> handler_entity h = e \<and> (t, h) \<in> set (command_topics cfg (Entities cfg))))
    \<and> (key = ''state_topic'' \<longrightarrow> v = JStr (state_topic cfg e))
    \<and> (key = ''payload_on'' \<longrightarrow> v = JStr (statePayload True) \<and> parseSwitchPayload (statePayload True) = (True, True))
    \<and> (key = ''payload_off'' \<longrightarrow> v = JStr (statePayload False) \<and> parseSwitchPayload (statePayload False) = (False, True))
    \<and> (key = ''payload_press'' \<longrightarrow> (\<exists>p. v = JStr p \<and> is_press p))
    \<and> (key = ''availability_topic'' \<longrightarrow> v = JStr (StatusTopic cfg))"
proof -
  have press: "is_press ''PRESS''" by code_simp
  have sw: "\<exists>h. handler_entity h = e \<and> (entityTopic cfg (Ent_ID e) ''set'', h) \<in> set (command_topics cfg (Entities cfg))"
    if "Ent_Type e = ''switch''"
    by (rule exI [of _ "SwitchHandler e"]) (use that assms(1) in \<open>simp add: command_topics_registered registered_def\<close>)
  have bt: "\<exists>h. handler_entity h = e \<and> (entityTopic cfg (Ent_ID e) ''press'', h) \<in> set (command_topics cfg (Entities cfg))"
    if "Ent_Type e = ''button''"
    by (rule exI [of _ "ButtonHandler e"]) (use that assms(1) in \<open>simp add: command_topics_registered registered_def\<close>)
  have cmd: "\<exists>t h. v = JStr t \<and> handler_entity h = e \<and> (t, h) \<in> set (command_topics cfg (Entities cfg))"
    if "key = ''command_topic''"
    using assms(2) sw bt unfolding that discovery_lookups
    by (cases "Ent_Type e = ''switch''"; cases "Ent_Type e = ''button''")
      auto
  have st: "v = JStr (state_topic cfg e)" if "key = ''state_topic''"
    using assms(2) unfolding that discovery_lookups by (simp split: if_splits)
  have on: "v = JStr (statePayload True)" if "key = ''payload_on''"
    using assms(2) unfolding that discovery_lookups by (simp split: if_splits)
  have off: "v = JStr (statePayload False)" if "key = ''payload_off''"
    using assms(2) unfolding that discovery_lookups by (simp split: if_splits)
  have pr: "v = JStr ''PRESS''" if "key = ''payload_press''"
    using assms(2) unfolding that discovery_lookups by (simp split: if_splits)
  have av: "v = JStr (StatusTopic cfg)" if "key = ''availability_topic''"
    using assms(2) unfolding that discovery_lookups by simp
  show ?thesis
    by (intro conjI impI parse_statePayload) (use cmd st on off pr av press in simp_all)
qed

theorem discovery_matches_controller_witness:
  "\<exists>t. map_of (discoveryPayload ex_config ex_switch) ''command_topic'' = Some (JStr t)
     \<and> (\<exists>h. handler_entity h = ex_switch \<and> (t, h) \<in> set (command_topics ex_config (Entities ex_config)))"
proof -
  have "map_of (discoveryPayload ex_config ex_switch) ''command_topic'' = Some (JStr ''ctl/relay/set'')" by code_simp
  moreover have "ex_switch \<in> set (Entities ex_config)" by (simp add: ex_config_def)
  ultimately show ?thesis using discovery_matches_controller [of ex_switch ex_config "''command_topic''" "JStr ''ctl/relay/set''"] by auto
qed

end
