(* ===== verification/Service_Frames.thy ===== *)
theory Service_Frames
  imports Controller_Publishing
begin

section \<open>Operations that open and close no line\<close>

text \<open>
  Once the lines are open, everything the daemon does until shutdown (handling a connection, a
  message, a command, an edge) leaves the set of open GPIO lines alone. Each lemma follows the
  definition of its operation.
\<close>

abbreviation calm :: "trace \<Rightarrow> trace \<Rightarrow> bool" where
  "calm \<equiv> extends (\<lambda>e. \<not> is_line_lifecycle e)"

named_theorems calm_intros \<open>an operation opens and closes no line\<close>

lemma calm_snoc [calm_intros]: "calm w u \<Longrightarrow> \<not> is_line_lifecycle e \<Longrightarrow> calm w (u @ [e])"
  by (rule extends_snoc)

lemma calm_then: "calm u v \<Longrightarrow> calm w u \<Longrightarrow> calm w v"
  using extends_trans by blast

subsection \<open>Commands\<close>

lemma ask_ctx_calm [calm_intros]: "calm w (snd (ask_ctx E c w))"
  by (rule ask_ctx_ext) simp

lemma ask_now_calm [calm_intros]: "calm w (snd (ask_now E w))"
  by (rule ask_now_ext) simp

lemma bind_calm [calm_intros]: "calm w (snd (bindCommandExecutable pf E p w))"
  by (cases pf) (auto simp: process_defs Let_def)

lemma send_signal_calm: "calm w (snd (send_signal E pid s w))"
  by (auto simp: send_signal_def)

lemma signal_calm [calm_intros]: "calm w (snd (signalCommandGroup pf E pid force w))"
proof (cases pf)
  case Linux
  then show ?thesis using send_signal_calm by (simp add: process_defs split_beta Let_def)
next
  case OtherOS
  have "calm w (w @ [EvFindProcess pid r])" for r by (auto intro: calm_intros)
  then show ?thesis
    using OtherOS calm_then [OF send_signal_calm]
    by (auto simp: process_defs split_beta Let_def split: option.split)
qed

lemma terminate_calm [calm_intros]: "calm w (snd (terminateCommandGroup pf E pid grace w))"
proof (cases pf)
  case Linux
  have s: "calm w (snd (signalCommandGroup pf E pid False w))" by (rule signal_calm)
  then have "calm w (snd (signalCommandGroup pf E pid True (snd (signalCommandGroup pf E pid False w) @ [EvSleep grace])))"
    by (intro calm_then [OF signal_calm] calm_snoc) simp_all
  with s show ?thesis using Linux by (simp add: terminate_defs split_beta split: option.split prod.split)
qed (simp add: terminate_defs signal_calm)

lemma waiter_calm [calm_intros]: "calm w (snd (snd (waiter_wait pf E w)))"
proof -
  have "calm w ((w @ [EvOutput c]) @ [EvWait a b])" for c a b
    by (intro calm_snoc extends_refl) simp_all
  then show ?thesis by (simp add: waiter_wait_def split_beta Let_def)
qed

lemma finish_command_calm: "calm w (snd (snd (finish_command pf E timeout pid w)))"
proof (cases "e_select E w")
  case CommandDone
  have "calm w (snd (ask_ctx E (CommandCtx timeout) (snd (snd (waiter_wait pf E (w @ [EvSelect CommandDone]))))))"
    by (intro calm_then [OF ask_ctx_calm] calm_then [OF waiter_calm] calm_snoc) simp_all
  then show ?thesis using CommandDone by (simp add: finish_command_def split_beta Let_def split: option.split)
next
  case ContextDone
  have "calm w (snd (ask_ctx E (CommandCtx timeout)
      (snd (snd (waiter_wait pf E (snd (terminateCommandGroup pf E pid commandTerminateGrace (w @ [EvSelect ContextDone]))))))))"
    by (intro calm_then [OF ask_ctx_calm] calm_then [OF waiter_calm] calm_then [OF terminate_calm] calm_snoc) simp_all
  then show ?thesis using ContextDone by (simp add: finish_command_def split_beta Let_def split: option.split)
qed

lemma runCommand_calm: "calm w (snd (snd (runCommand pf E L a w)))"
proof -
  let ?w1 = "snd (ask_ctx E (CommandCtx (CommandTimeout L a)) w)"
  let ?w2 = "snd (bindCommandExecutable pf E (Command a) ?w1)"
  have w1: "calm w ?w1" by (rule ask_ctx_calm)
  have w2: "calm w ?w2" by (rule calm_then [OF bind_calm w1])
  have w3: "calm w (?w2 @ [EvStart p as d en r])" for p as d en r by (rule calm_snoc [OF w2]) simp
  show ?thesis
    using w1 w2 w3 calm_then [OF finish_command_calm w3]
    by (simp add: runCommand_def split_beta Let_def split: option.split sum.split prod.split)
qed

subsection \<open>Actions\<close>

lemma Publish_calm [calm_intros]: "calm w (snd (Publish E cl t p q r w))"
  by (rule client.pub_ext) simp_all

lemma executeDelay_calm: "calm w (snd (executeDelay E L raw w))"
proof -
  have "calm w (snd (ask_ctx E ServiceCtx (w @ [EvDelay d b])))" for d b
    by (intro calm_then [OF ask_ctx_calm] calm_snoc) simp_all
  moreover have "calm w (w @ [EvDelay d b])" for d b by (rule calm_snoc) simp_all
  ultimately show ?thesis by (simp add: executeDelay_def split_beta Let_def split: option.split)
qed

lemma executeOne_calm: "calm w (snd (executeOne pf E L x a w))"
proof -
  have "calm w (snd (SetOutput E m name v w))" for m name v by (rule SetOutput_ext) simp
  then show ?thesis
    by (simp add: executeOne_def executeCommand_def runCommand_calm executeDelay_calm Publish_calm split_beta Let_def split: option.split)
qed

lemma execute_from_calm: "calm w (snd (execute_from pf E L x i actions w))"
proof (induction actions arbitrary: i w)
  case (Cons a actions)
  let ?w1 = "snd (ask_ctx E ServiceCtx w)"
  let ?w2 = "snd (executeOne pf E L x a ?w1)"
  have w1: "calm w ?w1" by (rule ask_ctx_calm)
  have w2: "calm w ?w2" by (rule calm_then [OF executeOne_calm w1])
  have w3: "calm w (snd (execute_from pf E L x j actions ?w2))" for j by (rule calm_then [OF Cons.IH w2])
  show ?case using w1 w2 w3 by (simp add: split_beta Let_def split: option.split outcome.split)
qed simp

subsection \<open>Discovery\<close>

lemma is_disk_calm: "is_disk e \<Longrightarrow> \<not> is_line_lifecycle e"
  by (cases e) auto

lemma replaces_calm: "extends (replaces path B) w w' \<Longrightarrow> calm w w'"
  by (erule extends_mono) (simp add: replaces_def is_disk_calm)

lemmas disk_calm = replaces_calm [OF write_ext] replaces_calm [OF lock_ext] replaces_calm [OF unlock_ext]

lemma map_prod_calm: "calm w (snd r) \<Longrightarrow> calm w (snd (map_prod f id r))"
  by simp

lemma remove_stale_calm: "calm w (snd (remove_stale (Publish E cl) cfg ts w))"
  by (induction ts arbitrary: w) (auto intro!: and_then_ext map_prod_calm Publish_calm simp del: snd_map_prod)

lemma publish_desired_calm: "calm w (snd (publish_desired (Publish E cl) cfg ps w))"
  by (induction ps arbitrary: w) (auto intro!: and_then_ext map_prod_calm Publish_calm simp del: snd_map_prod)

lemma changes_calm: "calm w (snd (publishDiscoveryChanges (Publish E cl) cfg stale ps w))"
  unfolding publishDiscoveryChanges_def by (intro and_then_ext remove_stale_calm publish_desired_calm)

lemma reconcile_topics_calm: "calm w (snd (reconcile_topics E C (Publish E cl) cfg path previous pubs w))"
  unfolding reconcile_topics_def Let_def by (intro and_then_ext changes_calm disk_calm)

lemma reconcile_locked_calm: "calm w (snd (reconcile_locked E C (Publish E cl) cfg path pubs w))"
  unfolding reconcile_locked_def
  by (auto intro!: and_then_ext changes_calm disk_calm reconcile_topics_calm split: sum.split)

lemma reconcileDiscovery_calm: "calm w (snd (reconcileDiscovery E C (Publish E cl) cfg w))"
proof -
  have "calm w (snd (let (e, w2) = reconcile_locked E C (Publish E cl) cfg path pubs w in (e, unlockDiscoveryState E path w2)))"
    for w path pubs
    using calm_then [OF disk_calm(3) reconcile_locked_calm] by (simp add: split_beta)
  then show ?thesis
    unfolding reconcileDiscovery_def Let_def
    by (auto intro!: and_then_ext changes_calm disk_calm split: sum.split)
qed

subsection \<open>The controller\<close>

lemma ctx_Err_calm [calm_intros]: "calm w (snd (ctx_Err E c w))"
  using ask_ctx_calm by (auto simp: ctx_Err_def intro: calm_snoc)

lemma reject_calm: "calm w (snd (reject E msg c w))"
  using ask_now_calm by (simp add: reject_def split_beta Let_def)

lemma publishState_calm: "calm w (snd (publishState E cl cfg e st w))"
  unfolding publishState_def by (rule Publish_calm)

lemma InputState_calm: "calm w (snd (InputState E m name w))"
  by (rule InputState_ext) simp

lemma report_state_calm: "calm w (report_state E m cl cfg e rt w)"
proof -
  have "calm w (snd (switchStateLocked E m e rt w))"
    by (auto simp: switchStateLocked_def intro!: OutputState_ext)
  then show ?thesis
    by (simp add: report_state_def calm_then [OF publishState_calm] split_beta split: sum.split prod.split)
qed

lemma handleSwitch_calm: "calm w (snd (handleSwitch pf E L m cl e p c w))"
proof -
  have x: "calm w (snd (Execute pf E L y as w))" for y :: "('a, 'b, 'c) Executor" and as
    by (simp add: Execute_def execute_from_calm)
  have r: "calm w (report_state E m cl (c_cfg c) e rt (snd (Execute pf E L y as w)))"
    for rt as and y :: "('a, 'b, 'c) Executor"
    by (rule calm_then [OF report_state_calm x])
  show ?thesis
    unfolding handleSwitch_def Let_def split_beta
    by (cases "map_of (switches c) (Ent_ID e)"; cases "snd (parseSwitchPayload p)")
      (simp_all add: reject_calm r x split: outcome.split)
qed

lemma handleButton_calm: "calm w (snd (handleButton pf E L m cl e p c w))"
  by (cases "map_of (buttons c) (Ent_ID e)"; cases "is_press p")
    (simp_all add: handleButton_def reject_calm Execute_def execute_from_calm split_beta split: outcome.split)

lemma handle_calm: "calm w (snd (handle pf E L m cl k c w))"
proof (cases "current_of c k")
  case None
  then show ?thesis by (simp add: handle_None)
next
  case (Some cmd)
  then obtain c1 where h: "handle pf E L m cl k c w = (let (err, w1) = ctx_Err E c w in
      if err \<noteq> None then (c1, w1) else finish pf E L m cl (fst k) cmd c1 w1)"
    by (rule handle_Some [where pf = pf and E = E and L = L and m = m and cl = cl and w = w])
  have "calm u (snd (finish pf E L m cl b cmd c1 u))" for u b
    by (simp add: finish_def handleSwitch_calm handleButton_calm)
  from calm_then [OF this ctx_Err_calm] ctx_Err_calm show ?thesis
    by (simp add: h split_beta Let_def)
qed

lemma receive_calm: "calm w (snd (snd (receive E k c w)))"
  using ctx_Err_calm [of w E c]
  by (cases k; cases "map_of (switches c) (snd k)"; cases "map_of (buttons c) (snd k)")
    (auto simp: receive_def switch_receive_def button_receive_def split_beta Let_def split: option.split)

lemma acceptMessage_calm: "calm w (snd (snd (acceptMessage E e m c w)))"
proof -
  have "calm w (snd (reject E msg c' (snd (ctx_Err E c w))))" for msg c'
    by (rule calm_then [OF reject_calm ctx_Err_calm])
  then show ?thesis using ctx_Err_calm by (simp add: acceptMessage_def split_beta Let_def)
qed

lemma deliver_calm: "calm w (snd (snd (deliver E h m c w)))"
proof -
  have a: "calm w (snd (snd (acceptMessage E e m c w)))" for e by (rule acceptMessage_calm)
  have n: "calm w (snd (ask_now E (snd (snd (acceptMessage E e m c w)))))" for e by (rule calm_then [OF ask_now_calm a])
  show ?thesis
    using a n
    by (cases h) (simp_all add: deliver_def enqueueSwitch_def enqueueButton_def split_beta Let_def split: option.split)
qed

lemma beginCallback_calm: "calm w (snd (snd (beginCallback E c w)))"
  using ctx_Err_calm [of w E c] by (simp add: beginCallback_def split_beta Let_def)

lemma publish_states_calm: "calm w (publish_states E cl cfg es st w)"
  by (induction es arbitrary: w) (auto intro: calm_then publishState_calm)

lemma HandleGPIOInput_calm: "calm w (snd (HandleGPIOInput E cl name st c w))"
  by (simp add: HandleGPIOInput_def calm_then [OF publish_states_calm beginCallback_calm] beginCallback_calm split_beta Let_def)

lemma publish_all_calm: "calm w (snd (publish_all E m cl c es w))"
proof (induction es arbitrary: w)
  case (Cons e es)
  have "calm w (snd (publish_all E m cl c es (report_state E m cl (c_cfg c) e rt w)))" for rt
    by (rule calm_then [OF Cons.IH report_state_calm])
  moreover have "calm w (snd (publish_all E m cl c es (snd (InputState E m name w))))" for name
    by (rule calm_then [OF Cons.IH InputState_calm])
  moreover have "calm w (snd (publish_all E m cl c es (snd (publishState E cl (c_cfg c) e st (snd (InputState E m name w))))))"
    for name st
    by (rule calm_then [OF Cons.IH calm_then [OF publishState_calm InputState_calm]])
  ultimately show ?case using Cons.IH by (simp add: split_beta split: option.split sum.split prod.split)
qed simp

lemma PublishAllStates_calm: "calm w (snd (PublishAllStates E m cl c w))"
  using publish_all_calm by (simp add: PublishAllStates_def split_beta Let_def)

lemma run_connect_calm: "calm w (snd (run_connect E C m cl h c w))"
proof -
  have "calm w (snd (PublishAllStates E m cl c1 (snd (PublishDiscovery E C cl c1 (snd (snd (beginCallback E c w)))))))" for c1
    unfolding PublishDiscovery_def
    by (rule calm_then [OF PublishAllStates_calm calm_then [OF reconcileDiscovery_calm beginCallback_calm]])
  then show ?thesis using beginCallback_calm by (simp add: run_connect_def split_beta Let_def)
qed

subsection \<open>The client\<close>

lemma subscribe_all_calm: "calm w (subscribe_all E cl ts w)"
proof (induction ts arbitrary: w)
  case (Cons t ts)
  have "calm w (snd (subscribeWithClient E cl t w))" by (auto simp: subscribeWithClient_def Let_def)
  then show ?case using calm_then [OF Cons.IH] by simp
qed simp

lemma handleConnect_calm:
  assumes "\<And>h st w. calm w (snd (run_s h st w))" and "\<And>h st w. calm w (snd (run_k h st w))"
  shows "calm w (snd (snd (handleConnect E run_s run_k cl st w)))"
proof -
  have s: "calm w (snd (run_handlers EvSession run_s hs st w))" for hs
    by (rule run_handlers_ext [OF assms(1)]) simp
  have k: "calm u (snd (run_handlers EvConnectHandler run_k hs st' u))" for hs st' u
    by (rule run_handlers_ext [OF assms(2)]) simp
  have "calm w (snd (run_handlers EvConnectHandler run_k hs' st' (snd (Publish E cl' t p q r
      (subscribe_all E cl' ts (snd (run_handlers EvSession run_s hs st w)))))))" for hs hs' st' cl' t p q r ts
    by (rule calm_then [OF k calm_then [OF Publish_calm calm_then [OF subscribe_all_calm s]]])
  then show ?thesis
    by (cases "cl_accepting cl") (simp_all add: handleConnect_def Client_beginCallback_def split_beta Let_def)
qed

lemma on_message_calm:
  assumes "\<And>h msg st w. calm w (snd (run_m h msg st w))"
  shows "calm w (snd (snd (on_message E run_m h pm cl st w)))"
  using assms ask_now_calm
  by (cases "cl_accepting cl") (simp_all add: on_message_def Client_beginCallback_def dispatchMessage_def split_beta Let_def)

end
