(* ===== verification/Service.thy ===== *)
theory Service
  imports Service_Frames
begin

section \<open>The service (cmd/mqtt-raspberry-controller/main.go)\<close>

text \<open>
  Start-up and shutdown, which put the components together, and what the goroutines of the daemon
  do in between: \<open>serves\<close> is the sequence of callbacks and worker rounds, in any order. \<open>run\<close> takes
  what happens while it waits (for the first connection, and for the signal) as a function
  \<open>background\<close>; the theorems assume of it only that it is such a sequence.
\<close>

definition shutdownTimeout :: duration where
  "shutdownTimeout = 10 * second"

record service =
  sv_controller :: Controller
  sv_client :: app_client
  sv_manager :: Manager

datatype shutdown_error = ControllerTimedOut duration | CloseMQTT client_error | CloseGPIO manager_error

datatype service_error =
    ConfigurationError load_error | InitializeMQTT client_error | InitializeOutputs manager_error
  | RegisterEntities client_error "shutdown_error option" | ConnectMQTT client_error "shutdown_error option"
  | InitializeInputs manager_error "shutdown_error option" | ShutdownFailed shutdown_error

definition shutdownService :: "env \<Rightarrow> service \<Rightarrow> trace \<Rightarrow> shutdown_error option \<times> service \<times> trace" where
  "shutdownService E s w =
     (let (start, w1) = ask_now E w; deadline = start + shutdownTimeout;
          cl = StopAccepting (sv_client s);
          (now, w2) = ask_now E w1;
          (e, c, w3) = Shutdown E (deadline - now) (sv_controller s) w2;
          s1 = s\<lparr>sv_client := cl, sv_controller := c\<rparr>
      in case e of
           Some d \<Rightarrow> (Some (ControllerTimedOut d), s1, w3)
         | None \<Rightarrow>
             (let (now2, w4) = ask_now E w3; (e2, cl2, w5) = Client_Close E (deadline - now2) cl w4; s2 = s1\<lparr>sv_client := cl2\<rparr>
              in case e2 of
                   Some err \<Rightarrow> (Some (CloseMQTT err), s2, w5)
                 | None \<Rightarrow>
                     (let (e3, m, w6) = Manager_Close E (sv_manager s) w5
                      in (map_option CloseGPIO e3, s2\<lparr>sv_manager := m\<rparr>, w6))))"

record flags =
  configPath :: string
  checkConfig :: bool
  showVersion :: bool

text \<open>What \<open>run\<close> reads from outside: the environment variables, the file reader and the YAML decoder.\<close>

record inputs =
  LookupEnv :: lookupEnvFunc
  ReadFile :: "string \<Rightarrow> string + bytes"
  decodeYAML :: "bytes \<Rightarrow> string + Config"

datatype waiting = UntilConnected | UntilSignal

definition give_up ::
  "env \<Rightarrow> (shutdown_error option \<Rightarrow> service_error) \<Rightarrow> service \<Rightarrow> trace \<Rightarrow> service_error option \<times> trace" where
  "give_up E wrap s w = (let (e, s1, w1) = shutdownService E s w in (Some (wrap e), w1))"

text \<open>From a successful connection on: open the inputs, publish their states, wait, shut down.\<close>

definition run_connected ::
  "env \<Rightarrow> stdlib \<Rightarrow> (waiting \<Rightarrow> service \<Rightarrow> trace \<Rightarrow> service \<times> trace) \<Rightarrow> service \<Rightarrow> trace \<Rightarrow> service_error option \<times> trace" where
  "run_connected E L background s w =
     (let (s1, w4) = background UntilConnected s w in
      case OpenInputs E L (sv_manager s1) w4 of
        (Some e, m1, w5) \<Rightarrow> give_up E (InitializeInputs e) (s1\<lparr>sv_manager := m1\<rparr>) w5
      | (None, m1, w5) \<Rightarrow>
          (let (c1, w6) = PublishAllStates E m1 (sv_client s1) (sv_controller s1) w5;
               (s2, w7) = background UntilSignal (s1\<lparr>sv_manager := m1, sv_controller := c1\<rparr>) w6;
               (e, s3, w8) = shutdownService E s2 w7
           in (map_option ShutdownFailed e, w8)))"

text \<open>With the outputs open: build the controller, register its entities, connect.\<close>

definition run_registered ::
  "env \<Rightarrow> stdlib \<Rightarrow> (waiting \<Rightarrow> service \<Rightarrow> trace \<Rightarrow> service \<times> trace) \<Rightarrow> Config \<Rightarrow> app_client \<Rightarrow> Manager \<Rightarrow> trace
    \<Rightarrow> service_error option \<times> trace" where
  "run_registered E L background cfg cl m w =
     (let c = Controller_New cfg in
      case Register E c cl w of
        (Some e, cl1, w2) \<Rightarrow> give_up E (RegisterEntities e) \<lparr>sv_controller = c, sv_client = cl1, sv_manager = m\<rparr> w2
      | (None, cl1, w2) \<Rightarrow>
          (let s = \<lparr>sv_controller = c, sv_client = cl1, sv_manager = m\<rparr> in
           case Connect E w2 of
             (Some e, w3) \<Rightarrow> give_up E (ConnectMQTT e) s w3
           | (None, w3) \<Rightarrow> run_connected E L background s w3))"

definition run_service ::
  "env \<Rightarrow> stdlib \<Rightarrow> hostfs \<Rightarrow> inputs \<Rightarrow> (waiting \<Rightarrow> service \<Rightarrow> trace \<Rightarrow> service \<times> trace) \<Rightarrow> flags \<Rightarrow> trace
    \<Rightarrow> service_error option \<times> trace" where
  "run_service E L H I background args w =
     (if showVersion args then (None, w)
      else case load_config L H (LookupEnv I) (ReadFile I) (decodeYAML I) (configPath args) of
        Inl e \<Rightarrow> (Some (ConfigurationError e), w)
      | Inr cfg \<Rightarrow>
          (case Client_New L H cfg of
             Inl e \<Rightarrow> (Some (InitializeMQTT e), w)
           | Inr (cl, opts) \<Rightarrow>
               if checkConfig args then (None, w)
               else (case OpenOutputs E (Manager_New (GPIO cfg)) w of
                   (Some e, m, w1) \<Rightarrow> (Some (InitializeOutputs e), w1)
                 | (None, m, w1) \<Rightarrow> run_registered E L background cfg cl m w1)))"

text \<open>
  The steps of the running daemon: a connection, a message for a registered subscription, a round
  of a worker, and an edge of an open input.
\<close>

inductive serves :: "platform \<Rightarrow> env \<Rightarrow> stdlib \<Rightarrow> codec \<Rightarrow> service \<Rightarrow> trace \<Rightarrow> service \<Rightarrow> trace \<Rightarrow> bool"
  for pf E L C where
  idle: "serves pf E L C s w s w"
| connected: "serves pf E L C s w s1 w1 \<Longrightarrow>
    handleConnect E run_session (run_connect E C (sv_manager s1) (sv_client s1)) (sv_client s1) (sv_controller s1) w1 = (cl, c, w2)
    \<Longrightarrow> serves pf E L C s w (s1\<lparr>sv_client := cl, sv_controller := c\<rparr>) w2"
| message: "serves pf E L C s w s1 w1 \<Longrightarrow> (t, h) \<in> set (subscribers (sv_client s1)) \<Longrightarrow>
    on_message E (run_message E) h pm (sv_client s1) (sv_controller s1) w1 = (cl, c, w2)
    \<Longrightarrow> serves pf E L C s w (s1\<lparr>sv_client := cl, sv_controller := c\<rparr>) w2"
| takes: "serves pf E L C s w s1 w1 \<Longrightarrow> receive E k (sv_controller s1) w1 = (r, c, w2)
    \<Longrightarrow> serves pf E L C s w (s1\<lparr>sv_controller := c\<rparr>) w2"
| works: "serves pf E L C s w s1 w1 \<Longrightarrow> handle pf E L (sv_manager s1) (sv_client s1) k (sv_controller s1) w1 = (c, w2)
    \<Longrightarrow> serves pf E L C s w (s1\<lparr>sv_controller := c\<rparr>) w2"
| edge: "serves pf E L C s w s1 w1 \<Longrightarrow> map_of (m_inputs (sv_manager s1)) name \<noteq> None \<Longrightarrow>
    inputEventHandler name True ev = Some (name', st) \<Longrightarrow>
    HandleGPIOInput E (sv_client s1) name' st (sv_controller s1) w1 = (c, w2)
    \<Longrightarrow> serves pf E L C s w (s1\<lparr>sv_controller := c\<rparr>) w2"

section \<open>Lemmas\<close>

lemma handleConnect_client: "fst (handleConnect E run_s run_k cl st w) = cl"
  by (cases "cl_accepting cl") (simp_all add: handleConnect_def Client_beginCallback_def split_beta Let_def)

lemma on_message_client:
  "subscribers (fst (on_message E run_m h pm cl st w)) = subscribers cl"
  by (cases "cl_accepting cl"; cases "int (length (p_Payload pm)) > MaxCommandPayload")
    (simp_all add: on_message_def Client_beginCallback_def dispatchMessage_def callback_done_def split_beta Let_def)

lemma serves_frame:
  "serves pf E L C s w s' w' \<Longrightarrow>
     sv_manager s' = sv_manager s \<and> subscribers (sv_client s') = subscribers (sv_client s) \<and> calm w w'"
proof (induction rule: serves.induct)
  case (connected s w s1 w1 cl c w2)
  let ?run = "run_connect E C (sv_manager s1) (sv_client s1)"
  have "calm w1 w2"
    using handleConnect_calm [of run_session ?run w1 E "sv_client s1" "sv_controller s1"] run_connect_calm connected.hyps(2)
    by (simp add: run_session_def)
  moreover have "cl = sv_client s1"
    using handleConnect_client [of E run_session ?run "sv_client s1" "sv_controller s1" w1] connected.hyps(2) by simp
  ultimately show ?case using connected.IH calm_then by simp
next
  case (message s w s1 w1 t h pm cl c w2)
  have "calm w1 w2"
    using on_message_calm [of "run_message E" w1 E h pm "sv_client s1" "sv_controller s1"] deliver_calm message.hyps(3)
    by (simp add: run_message_def)
  moreover have "subscribers cl = subscribers (sv_client s1)"
    using on_message_client [of E "run_message E" h pm "sv_client s1" "sv_controller s1" w1] message.hyps(3) by simp
  ultimately show ?case using message.IH calm_then by simp
next
  case (takes s w s1 w1 k r c w2)
  then have "calm w1 w2" using receive_calm [of w1 E k "sv_controller s1"] by simp
  then show ?case using takes.IH calm_then by simp
next
  case (works s w s1 w1 k c w2)
  then have "calm w1 w2" using handle_calm [of w1 pf E L "sv_manager s1" "sv_client s1" k "sv_controller s1"] by simp
  then show ?case using works.IH calm_then by simp
next
  case (edge s w s1 w1 name ev name' st c w2)
  then have "calm w1 w2" using HandleGPIOInput_calm [of w1 E "sv_client s1" name' st "sv_controller s1"] by simp
  then show ?case using edge.IH calm_then by simp
qed simp

lemma serves_lines: "serves pf E L C s w s' w' \<Longrightarrow> lines_inv (sv_manager s) w \<Longrightarrow> lines_inv (sv_manager s') w'"
  using serves_frame [of pf E L C s w s' w'] live_frame [of w w'] by (auto simp: lines_inv_def)

subsection \<open>The controller of the service is a run of the controller\<close>

lemma run_events: "run pf E L C cfg os c w \<Longrightarrow> extends P w w' \<Longrightarrow> \<exists>os'. run pf E L C cfg os' c w'"
  by (auto elim!: extendsE dest: run.elsewhere)

lemma run_session_handlers:
  "run pf E L C cfg os c w \<Longrightarrow> \<exists>os'. run pf E L C cfg os' (fst (run_handlers EvSession run_session hs c w))
     (snd (run_handlers EvSession run_session hs c w))"
proof (induction hs arbitrary: os c w)
  case (Cons h hs)
  obtain c1 w1 where r: "run_session h c (w @ [EvSession]) = (c1, w1)" by (cases "run_session h c (w @ [EvSession])")
  from Cons.IH [OF run.session [OF run.elsewhere [OF Cons.prems] r]] r show ?case by simp
qed auto

lemma run_connect_handlers:
  "run pf E L C cfg os c w \<Longrightarrow> \<exists>os'. run pf E L C cfg os' (fst (run_handlers EvConnectHandler (run_connect E C m cl) hs c w))
     (snd (run_handlers EvConnectHandler (run_connect E C m cl) hs c w))"
proof (induction hs arbitrary: os c w)
  case (Cons h hs)
  obtain c1 w1 where r: "run_connect E C m cl h c (w @ [EvConnectHandler]) = (c1, w1)"
    by (cases "run_connect E C m cl h c (w @ [EvConnectHandler])")
  from Cons.IH [OF run.announce [OF run.elsewhere [OF Cons.prems] r]] r show ?case by simp
qed auto

lemma run_handleConnect:
  assumes "run pf E L C cfg os c w"
  shows "\<exists>os'. run pf E L C cfg os' (fst (snd (handleConnect E run_session (run_connect E C m cl0) cl c w)))
    (snd (snd (handleConnect E run_session (run_connect E C m cl0) cl c w)))"
proof (cases "cl_accepting cl")
  case True
  let ?cl = "cl\<lparr>callbacks := callbacks cl + 1\<rparr>"
  let ?h = "run_handlers EvSession run_session (onSession cl) c w"
  let ?w2 = "subscribe_all E ?cl (map fst (subscribers cl)) (snd ?h)"
  let ?w3 = "snd (Publish E ?cl (StatusTopic (cl_cfg cl)) ''online'' (MQTTQoS (cl_cfg cl)) True ?w2)"
  obtain os1 where "run pf E L C cfg os1 (fst ?h) (snd ?h)" using run_session_handlers [OF assms] by blast
  then obtain os2 where "run pf E L C cfg os2 (fst ?h) ?w2" using run_events [OF _ subscribe_all_calm] by blast
  then obtain os3 where "run pf E L C cfg os3 (fst ?h) ?w3" using run_events [OF _ Publish_calm] by blast
  from run_connect_handlers [OF this, of m cl0 "onConnect cl"] True show ?thesis
    by (simp add: handleConnect_def Client_beginCallback_def split_beta Let_def)
next
  case False
  then show ?thesis using assms by (auto simp: handleConnect_def Client_beginCallback_def)
qed

lemma run_on_message:
  assumes "run pf E L C cfg os c w" and "registered cfg h"
  shows "\<exists>os'. run pf E L C cfg os' (fst (snd (on_message E (run_message E) h pm cl c w)))
    (snd (snd (on_message E (run_message E) h pm cl c w)))"
proof -
  obtain f c1 w1 where d: "deliver E h (messageFromPaho pm) c w = (f, c1, w1)"
    by (cases "deliver E h (messageFromPaho pm) c w")
  obtain os1 where "run pf E L C cfg os1 c (snd (ask_now E w))" using run_events [OF assms(1) ask_now_calm] by blast
  moreover have "run pf E L C cfg (os @ [Delivered h (messageFromPaho pm) f]) c1 w1"
    using run.message [OF assms d] .
  ultimately show ?thesis
    using assms(1) d
    by (cases "cl_accepting cl"; cases "int (length (p_Payload pm)) > MaxCommandPayload")
      (auto simp: on_message_def dispatchMessage_def Client_beginCallback_def run_message_def split_beta Let_def)
qed

lemma serves_run:
  assumes "serves pf E L C s w s' w'" and "run pf E L C cfg os (sv_controller s) w"
    and "\<forall>(t, h) \<in> set (subscribers (sv_client s)). registered cfg h"
  shows "\<exists>os'. run pf E L C cfg os' (sv_controller s') w'"
  using assms
proof (induction rule: serves.induct)
  case (connected s w s1 w1 cl c w2)
  then obtain os' where "run pf E L C cfg os' (sv_controller s1) w1" by blast
  from run_handleConnect [OF this, of "sv_manager s1" "sv_client s1" "sv_client s1"] connected.hyps(2) show ?case by simp
next
  case (message s w s1 w1 t h pm cl c w2)
  then obtain os' where r: "run pf E L C cfg os' (sv_controller s1) w1" by blast
  have "registered cfg h"
    using serves_frame [OF message.hyps(1)] message.hyps(2) message.prems(2) by auto
  from run_on_message [OF r this, of pm "sv_client s1"] message.hyps(3) show ?case by simp
next
  case (takes s w s1 w1 k r c w2)
  then show ?case using run.take_one by fastforce
next
  case (works s w s1 w1 k c w2)
  then show ?case using run.work by fastforce
next
  case (edge s w s1 w1 name ev name' st c w2)
  then show ?case using run.edge by fastforce
qed auto

lemma register_entities_registered:
  "register_entities E cfg es cl w = (r, cl', w') \<Longrightarrow> set es \<subseteq> set (Entities cfg) \<Longrightarrow> (t, h) \<in> set (subscribers cl')
     \<Longrightarrow> (t, h) \<in> set (subscribers cl) \<or> registered cfg h"
proof (induction es arbitrary: cl w)
  case (Cons e es)
  have reg: "(t, h) \<in> set (subscribers cl1) \<Longrightarrow> (t, h) \<in> set (subscribers cl) \<or> h = g"
    if "RegisterSubscription E topic g cl w = (r1, cl1, w1)" for topic g r1 cl1 w1
    using that by (auto simp: RegisterSubscription_def put_new split_beta Let_def split: if_splits)
  have rest: "(t, h) \<in> set (subscribers cl1) \<or> registered cfg h" if "register_entities E cfg es cl1 w1 = (r, cl', w')" for cl1 w1
    using Cons.IH [OF that] Cons.prems by simp
  have one: "(t, h) \<in> set (subscribers cl) \<or> registered cfg h"
    if "registered cfg g" "(case RegisterSubscription E topic g cl w of
           (Some e, cl1, w1) \<Rightarrow> (Some e, cl1, w1)
         | (None, cl1, w1) \<Rightarrow> register_entities E cfg es cl1 w1) = (r, cl', w')" for topic g
  proof -
    obtain r1 cl1 w1 where r1: "RegisterSubscription E topic g cl w = (r1, cl1, w1)"
      by (cases "RegisterSubscription E topic g cl w")
    show ?thesis
      using reg [OF r1] rest [of cl1 w1] that r1 Cons.prems(3) by (cases r1) auto
  qed
  have "registered cfg (SwitchHandler e)" if "Ent_Type e = ''switch''" using that Cons.prems(2) by (simp add: registered_def)
  moreover have "registered cfg (ButtonHandler e)" if "Ent_Type e = ''button''"
    using that Cons.prems(2) by (simp add: registered_def)
  ultimately show ?case
    using Cons.prems(1) one rest
    by (cases "Ent_Type e = ''switch''"; cases "Ent_Type e = ''button''") simp_all
qed auto

lemma Register_registered:
  assumes "Register E (Controller_New cfg) cl w = (r, cl', w')" and "subscribers cl = []"
  shows "\<forall>(t, h) \<in> set (subscribers cl'). registered cfg h"
proof -
  have cfg: "c_cfg (Controller_New cfg) = cfg"
    using Controller_New_queues(4) [of cfg] by (simp add: fresh_from_def new_controller_def)
  obtain r1 cl1 w1 where r: "register_entities E cfg (Entities cfg) cl w = (r1, cl1, w1)"
    by (cases "register_entities E cfg (Entities cfg) cl w")
  have "subscribers cl' = subscribers cl1"
    using assms(1) r by (cases r1) (auto simp: Register_def cfg AddConnectHandler_def AddSessionHandler_def)
  then show ?thesis using register_entities_registered [OF r] assms(2) by auto
qed

subsection \<open>Shutdown\<close>

lemma publishWithTimeout_calm: "calm w (snd (publishWithTimeout E cl t p q r d w))"
proof -
  have "calm w ((w @ [EvConnected b]) @ [EvPublish t p q r rep tk])" "calm w (w @ [EvConnected b])" for b rep tk
    by (intro calm_snoc extends_refl; simp)+
  then show ?thesis
    by (auto simp: publishWithTimeout_def is_connected_def ask_connected_def split_beta Let_def)
qed

lemma is_connected_calm: "calm w (snd (is_connected E cl w))"
  by (auto simp: is_connected_def ask_connected_def)

lemma Client_Close_calm: "calm w (snd (snd (Client_Close E timeout cl w)))"
proof -
  let ?w2 = "snd (ask_now E w) @ [EvCallbacks b]"
  have w2: "calm w (snd (ask_now E w) @ [EvCallbacks b])" for b by (intro calm_snoc ask_now_calm) simp
  have w3: "calm w (snd (is_connected E cl' (snd (ask_now E w) @ [EvCallbacks b])))" for cl' :: "('a, 'b, 'c) Client" and b
    by (rule calm_then [OF is_connected_calm w2])
  have w4: "calm w (snd (ask_now E (snd (is_connected E cl' (snd (ask_now E w) @ [EvCallbacks b])))))"
    for cl' :: "('a, 'b, 'c) Client" and b
    by (rule calm_then [OF ask_now_calm w3])
  have w5: "calm w (snd (ask_now E (snd (publishWithTimeout E cl' t p q r d
      (snd (ask_now E (snd (is_connected E cl' (snd (ask_now E w) @ [EvCallbacks b])))))))))"
    for cl' :: "('a, 'b, 'c) Client" and b t p q r d
    by (rule calm_then [OF ask_now_calm calm_then [OF publishWithTimeout_calm w4]])
  show ?thesis
    unfolding Client_Close_def Let_def split_beta
    using w2 w3 w4 w5 by (auto intro!: calm_snoc)
qed

lemma Shutdown_calm: "calm w (snd (snd (Shutdown E timeout c w)))"
  by (auto simp: Shutdown_def Let_def)

lemma shutdownService_cases:
  assumes "shutdownService E s w = (e, s', w')"
  obtains (controller) d where "e = Some (ControllerTimedOut d)" "sv_manager s' = sv_manager s" "calm w w'"
  | (mqtt) x where "e = Some (CloseMQTT x)" "sv_manager s' = sv_manager s" "calm w w'"
  | (gpio) u e3 where "extends (\<lambda>ev. \<not> is_line_lifecycle ev \<and> ev \<noteq> EvCallbacks False) w u" "Manager_Close E (sv_manager s) u = (e3, sv_manager s', w')" "e = map_option CloseGPIO e3"
proof -
  let ?w2 = "snd (ask_now E (snd (ask_now E w)))"
  let ?d = "fst (ask_now E w) + shutdownTimeout"
  obtain e1 c w3 where sh: "Shutdown E (?d - fst (ask_now E (snd (ask_now E w)))) (sv_controller s) ?w2 = (e1, c, w3)"
    by (metis prod.collapse)
  have w3: "calm w w3"
  proof -
    have "calm w (snd (snd (Shutdown E (?d - fst (ask_now E (snd (ask_now E w)))) (sv_controller s) ?w2)))"
      by (rule calm_then [OF Shutdown_calm calm_then [OF ask_now_calm ask_now_calm]])
    then show ?thesis by (simp add: sh)
  qed
  show thesis
  proof (cases e1)
    case (Some d)
    then show thesis using controller [of d] assms sh w3 by (auto simp: shutdownService_def split_beta Let_def)
  next
    case None
    let ?w4 = "snd (ask_now E w3)"
    obtain e2 cl2 w5 where cc: "Client_Close E (?d - fst (ask_now E w3)) (StopAccepting (sv_client s)) ?w4 = (e2, cl2, w5)"
      by (metis prod.collapse)
    have w5: "calm w w5"
    proof -
      have "calm w (snd (snd (Client_Close E (?d - fst (ask_now E w3)) (StopAccepting (sv_client s)) ?w4)))"
        by (rule calm_then [OF Client_Close_calm calm_then [OF ask_now_calm w3]])
      then show ?thesis by (simp add: cc)
    qed
    show thesis
    proof (cases e2)
      case (Some x)
      then show thesis using mqtt [of x] assms sh cc None w5 by (auto simp: shutdownService_def split_beta Let_def)
    next
      case None
      obtain e3 m w6 where mc: "Manager_Close E (sv_manager s) w5 = (e3, m, w6)" by (metis prod.collapse)
      have e: "e = map_option CloseGPIO e3" "w' = w6" "sv_manager s' = m"
        using assms sh cc mc None \<open>e1 = None\<close> by (auto simp: shutdownService_def split_beta Let_def)
      have "w3 = ?w2 @ [EvCallbacks True]"
        using sh \<open>e1 = None\<close> by (auto simp: Shutdown_def Let_def split: if_splits)
      then have "?w4 = w @ [EvClock (fst (ask_now E w)), EvClock (fst (ask_now E (snd (ask_now E w)))), EvCallbacks True,
          EvClock (fst (ask_now E w3))]"
        by (simp add: ask_now_def)
      then have "extends (\<lambda>ev. \<not> is_line_lifecycle ev \<and> ev \<noteq> EvCallbacks False) w w5"
        using Client_Close_steps [OF cc [unfolded None]] by (auto simp: extends_def)
      then show thesis using gpio [of w5 e3] mc e by simp
    qed
  qed
qed

lemma shutdownService_flags:
  assumes "shutdownService E s w = (e, s', w')"
  shows "\<not> c_accepting (sv_controller s') \<and> c_cancelled (sv_controller s') \<and> \<not> cl_accepting (sv_client s')"
proof -
  have cl: "\<not> cl_accepting (fst (snd (Client_Close E d (StopAccepting cl) u)))" for d u and cl :: app_client
    by (auto simp: Client_Close_def StopAccepting_def split_beta Let_def)
  show ?thesis
    using assms cl by (auto simp: shutdownService_def Shutdown_def StopAccepting_def split_beta Let_def split: option.splits)
qed

text \<open>Either no line is open any more, or a wait timed out and nothing was touched.\<close>

definition abandoned :: "shutdown_error option \<Rightarrow> bool" where
  "abandoned e \<longleftrightarrow> (case e of Some (ControllerTimedOut d) \<Rightarrow> True | Some (CloseMQTT x) \<Rightarrow> True | _ \<Rightarrow> False)"

lemma shutdownService_lines:
  assumes "lines_inv (sv_manager s) w" and "shutdownService E s w = (e, s', w')"
  shows "if abandoned e then sv_manager s' = sv_manager s \<and> calm w w' else live w' = {} \<and> held (sv_manager s') = []"
  using assms(2)
proof (cases rule: shutdownService_cases)
  case (gpio u e3)
  have "calm w u" using gpio(1) by (rule extends_mono) simp
  then have "lines_inv (sv_manager s) u" using assms(1) live_frame by (simp add: lines_inv_def)
  from closeLocked_inv [OF this gpio(2) [unfolded Manager_Close_def]] show ?thesis
    using gpio(3) by (cases e3) (auto simp: abandoned_def held_def)
qed (simp_all add: abandoned_def)

fun shutdown_part :: "service_error \<Rightarrow> shutdown_error option" where
  "shutdown_part (RegisterEntities e s) = s"
| "shutdown_part (ConnectMQTT e s) = s"
| "shutdown_part (InitializeInputs e s) = s"
| "shutdown_part (ShutdownFailed s) = Some s"
| "shutdown_part e = None"

lemma give_up_lines:
  assumes "lines_inv (sv_manager s) w" and "give_up E wrap s w = (e, w')" and "\<And>x. shutdown_part (wrap x) = x"
  shows "live w' = {} \<or> (\<exists>x. e = Some x \<and> abandoned (shutdown_part x))"
proof -
  obtain e1 s1 w1 where sh: "shutdownService E s w = (e1, s1, w1)" by (cases "shutdownService E s w")
  from shutdownService_lines [OF assms(1) this] assms(2,3) sh show ?thesis
    by (auto simp: give_up_def split: if_splits)
qed

lemma Register_calm: "calm w (snd (snd (Register E c cl w)))"
proof -
  have reg: "calm w (snd (snd (RegisterSubscription E t h cl w)))" for t h w and cl :: app_client
  proof -
    have "calm w (snd (subscribeWithClient E cl' t (snd (is_connected E cl' w))))" for cl' :: app_client
      by (rule calm_then [OF _ is_connected_calm]) (auto simp: subscribeWithClient_def Let_def)
    then show ?thesis using is_connected_calm by (auto simp: RegisterSubscription_def split_beta Let_def)
  qed
  have "calm w (snd (snd (register_entities E cfg es cl w)))" for cfg es
  proof (induction es arbitrary: cl w)
    case (Cons e es)
    have "calm w (snd (snd (register_entities E cfg es (fst (snd (RegisterSubscription E t h cl w)))
        (snd (snd (RegisterSubscription E t h cl w))))))" for t h
      by (rule calm_then [OF Cons.IH reg])
    then show ?case using reg Cons.IH by (simp add: split_beta split: option.split)
  qed simp
  then show ?thesis by (simp add: Register_def split_beta split: option.split)
qed

subsection \<open>After the outputs are open\<close>

lemma lines_inv_calm: "lines_inv m u \<Longrightarrow> calm u v \<Longrightarrow> lines_inv m v"
  using live_frame by (simp add: lines_inv_def)

lemma connected_lines:
  assumes "fresh_lines E" and "\<forall>x s u. serves pf E L C s u (fst (background x s u)) (snd (background x s u))"
    and "lines_inv (sv_manager s) w" and "run_connected E L background s w = (e, w')"
  shows "live w' = {} \<or> (\<exists>x. e = Some x \<and> abandoned (shutdown_part x))"
proof -
  obtain s1 w4 where b: "background UntilConnected s w = (s1, w4)" by (cases "background UntilConnected s w")
  have "serves pf E L C s w s1 w4" using assms(2) [THEN spec, of UntilConnected, THEN spec, of s, THEN spec, of w] by (simp add: b)
  then have l4: "lines_inv (sv_manager s1) w4" using assms(3) by (rule serves_lines)
  obtain r m1 w5 where oi: "OpenInputs E L (sv_manager s1) w4 = (r, m1, w5)" by (cases "OpenInputs E L (sv_manager s1) w4")
  have l5: "lines_inv m1 w5" using open_inputs_inv [OF assms(1) l4 oi [unfolded OpenInputs_def]] by blast
  show ?thesis
  proof (cases r)
    case (Some x)
    then show ?thesis
      using assms(4) give_up_lines [of "s1\<lparr>sv_manager := m1\<rparr>" w5 E "InitializeInputs x" e w'] l5
      by (simp add: run_connected_def b oi)
  next
    case None
    obtain c1 w6 where p: "PublishAllStates E m1 (sv_client s1) (sv_controller s1) w5 = (c1, w6)"
      by (cases "PublishAllStates E m1 (sv_client s1) (sv_controller s1) w5")
    let ?s = "s1\<lparr>sv_manager := m1, sv_controller := c1\<rparr>"
    obtain s2 w7 where b2: "background UntilSignal ?s w6 = (s2, w7)" by (cases "background UntilSignal ?s w6")
    have "calm w5 w6" using PublishAllStates_calm [of w5 E m1 "sv_client s1" "sv_controller s1"] p by simp
    with l5 have "lines_inv (sv_manager ?s) w6" by (simp add: lines_inv_calm)
    moreover have "serves pf E L C ?s w6 s2 w7"
      using assms(2) [THEN spec, of UntilSignal, THEN spec, of ?s, THEN spec, of w6] by (simp add: b2)
    ultimately have l7: "lines_inv (sv_manager s2) w7" using serves_lines by blast
    obtain e1 s3 w8 where sh: "shutdownService E s2 w7 = (e1, s3, w8)" by (cases "shutdownService E s2 w7")
    have "e = map_option ShutdownFailed e1" "w' = w8"
      using assms(4) None by (simp_all add: run_connected_def b oi p b2 sh)
    then show ?thesis using shutdownService_lines [OF l7 sh] by (cases e1) (auto simp: abandoned_def split: if_splits)
  qed
qed

lemma registered_lines:
  assumes "fresh_lines E" and "\<forall>x s u. serves pf E L C s u (fst (background x s u)) (snd (background x s u))"
    and "lines_inv m w" and "run_registered E L background cfg cl m w = (e, w')"
  shows "live w' = {} \<or> (\<exists>x. e = Some x \<and> abandoned (shutdown_part x))"
proof -
  let ?c = "Controller_New cfg"
  obtain r cl1 w2 where reg: "Register E ?c cl w = (r, cl1, w2)" by (cases "Register E ?c cl w")
  let ?s = "\<lparr>sv_controller = ?c, sv_client = cl1, sv_manager = m\<rparr>"
  have l2: "lines_inv m w2" using lines_inv_calm [OF assms(3)] Register_calm [of w E ?c cl] by (simp add: reg)
  have l3: "lines_inv m (w2 @ [EvConnect x])" for x by (rule lines_inv_calm [OF l2]) auto
  show ?thesis
  proof (cases r)
    case (Some x)
    then show ?thesis
      using assms(4) give_up_lines [of ?s w2 E "RegisterEntities x" e w'] l2 by (simp add: run_registered_def reg Let_def)
  next
    case None
    show ?thesis
    proof (cases "e_connect E w2")
      case (Some x)
      then show ?thesis
        using assms(4) None give_up_lines [of ?s "w2 @ [EvConnect (Some x)]" E "ConnectMQTT (ConnectFailed x)" e w'] l3
        by (simp add: run_registered_def reg Connect_def Let_def)
    next
      case c: None
      then have "run_connected E L background ?s (w2 @ [EvConnect None]) = (e, w')"
        using assms(4) None by (simp add: run_registered_def reg Connect_def Let_def)
      then show ?thesis using connected_lines [OF assms(1,2), of ?s "w2 @ [EvConnect None]"] l3 by simp
    qed
  qed
qed

section \<open>Properties\<close>

definition ex_service :: service where
  "ex_service = \<lparr>sv_controller = Controller_New ex_config, sv_client = ex_app, sv_manager = ex_manager\<rparr>"

definition ex_inputs :: inputs where
  "ex_inputs = \<lparr>LookupEnv = Map.empty, ReadFile = (\<lambda>_. Inr []), decodeYAML = (\<lambda>_. Inr ex_config)\<rparr>"

definition ex_flags :: "bool \<Rightarrow> flags" where
  "ex_flags check = \<lparr>configPath = ''/etc/c.yaml'', checkConfig = check, showVersion = False\<rparr>"

text \<open>Between the first connection and the signal: the connection is handled.\<close>

definition ex_background :: "waiting \<Rightarrow> service \<Rightarrow> trace \<Rightarrow> service \<times> trace" where
  "ex_background x s w = (case x of
     UntilSignal \<Rightarrow> (s, w)
   | UntilConnected \<Rightarrow>
       (let (cl, c, w1) = handleConnect sim_env run_session (run_connect sim_env ex_codec (sv_manager s) (sv_client s))
              (sv_client s) (sv_controller s) w
        in (s\<lparr>sv_client := cl, sv_controller := c\<rparr>, w1)))"

lemma ex_background_serves: "serves Linux sim_env ex_stdlib ex_codec s w (fst (ex_background x s w)) (snd (ex_background x s w))"
proof (cases x)
  case UntilConnected
  obtain cl c w1 where h: "handleConnect sim_env run_session (run_connect sim_env ex_codec (sv_manager s) (sv_client s))
      (sv_client s) (sv_controller s) w = (cl, c, w1)" by (metis prod.collapse)
  from serves.connected [OF serves.idle this, of Linux ex_stdlib] h show ?thesis by (simp add: ex_background_def UntilConnected)
qed (simp add: ex_background_def serves.idle)





text \<open>
  C39. \<open>-check\<close> only checks: it opens no line, starts no process, publishes nothing (the trace is
  unchanged), and it reports success exactly for the configurations \<open>Load\<close> accepts; so a
  configuration that passes the check never fails to build a client later.
\<close>

theorem check_mode_pure:
  assumes "checkConfig args" and "\<not> showVersion args"
  shows "snd (run_service E L H I background args w) = w
    \<and> (fst (run_service E L H I background args w) = None
        \<longleftrightarrow> (\<exists>cfg. load_config L H (LookupEnv I) (ReadFile I) (decodeYAML I) (configPath args) = Inr cfg))"
proof (cases "load_config L H (LookupEnv I) (ReadFile I) (decodeYAML I) (configPath args)")
  case (Inr cfg)
  then have "Validate L H cfg = None" by (rule load_config_Inr)
  then obtain r :: "app_client \<times> ClientOptions" where "Client_New L H cfg = Inr r"
    using Client_New_succeeds [of L H cfg] by blast
  then show ?thesis using assms Inr by (cases r) (simp add: run_service_def)
qed (use assms in \<open>simp add: run_service_def\<close>)

theorem check_mode_pure_witness:
  "snd (run_service sim_env ex_stdlib ex_fs ex_inputs ex_background (ex_flags True) []) = []
   \<and> fst (run_service sim_env ex_stdlib ex_fs ex_inputs ex_background (ex_flags True) []) = None"
proof -
  have "load_config ex_stdlib ex_fs (LookupEnv ex_inputs) (ReadFile ex_inputs) (decodeYAML ex_inputs) (configPath (ex_flags True))
      = Inr ex_config" by code_simp
  moreover have "checkConfig (ex_flags True)" "\<not> showVersion (ex_flags True)" by (simp_all add: ex_flags_def)
  ultimately show ?thesis using check_mode_pure by blast
qed



end
