(* ===== verification/Spec2Isabelle.thy ===== *)
theory Spec2Isabelle
  imports Controller_Properties Service
begin

text \<open>
  \<^bold>\<open>mqtt-raspberry-controller, a verification development.\<close>

  The program is a daemon that exposes GPIO lines and commands of a Raspberry Pi to Home Assistant
  over MQTT. Its parts, and the theories that model them:

  \<^item> \<open>config/\<close>: the configuration is decoded, its strings are expanded from the environment
    (\<open>expansion.go\<close>), defaults are applied (\<open>config.go\<close>), and it is validated (\<open>validation.go\<close>).
    \<open>Config_Model\<close>, \<open>Expansion\<close>, \<open>Validation\<close>; lemmas and properties in \<open>Config_Properties\<close>.
  \<^item> \<open>gpio/manager.go\<close>: opens, writes, reads and closes lines. \<open>Gpio_Manager\<close>.
  \<^item> \<open>mqtt/client.go\<close>: subscriptions, connect callback, publication with timeout, size limit,
    shutdown. \<open>Mqtt_Client\<close>.
  \<^item> \<open>action/\<close>: runs the actions of a command; \<open>executor.go\<close>, \<open>process_linux.go\<close>,
    \<open>process_other.go\<close>. \<open>Action_Executor\<close>.
  \<^item> \<open>controller/controller.go\<close>: topics and payloads (\<open>Entity_Protocol\<close>), duplicate suppression
    (\<open>Duplicate_Filter\<close>), rate-limited logs (\<open>Rate_Limit\<close>, with the one of the client), command queues
    (\<open>Bounded_Queue\<close>), and the controller with its workers (\<open>Controller\<close>; its runs in
    \<open>Controller_Runs\<close>, its properties in \<open>Controller_Properties\<close> and \<open>Controller_Publishing\<close>).
  \<^item> \<open>controller/discovery.go\<close>: the manifest file (\<open>Discovery_State\<close>) and the reconciliation of the
    retained discovery messages (\<open>Discovery\<close>).
  \<^item> \<open>cmd/mqtt-raspberry-controller/main.go\<close>: start-up and shutdown (\<open>Service\<close>, with the frame
    lemmas of \<open>Service_Frames\<close>).

  \<open>Go_Prelude\<close> has the parts of Go's library the sources use on strings, maps and numbers (byte
  strings, \<open>Split\<close>, \<open>TrimSpace\<close>, \<open>ToUpper\<close>, decimal printing, path cleaning, maps as association
  lists) with their lemmas; \<open>Environment\<close> the world outside; \<open>Simulated_World\<close> and
  \<open>Example_Config\<close> a concrete world and configuration, on which the properties are instantiated.

  \<^bold>\<open>State and effects.\<close> A struct is a record, an enumeration or a closure passed between components
  a datatype, an error a value of an error datatype in the order the code tests for it, an
  unsigned integer a word of its width (the duplicate filter's and the rate limiters' counters
  wrap, the output counter saturates). Every call to the transport, a GPIO line, a process, the
  disk, the clock or a context appends an event to a trace, and an arbitrary environment answers it
  from the trace so far; theorems quantify over the environment, so that a broker may refuse, time
  out, or take a message and lose the acknowledgement, and any disk or line operation may fail.
  What the broker retains, what a file contains and which lines are open are functions of the trace.
  A nil dereference is the outcome \<open>Panic\<close> or the flag \<open>c_panicked\<close>.

  \<^bold>\<open>Interleaving.\<close> \<open>run\<close> in \<open>Controller_Runs\<close> and \<open>serves\<close> in \<open>Service\<close> are the sequences, in any order, of
  deliveries, session resets, worker rounds, edges, announcements and shutdown. A worker round is two
  steps, receiving and handling; each other operation is one step, so the mutexes of the code (which
  make these operations atomic with respect to each other) have no counterpart. A command that is
  being executed when shutdown begins is one step; its cancellation is an answer of the environment
  to the context tests inside it.

  \<^bold>\<open>Interfaces.\<close> What components rely on is stated as locales: \<open>rate_limiter\<close> (interpreted for the
  three limiters), \<open>duplicate_filter\<close> (the cache), \<open>bounded_fifo\<close> (the channel), \<open>publisher\<close> (the
  client's publication; discovery is proved for every publisher). Each is interpreted on the
  definitions of the component that provides it, and the properties rest on those facts.

  \<^bold>\<open>What is shown.\<close>
  \<^item> Configuration: what \<open>Load\<close> returns is valid; the GPIO checks are exact and independent of map
    order; plaintext transport needs a local broker or an explicit choice; expansion is equal to a
    scanner that reads a string once, and substituted text is not scanned again; password files are guarded.
  \<^item> GPIO: opening is all or nothing, closing is complete, what is written is read back.
  \<^item> Client: it can be built exactly from valid configurations; a connection resets, subscribes,
    announces, in this order; handlers get bounded exact copies; closing is orderly.
  \<^item> Executor: a list stops at the first failure that is not ignored; output is captured exactly and
    bounded; commands get a minimal environment, are never signalled after they were reaped, and are
    killed when cancelled.
  \<^item> Controller: commands are processed first in first out in queues of at most 32, the fate of every
    message is characterised against a sliding window of the last 256 deliveries, shutdown takes
    effect at once, states on the broker agree with the daemon, the advertised topics and payloads
    are the ones served.
  \<^item> Discovery: at every instant, also between two events of a write, nothing is on the broker that
    the manifest does not account for; a successful reconciliation converges.
  \<^item> Service: \<open>run\<close> leaves no line open on any path unless it reports that a shutdown wait failed; GPIO
    is closed only after the controller and MQTT have stopped; the controller inside the service is
    always in one of its runs.

  \<^bold>\<open>Bounds.\<close> No definition uses fuel: the loops recurse on their lists, and the index loop of
  \<open>expandValue\<close> has a termination proof on the remaining length.

  \<^bold>\<open>Parameters.\<close> Code that is not in the repository is an argument: the parsers of durations, URLs, IP
  addresses and certificates (\<open>stdlib\<close>), the file system that validation sees (\<open>hostfs\<close>), the YAML
  decoder, the JSON codec (\<open>codec\<close>, of which the discovery properties assume that it decodes what it
  encoded, \<open>codec_ok\<close>), and the environment. Assumptions on them are named: \<open>broker_acks\<close> (an
  acknowledged message was taken), \<open>broker_up\<close>, \<open>file_honest\<close> (the state file reads as it was last
  renamed), \<open>fresh_lines\<close>, \<open>output_memory\<close>.

  \<^bold>\<open>Not modelled.\<close> The text of log lines (only whether one is written), the retry of \<open>waitid\<close> after
  \<open>EINTR\<close>, process-group creation, \<open>pathErrorCause\<close> (it shapes a message), flag parsing and signal
  registration, and the goroutine scheduling inside one operation.
\<close>

end
